(* ===== verification/Prelude.thy ===== *)
theory Prelude
  imports Main "HOL-Library.AList" "HOL-Library.Char_ord" "HOL-Library.List_Lexorder"
    "HOL-Library.Product_Lexorder"
begin

text \<open>
  What the components share: the shape of a Python validator (a ladder of checks whose first
  failing one raises), exceptions as the left summand of a sum, dictionaries in insertion order as
  association lists, the integer bisection both the risk evaluator and the paper ledger run, and
  the two locales that lift one-step facts to whole runs.
\<close>

section \<open>Times\<close>

text \<open>
  A timezone-aware UTC \<open>datetime\<close> is the number of microseconds since the epoch; a
  \<open>timedelta\<close> is a number of microseconds too. Comparison and subtraction are those of \<open>int\<close>.
\<close>

type_synonym datetime = int

definition ms :: "int \<Rightarrow> int" where
  "ms n = n * 1000"

definition minutes :: "int \<Rightarrow> int" where
  "minutes n = n * 60000000"

definition seconds :: "int \<Rightarrow> int" where
  "seconds n = n * 1000000"

text \<open>\<open>at.date()\<close>: the number of the UTC day.\<close>

definition date_of :: "datetime \<Rightarrow> int" where
  "date_of t = t div 86400000000"

section \<open>Validator ladders\<close>

text \<open>
  \<open>if c1: raise e1\<close>, \<open>if c2: raise e2\<close>, and so on: the first condition that holds names the error.
\<close>

fun first_error :: "(bool \<times> 'e) list \<Rightarrow> 'e option" where
  "first_error [] = None"
| "first_error ((bad, e) # rest) = (if bad then Some e else first_error rest)"

lemma first_error_None_iff: "first_error xs = None \<longleftrightarrow> (\<forall>(bad, e) \<in> set xs. \<not> bad)"
  by (induction xs rule: first_error.induct) auto

lemma first_error_Some: "first_error xs = Some e \<Longrightarrow> (True, e) \<in> set xs"
  by (induction xs rule: first_error.induct) (auto split: if_splits)

section \<open>Exceptions\<close>

definition bindE :: "'e + 'a \<Rightarrow> ('a \<Rightarrow> 'e + 'b) \<Rightarrow> 'e + 'b" where
  "bindE m f = (case m of Inl e \<Rightarrow> Inl e | Inr x \<Rightarrow> f x)"

text \<open>Evaluation inlines the bind, so that it looks at the first computation before the rest.\<close>

declare bindE_def [code_unfold]

definition guardE :: "bool \<Rightarrow> 'e \<Rightarrow> 'e + unit" where
  "guardE bad e = (if bad then Inl e else Inr ())"

definition of_option :: "'e \<Rightarrow> 'a option \<Rightarrow> 'e + 'a" where
  "of_option e m = (case m of None \<Rightarrow> Inl e | Some x \<Rightarrow> Inr x)"

lemma bindE_simps [simp]:
  "bindE (Inl e) f = Inl e" "bindE (Inr x) f = f x"
  by (simp_all add: bindE_def)

lemma bindE_Inr_iff: "bindE m f = Inr y \<longleftrightarrow> (\<exists>x. m = Inr x \<and> f x = Inr y)"
  by (cases m) auto

lemma bindE_InrE:
  assumes "bindE m f = Inr y"
  obtains x where "m = Inr x" "f x = Inr y"
  using assms by (auto simp: bindE_Inr_iff)

lemma guardE_Inr_iff [simp]: "guardE bad e = Inr u \<longleftrightarrow> \<not> bad"
  by (simp add: guardE_def)

lemma guardE_simps [simp]: "guardE False e = Inr ()" "guardE True e = Inl e"
  by (simp_all add: guardE_def)

lemma of_option_Inr_iff [simp]: "of_option e m = Inr x \<longleftrightarrow> m = Some x"
  by (cases m) (simp_all add: of_option_def)

lemma of_option_simps [simp]: "of_option e (Some x) = Inr x" "of_option e None = Inl e"
  by (simp_all add: of_option_def)

lemma bindE_split:
  "P (bindE m f) \<longleftrightarrow> (\<forall>e. m = Inl e \<longrightarrow> P (Inl e)) \<and> (\<forall>x. m = Inr x \<longrightarrow> P (f x))"
  by (cases m) auto

section \<open>Dictionaries with default values\<close>

text \<open>\<open>d.get(k, 0)\<close> and \<open>d[k] = d.get(k, 0) + v\<close>; the position of an existing key is kept.\<close>

definition get0 :: "('k \<times> int) list \<Rightarrow> 'k \<Rightarrow> int" where
  "get0 d k = (case map_of d k of None \<Rightarrow> 0 | Some v \<Rightarrow> v)"

definition add_at :: "'k \<Rightarrow> int \<Rightarrow> ('k \<times> int) list \<Rightarrow> ('k \<times> int) list" where
  "add_at k v d = AList.update k (get0 d k + v) d"

lemma get0_Nil [simp]: "get0 [] k = 0"
  by (simp add: get0_def)

lemma get0_add_at [simp]: "get0 (add_at k v d) j = (if j = k then get0 d j + v else get0 d j)"
  by (simp add: get0_def add_at_def update_conv)

lemma add_at_zero_get0: "get0 (add_at k 0 d) j = get0 d j"
  by simp

lemma dict_values_add_at: "sum_list (map snd (add_at k v d)) = sum_list (map snd d) + v"
  unfolding add_at_def get0_def by (induction d) auto

lemma distinct_keys_add_at: "distinct (map fst d) \<Longrightarrow> distinct (map fst (add_at k v d))"
  by (simp add: add_at_def distinct_update)

lemma keys_update: "fst ` set (AList.update k v d) = insert k (fst ` set d)"
  by (induction d) auto

lemma keys_add_at: "fst ` set (add_at k v d) = insert k (fst ` set d)"
  by (simp add: add_at_def keys_update)

lemma update_new_key: "k \<notin> fst ` set d \<Longrightarrow> AList.update k v d = d @ [(k, v)]"
  by (induction d) auto

section \<open>Removing duplicates\<close>

text \<open>\<open>list(dict.fromkeys(xs))\<close>: the first occurrence of each element, in order.\<close>

definition dedupe :: "'a list \<Rightarrow> 'a list" where
  "dedupe xs = rev (remdups (rev xs))"

lemma set_dedupe [simp]: "set (dedupe xs) = set xs"
  by (simp add: dedupe_def)

lemma distinct_dedupe [simp]: "distinct (dedupe xs)"
  by (simp add: dedupe_def)

lemma dedupe_eq_Nil_iff [simp]: "dedupe xs = [] \<longleftrightarrow> xs = []"
  by (simp add: dedupe_def)

section \<open>Bisection\<close>

text \<open>
  The loop both components run, over a test that may raise:
  \<open>while low < high: mid = (low + high + 1) // 2\<close>, then \<open>low = mid\<close> when the candidate is
  acceptable and \<open>high = mid - 1\<close> when it is not.
\<close>

function bisect :: "(int \<Rightarrow> 'e + bool) \<Rightarrow> int \<Rightarrow> int \<Rightarrow> 'e + int" where
  "bisect test low high =
     (if low < high
      then let mid = (low + high + 1) div 2
           in bindE (test mid) (\<lambda>ok. if ok then bisect test mid high else bisect test low (mid - 1))
      else Inr low)"
  by pat_completeness auto
termination
  by (relation "measure (\<lambda>(test, low, high). nat (high - low))") auto

declare bisect.simps [simp del]

lemma bisect_done: "\<not> low < high \<Longrightarrow> bisect test low high = Inr low"
  by (subst bisect.simps) simp

lemma bisect_accept:
  "low < high \<Longrightarrow> test ((low + high + 1) div 2) = Inr True \<Longrightarrow>
   bisect test low high = bisect test ((low + high + 1) div 2) high"
  by (subst bisect.simps) (simp add: Let_def)

lemma bisect_reject:
  "low < high \<Longrightarrow> test ((low + high + 1) div 2) = Inr False \<Longrightarrow>
   bisect test low high = bisect test low ((low + high + 1) div 2 - 1)"
  by (subst bisect.simps) (simp add: Let_def)

lemma bisect_error:
  "low < high \<Longrightarrow> test ((low + high + 1) div 2) = Inl e \<Longrightarrow> bisect test low high = Inl e"
  by (subst bisect.simps) (simp add: Let_def)

text \<open>Whatever the test, the result is in range and, when the loop moved, an accepted value.\<close>

lemma bisect_result:
  "bisect test low high = Inr k \<Longrightarrow> low \<le> high \<Longrightarrow>
   low \<le> k \<and> k \<le> high \<and> (k = low \<or> test k = Inr True)"
proof (induction test low high rule: bisect.induct)
  case (1 test low high)
  show ?case
  proof (cases "low < high")
    case False
    with "1.prems" show ?thesis by (simp add: bisect_done)
  next
    case True
    define mid where "mid = (low + high + 1) div 2"
    have mid: "low < mid" "mid \<le> high" using True by (auto simp: mid_def)
    obtain ok where ok: "test mid = Inr ok"
      using "1.prems" True bisect_error[OF True, of test] unfolding mid_def
      by (cases "test ((low + high + 1) div 2)") auto
    show ?thesis
    proof (cases ok)
      case True': True
      have "bisect test mid high = Inr k"
        using "1.prems"(1) ok True' bisect_accept[OF True, of test] by (simp add: mid_def)
      with "1.IH"(1)[OF True, of mid ok] mid True' ok show ?thesis by (auto simp: mid_def)
    next
      case False
      have "bisect test low (mid - 1) = Inr k"
        using "1.prems"(1) ok False bisect_reject[OF True, of test] by (simp add: mid_def)
      with "1.IH"(2)[OF True, of mid ok] mid False show ?thesis by (auto simp: mid_def)
    qed
  qed
qed

lemma bisect_total:
  "\<forall>k. low < k \<longrightarrow> k \<le> high \<longrightarrow> (\<exists>b. test k = Inr b) \<Longrightarrow> \<exists>k. bisect test low high = Inr k"
proof (induction test low high rule: bisect.induct)
  case (1 test low high)
  show ?case
  proof (cases "low < high")
    case False
    then show ?thesis by (simp add: bisect_done)
  next
    case True
    define mid where "mid = (low + high + 1) div 2"
    have mid: "low < mid" "mid \<le> high" using True by (auto simp: mid_def)
    then obtain ok where ok: "test mid = Inr ok" using "1.prems" by blast
    show ?thesis
    proof (cases ok)
      case True': True
      have "\<exists>k. bisect test mid high = Inr k"
        using "1.IH"(1)[OF True, of mid ok] mid True' "1.prems" by (simp add: mid_def)
      then show ?thesis using bisect_accept[OF True, of test] ok True' by (simp add: mid_def)
    next
      case False
      have "\<exists>k. bisect test low (mid - 1) = Inr k"
        using "1.IH"(2)[OF True, of mid ok] mid False "1.prems" by (simp add: mid_def)
      then show ?thesis using bisect_reject[OF True, of test] ok False by (simp add: mid_def)
    qed
  qed
qed

text \<open>
  The interface of a sizing rule: in a well-formed context \<open>c\<close> a size that is acceptable stays
  acceptable when it shrinks. The client of the interface is the bisection: over such a rule its
  result is the largest acceptable size.
\<close>

locale shrinkable =
  fixes wf :: "'c \<Rightarrow> bool"
    and test :: "'c \<Rightarrow> int \<Rightarrow> 'e + bool"
  assumes shrink: "wf c \<Longrightarrow> 0 \<le> i \<Longrightarrow> i \<le> j \<Longrightarrow> test c j = Inr True \<Longrightarrow> test c i \<noteq> Inr False"
begin

lemma bisect_above_rejected:
  "wf c \<Longrightarrow> 0 \<le> low \<Longrightarrow> bisect (test c) low high = Inr k \<Longrightarrow> k < j \<Longrightarrow> j \<le> high \<Longrightarrow>
   test c j \<noteq> Inr True"
proof (induction "test c" low high rule: bisect.induct)
  case (1 low high)
  show ?case
  proof (cases "low < high")
    case False
    with "1.prems" show ?thesis by (simp add: bisect_done)
  next
    case True
    define mid where "mid = (low + high + 1) div 2"
    have mid: "low < mid" "mid \<le> high" using True by (auto simp: mid_def)
    obtain ok where ok: "test c mid = Inr ok"
      using "1.prems"(3) bisect_error[OF True, of "test c"] unfolding mid_def
      by (cases "test c ((low + high + 1) div 2)") auto
    show ?thesis
    proof (cases ok)
      case True': True
      have "bisect (test c) mid high = Inr k"
        using "1.prems"(3) ok True' bisect_accept[OF True, of "test c"] by (simp add: mid_def)
      with "1.hyps"(1)[OF True, of mid ok] "1.prems" mid True' show ?thesis by (simp add: mid_def)
    next
      case False
      have k: "bisect (test c) low (mid - 1) = Inr k"
        using "1.prems"(3) ok False bisect_reject[OF True, of "test c"] by (simp add: mid_def)
      show ?thesis
      proof (cases "j \<le> mid - 1")
        case True'': True
        then show ?thesis
          using "1.hyps"(2)[OF True, of mid ok] "1.prems" k False by (simp add: mid_def)
      next
        case False'': False
        then have "mid \<le> j" by simp
        then show ?thesis using shrink[of c mid j] "1.prems" mid ok False by auto
      qed
    qed
  qed
qed

theorem bisect_greatest:
  assumes "wf c" "0 \<le> high" "bisect (test c) 0 high = Inr k"
  shows "0 \<le> k \<and> k \<le> high \<and> (k = 0 \<or> test c k = Inr True) \<and>
    (\<forall>j. k < j \<and> j \<le> high \<longrightarrow> test c j \<noteq> Inr True)"
  using assms bisect_result[of "test c" 0 high k] bisect_above_rejected[of c 0 high k] by auto

end

section \<open>Runs\<close>

text \<open>Commands applied one after another; the first one that raises ends the run.\<close>

fun runE :: "('s \<Rightarrow> 'c \<Rightarrow> 'e + 's) \<Rightarrow> 's \<Rightarrow> 'c list \<Rightarrow> 'e + 's" where
  "runE step s [] = Inr s"
| "runE step s (c # cs) = bindE (step s c) (\<lambda>t. runE step t cs)"

lemma runE_append: "runE step s (cs @ ds) = bindE (runE step s cs) (\<lambda>t. runE step t ds)"
  by (induction cs arbitrary: s) (auto simp: bindE_def split: sum.splits)

text \<open>
  The interface of a component with an invariant: every operation on a well-formed command keeps it
  when it returns.
\<close>

locale invariant_step =
  fixes step :: "'s \<Rightarrow> 'c \<Rightarrow> 'e + 's"
    and inv :: "'s \<Rightarrow> bool"
    and ok :: "'c \<Rightarrow> bool"
  assumes step_inv: "inv s \<Longrightarrow> ok c \<Longrightarrow> step s c = Inr t \<Longrightarrow> inv t"
begin

lemma run_inv: "inv s \<Longrightarrow> list_all ok cs \<Longrightarrow> runE step s cs = Inr t \<Longrightarrow> inv t"
  by (induction cs arbitrary: s) (auto simp: bindE_Inr_iff dest: step_inv)

end

text \<open>The interface of a component that keeps a quantity: no operation that returns changes it.\<close>

locale conserved_step =
  fixes step :: "'s \<Rightarrow> 'c \<Rightarrow> 'e + 's"
    and quantity :: "'s \<Rightarrow> 'q"
  assumes step_conserves: "step s c = Inr t \<Longrightarrow> quantity t = quantity s"
begin

lemma run_conserves: "runE step s cs = Inr t \<Longrightarrow> quantity t = quantity s"
  by (induction cs arbitrary: s) (auto simp: bindE_Inr_iff dest: step_conserves)

end

end
