(* ===== verification/Fixed.thy ===== *)
theory Fixed
  imports Prelude Complex_Main "HOL-Library.Monad_Syntax"
begin

text \<open>
  Finite \<open>decimal.Decimal\<close> values (the type every \<open>ExactDecimal\<close> field holds, \<open>money.py\<close>) and the
  fixed-point arithmetic of \<open>kavrigo_risk/fixed.py\<close>, on which the risk evaluator and the paper
  ledger base every amount: 12 decimal places in an unbounded \<open>int\<close>. \<open>None\<close> is \<open>ValueError\<close>.
\<close>

section \<open>Finite decimals\<close>

text \<open>
  \<open>Dec c e\<close> is the value \<open>c * 10 ^ e\<close>, as \<open>as_tuple\<close> gives it with the sign in the coefficient
  (the sign of a zero is not kept: no code of the model reads it).
\<close>

datatype decimal = Dec (coeff: int) (expo: int)

definition dec_val :: "decimal \<Rightarrow> rat" where
  "dec_val d = of_int (coeff d) * 10 powi expo d"

definition align :: "decimal \<Rightarrow> decimal \<Rightarrow> int" where
  "align a b = min (expo a) (expo b)"

definition scaled :: "int \<Rightarrow> decimal \<Rightarrow> int" where
  "scaled m d = coeff d * 10 ^ nat (expo d - m)"

text \<open>Python compares decimals by value: \<open>Decimal("1.10") == Decimal("1.1")\<close>.\<close>

definition dec_eq :: "decimal \<Rightarrow> decimal \<Rightarrow> bool" where
  "dec_eq a b \<longleftrightarrow> scaled (align a b) a = scaled (align a b) b"

instantiation decimal :: preorder
begin

definition less_eq_decimal :: "decimal \<Rightarrow> decimal \<Rightarrow> bool" where
  "less_eq_decimal a b \<longleftrightarrow> scaled (align a b) a \<le> scaled (align a b) b"

definition less_decimal :: "decimal \<Rightarrow> decimal \<Rightarrow> bool" where
  "less_decimal a b \<longleftrightarrow> scaled (align a b) a < scaled (align a b) b"

lemma dec_val_scaled: "m \<le> expo d \<Longrightarrow> dec_val d = of_int (scaled m d) * 10 powi m"
proof -
  assume m: "m \<le> expo d"
  have "(10::rat) powi expo d = 10 powi (int (nat (expo d - m)) + m)" using m by simp
  also have "\<dots> = 10 ^ nat (expo d - m) * 10 powi m"
    unfolding power_int_of_nat[symmetric] by (rule power_int_add) simp
  finally show ?thesis by (simp add: dec_val_def scaled_def)
qed

lemma dec_le_val: "a \<le> b \<longleftrightarrow> dec_val a \<le> dec_val b"
  by (simp add: less_eq_decimal_def align_def dec_val_scaled[of "min (expo a) (expo b)"])

lemma dec_less_val: "a < b \<longleftrightarrow> dec_val a < dec_val b"
  by (simp add: less_decimal_def align_def dec_val_scaled[of "min (expo a) (expo b)"])

instance
  by standard (auto simp: dec_le_val dec_less_val)

end

lemma dec_eq_val: "dec_eq a b \<longleftrightarrow> dec_val a = dec_val b"
  by (simp add: dec_eq_def align_def dec_val_scaled[of "min (expo a) (expo b)"])

lemma dec_eq_refl [simp]: "dec_eq a a"
  by (simp add: dec_eq_val)

lemma dec_eq_sym: "dec_eq a b \<longleftrightarrow> dec_eq b a"
  by (auto simp: dec_eq_val)

lemma dec_linear: "\<not> (a :: decimal) \<le> b \<longleftrightarrow> b < a"
  by (auto simp: dec_le_val dec_less_val)

definition dec_int :: "int \<Rightarrow> decimal" where
  "dec_int n = Dec n 0"

abbreviation dec_zero :: decimal where
  "dec_zero \<equiv> Dec 0 0"

definition dec_neg :: "decimal \<Rightarrow> decimal" where
  "dec_neg d = Dec (- coeff d) (expo d)"

lemma dec_val_zero [simp]: "dec_val (Dec 0 e) = 0"
  by (simp add: dec_val_def)

lemma ten_powi_pos [simp]: "(0::rat) < 10 powi e" "\<not> (10::rat) powi e < 0"
proof -
  show "(0::rat) < 10 powi e" by (simp add: zero_less_power_int)
  then show "\<not> (10::rat) powi e < 0" by (rule less_not_sym)
qed

lemma dec_zero_less: "dec_zero < Dec c e \<longleftrightarrow> 0 < c"
  by (simp add: dec_less_val dec_val_def zero_less_mult_iff)

lemma dec_less_zero: "Dec c e < dec_zero \<longleftrightarrow> c < 0"
  by (simp add: dec_less_val dec_val_def mult_less_0_iff)

lemma dec_is_zero: "dec_eq (Dec c e) dec_zero \<longleftrightarrow> c = 0"
  by (simp add: dec_eq_val dec_val_def)

section \<open>Digits and exact ratios\<close>

text \<open>\<open>Decimal.adjusted()\<close>: the exponent of the most significant digit.\<close>

function ndigits :: "int \<Rightarrow> int" where
  "ndigits n = (if n < 10 then 1 else 1 + ndigits (n div 10))"
  by pat_completeness auto
termination
  by (relation "measure nat") auto

declare ndigits.simps [simp del]

lemma ndigits_le: "n < 10 ^ k \<Longrightarrow> 0 < k \<Longrightarrow> ndigits n \<le> int k"
proof (induction n arbitrary: k rule: ndigits.induct)
  case (1 n)
  show ?case
  proof (cases "n < 10")
    case True
    then show ?thesis using "1.prems" by (simp add: ndigits.simps[of n])
  next
    case False
    with "1.prems" obtain j where k: "k = Suc j" and j: "0 < j"
      by (cases k; cases "k - 1") auto
    have "n div 10 < 10 ^ j" using "1.prems" k by (simp add: div_less_iff_less_mult mult.commute)
    then have "ndigits (n div 10) \<le> int j" using "1.IH" False j by blast
    then show ?thesis using False k by (simp add: ndigits.simps[of n])
  qed
qed

lemma ndigits_ge: "1 \<le> ndigits n"
proof (induction n rule: ndigits.induct)
  case (1 n)
  then show ?case by (cases "n < 10") (simp_all add: ndigits.simps[of n])
qed

definition adjusted :: "decimal \<Rightarrow> int" where
  "adjusted d = expo d + ndigits \<bar>coeff d\<bar> - 1"

definition as_integer_ratio :: "decimal \<Rightarrow> int \<times> int" where
  "as_integer_ratio d =
     (if coeff d = 0 then (0, 1)
      else if 0 \<le> expo d then (coeff d * 10 ^ nat (expo d), 1)
      else let den = 10 ^ nat (- expo d); g = gcd (coeff d) den in (coeff d div g, den div g))"

lemma as_integer_ratio_pos: "0 < snd (as_integer_ratio d)"
  by (auto simp: as_integer_ratio_def Let_def pos_imp_zdiv_pos_iff intro!: zdvd_imp_le)

lemma as_integer_ratio_val:
  "of_int (fst (as_integer_ratio d)) = dec_val d * of_int (snd (as_integer_ratio d))"
proof (cases "coeff d = 0 \<or> 0 \<le> expo d")
  case True
  then show ?thesis
    by (auto simp: as_integer_ratio_def dec_val_def power_int_def)
next
  case False
  define den where "den = (10::int) ^ nat (- expo d)"
  define g where "g = gcd (coeff d) den"
  have g: "g \<noteq> 0" "g dvd coeff d" "g dvd den" using False by (auto simp: g_def)
  have r: "as_integer_ratio d = (coeff d div g, den div g)"
    using False by (simp add: as_integer_ratio_def Let_def den_def g_def)
  have den: "(10::rat) powi expo d * of_int den = 1"
    using False by (simp add: den_def power_int_def power_one_over)
  have "of_int (coeff d) = dec_val d * (of_int den :: rat)"
    using den by (simp add: dec_val_def mult.assoc)
  then have "of_int (coeff d) / of_int g = dec_val d * ((of_int den :: rat) / of_int g)"
    by simp
  then show ?thesis using g r by (simp add: of_int_div)
qed

section \<open>fixed.py\<close>

definition SCALE :: int where
  "SCALE = 10 ^ 12"

definition MAX_UNITS :: int where
  "MAX_UNITS = 10 ^ 30"

definition BPS_DENOMINATOR :: int where
  "BPS_DENOMINATOR = 10000 * SCALE"

definition units :: "decimal \<Rightarrow> int option" where
  "units value =
     (if 40 < \<bar>adjusted value\<bar> then None
      else let (numerator, denominator) = as_integer_ratio value;
               result = numerator * SCALE div denominator;
               remainder = numerator * SCALE mod denominator
           in if remainder \<noteq> 0 \<or> MAX_UNITS < \<bar>result\<bar> then None else Some result)"

text \<open>\<open>Decimal(f"{sign}{whole}.{fraction:012d}")\<close>: the digits of \<open>value\<close> with exponent -12.\<close>

definition decimal_of :: "int \<Rightarrow> decimal" where
  "decimal_of value = Dec value (-12)"

definition ceil_div :: "int \<Rightarrow> int \<Rightarrow> int" where
  "ceil_div numerator denominator = - ((- numerator) div denominator)"

definition product :: "int \<Rightarrow> int \<Rightarrow> int option" where
  "product left right =
     (let result = left * right div SCALE; remainder = left * right mod SCALE
      in if remainder \<noteq> 0 \<or> MAX_UNITS < \<bar>result\<bar> then None else Some result)"

lemma SCALE_pos [simp]: "0 < SCALE" "0 \<le> SCALE" "SCALE \<noteq> 0"
  by (simp_all add: SCALE_def)

lemma BPS_DENOMINATOR_pos [simp]: "0 < BPS_DENOMINATOR"
  by (simp add: BPS_DENOMINATOR_def SCALE_def)

lemma MAX_UNITS_pos [simp]: "0 < MAX_UNITS" "0 \<le> MAX_UNITS" "\<not> MAX_UNITS < 0"
  by (simp_all add: MAX_UNITS_def)

text \<open>What \<open>units\<close> returns is exactly the value at 12 places, in range.\<close>

lemma units_value:
  assumes "units d = Some u"
  shows "of_int u = dec_val d * of_int SCALE" "\<bar>u\<bar> \<le> MAX_UNITS"
proof -
  obtain n q where r: "as_integer_ratio d = (n, q)" by (cases "as_integer_ratio d")
  have q: "0 < q" "of_int n = dec_val d * of_int q"
    using as_integer_ratio_pos[of d] as_integer_ratio_val[of d] r by simp_all
  have u: "u = n * SCALE div q" "n * SCALE mod q = 0" "\<bar>u\<bar> \<le> MAX_UNITS"
    using assms r by (auto simp: units_def Let_def split: if_splits)
  show "\<bar>u\<bar> \<le> MAX_UNITS" by (rule u(3))
  have "n * SCALE = q * u" using u(1,2) by (metis mult_div_mod_eq add.right_neutral)
  then have "(of_int n :: rat) * of_int SCALE = of_int q * of_int u"
    by (metis of_int_mult)
  then show "of_int u = dec_val d * of_int SCALE" using q by simp
qed

lemma units_less: "units a = Some x \<Longrightarrow> units b = Some y \<Longrightarrow> a < b \<longleftrightarrow> x < y"
  using units_value(1)[of a x] units_value(1)[of b y] SCALE_pos
  by (metis dec_less_val mult_less_cancel_right_pos of_int_0_less_iff of_int_less_iff)

lemma units_le: "units a = Some x \<Longrightarrow> units b = Some y \<Longrightarrow> a \<le> b \<longleftrightarrow> x \<le> y"
  using units_less[of b y a x] dec_linear[of a b] by auto

lemma units_eq: "units a = Some x \<Longrightarrow> units b = Some y \<Longrightarrow> dec_eq a b \<longleftrightarrow> x = y"
  using units_value(1)[of a x] units_value(1)[of b y] SCALE_pos
  by (metis dec_eq_val mult_cancel_right of_int_eq_0_iff of_int_eq_iff order_less_irrefl)

lemma units_sign:
  assumes "units d = Some u"
  shows "dec_zero < d \<longleftrightarrow> 0 < u" "d < dec_zero \<longleftrightarrow> u < 0" "dec_zero \<le> d \<longleftrightarrow> 0 \<le> u"
proof -
  have "units dec_zero = Some 0" by (simp add: units_def adjusted_def as_integer_ratio_def ndigits.simps)
  then show "dec_zero < d \<longleftrightarrow> 0 < u" "d < dec_zero \<longleftrightarrow> u < 0" "dec_zero \<le> d \<longleftrightarrow> 0 \<le> u"
    using units_less units_le assms by blast+
qed

lemma decimal_of_val: "dec_val (decimal_of v) * of_int SCALE = of_int v"
  by (simp add: decimal_of_def dec_val_def SCALE_def power_int_def power_one_over)

text \<open>Fixed-point values survive the trip through a domain contract.\<close>

lemma units_decimal_of: "units (decimal_of v) = (if \<bar>v\<bar> \<le> MAX_UNITS then Some v else None)"
proof -
  obtain n q where r: "as_integer_ratio (decimal_of v) = (n, q)" by (cases "as_integer_ratio (decimal_of v)")
  have q: "0 < q" "(of_int n :: rat) = dec_val (decimal_of v) * of_int q"
    using as_integer_ratio_pos[of "decimal_of v"] as_integer_ratio_val[of "decimal_of v"] r by simp_all
  have "(of_int (n * SCALE) :: rat) = of_int (v * q)"
    using q decimal_of_val[of v] by (metis mult.assoc mult.commute of_int_mult)
  then have nq: "n * SCALE = v * q" by (simp only: of_int_eq_iff)
  have small: "\<bar>v\<bar> \<le> MAX_UNITS \<Longrightarrow> \<bar>adjusted (decimal_of v)\<bar> \<le> 40"
  proof -
    assume "\<bar>v\<bar> \<le> MAX_UNITS"
    then have "\<bar>v\<bar> < 10 ^ 31" by (simp add: MAX_UNITS_def)
    then have "ndigits \<bar>v\<bar> \<le> int 31" by (rule ndigits_le) simp
    then show ?thesis using ndigits_ge[of "\<bar>v\<bar>"] by (simp add: adjusted_def decimal_of_def)
  qed
  show ?thesis using small r nq q(1) by (auto simp: units_def)
qed

lemma units_dec_int: "\<bar>n * SCALE\<bar> \<le> MAX_UNITS \<Longrightarrow> units (dec_int n) = Some (n * SCALE)"
proof -
  assume n: "\<bar>n * SCALE\<bar> \<le> MAX_UNITS"
  then have "\<bar>n\<bar> < 10 ^ 19" by (simp add: MAX_UNITS_def SCALE_def)
  then have "ndigits \<bar>n\<bar> \<le> int 19" by (rule ndigits_le) simp
  then show ?thesis using n ndigits_ge[of "\<bar>n\<bar>"]
    by (simp add: units_def adjusted_def dec_int_def as_integer_ratio_def)
qed

subsection \<open>Ceiling division\<close>

lemma ceil_div_bounds:
  assumes "0 < d"
  shows "n \<le> ceil_div n d * d" "ceil_div n d * d < n + d"
proof -
  have "- n = (- n) div d * d + (- n) mod d" by (simp only: div_mult_mod_eq)
  moreover have "0 \<le> (- n) mod d" "(- n) mod d < d" using assms by simp_all
  ultimately show "n \<le> ceil_div n d * d" "ceil_div n d * d < n + d"
    unfolding ceil_div_def minus_mult_left[symmetric] by linarith+
qed

lemma ceil_div_le_iff:
  assumes d: "0 < d"
  shows "ceil_div n d \<le> k \<longleftrightarrow> n \<le> k * d"
proof
  assume "ceil_div n d \<le> k"
  then have "ceil_div n d * d \<le> k * d" using d by (simp add: mult_right_mono)
  then show "n \<le> k * d" using ceil_div_bounds(1)[OF d, of n] by linarith
next
  assume "n \<le> k * d"
  then have "ceil_div n d * d < (k + 1) * d"
    using ceil_div_bounds(2)[OF d, of n] by (simp add: distrib_right)
  then show "ceil_div n d \<le> k" using d by (simp add: mult_less_cancel_right)
qed

lemma ceil_div_mono: "0 < d \<Longrightarrow> n \<le> m \<Longrightarrow> ceil_div n d \<le> ceil_div m d"
  by (simp add: ceil_div_def zdiv_mono1)

lemma ceil_div_nonneg: "0 < d \<Longrightarrow> 0 \<le> n \<Longrightarrow> 0 \<le> ceil_div n d"
  by (simp add: ceil_div_def div_nonpos_pos_le0)

lemma ceil_div_0 [simp]: "ceil_div 0 d = 0"
  by (simp add: ceil_div_def)

lemma ceil_div_pos: "0 < d \<Longrightarrow> 0 < n \<Longrightarrow> 0 < ceil_div n d"
  using ceil_div_le_iff[of d n 0] by auto

lemma product_Some: "product l r = Some p \<longleftrightarrow> l * r = p * SCALE \<and> \<bar>p\<bar> \<le> MAX_UNITS"
proof
  assume "product l r = Some p"
  then have "p = l * r div SCALE" "l * r mod SCALE = 0" "\<bar>p\<bar> \<le> MAX_UNITS"
    by (auto simp: product_def Let_def split: if_splits)
  then show "l * r = p * SCALE \<and> \<bar>p\<bar> \<le> MAX_UNITS"
    using mult_div_mod_eq[of SCALE "l * r"] by (simp add: mult.commute)
next
  assume "l * r = p * SCALE \<and> \<bar>p\<bar> \<le> MAX_UNITS"
  then show "product l r = Some p" by (simp add: product_def)
qed

end
