(* ===== verification/DomainTypes.thy ===== *)
theory DomainTypes
  imports Fixed
begin

text \<open>
  Identifiers, units and market observations of \<open>kavrigo_domain\<close> (\<open>identifiers.py\<close>, \<open>money.py\<close>,
  \<open>market.py\<close>). A Pydantic model is a record; its \<open>model_validator\<close> is a function that names the
  first check that fails (\<open>None\<close>: the object is constructible). Field constraints of the shape
  \<open>ge\<close>, \<open>gt\<close>, \<open>pattern\<close> are entries of the same ladder, before the validator's own checks.
  Fields that no modelled code reads (free text, provenance, hashes of other systems) are left out.
\<close>

datatype (plugins only: code size) domain_error =
    BadPattern | OutOfRange | BaseEqualsQuote | InvalidInstrumentId | UnknownInstrumentClass
  | PriceNotPositive | AssetMismatch | CurrencyMismatch | LiveGated | NotSpot
  | NotionalNotPositive | LimitNeedsPrice | MarketCarriesPrice | NotAfterCreation
  | QuantityNotPositive | NegativeFee | NegativeQuantity | FilledWithoutQuantity
  | RejectedWithFills | FillSumMismatch | ForeignFill | SingleAboveGross | MinAboveMax
  | NegativeLimit | ApprovesMoreThanRequested | NegativeApproval | RejectedNonZero
  | RejectedCarriesApproved | ApprovedZero | ResizedNotSmaller | ApprovedNotFull
  | NegativeReserve | ReserveExceedsCash | NegativeExposure | PeakBelowEquity
  | DuplicateInstrument | CrossedBook | NegativeSize | CreatedBeforeAsOf | FeatureOutsideUniverse
  | NegativeAge | BadTimes | AbstentionDisabled | PortfolioLayerDisabled | NewsNeedsTimestamps
  | TradeWithoutNotional | AbstentionWithNotional | UnknownStateTrades | EvidenceOverlap
  | OverconfidentPrediction | MayOnlyReduce | HashMismatch | ReferenceMismatch | DuplicatePolicy
  | MissingScope | WorkspaceMismatch | MissingFamilies | MissingFreshness | MissingNetwork
  | EmptyWindow | UnorderedLevels | BadPayload | UnsupportedPrecision | NegativeSequence | LowAboveHigh
  | OutsideRange | NegativeVolume | TakerAboveVolume | MixedDecisionTimes | DuplicateFeature | TakerBelowMaker
  | NegativeParticipation | ShortCurve | ZeroStart | WinsAboveTrades

section \<open>identifiers.py\<close>

datatype instrument_class = Spot | Perpetual | Future | OptionContract | Index

definition is_executable_in_v1 :: "instrument_class \<Rightarrow> bool" where
  "is_executable_in_v1 c \<longleftrightarrow> c = Spot"

record instrument_id =
  i_base :: string
  i_quote :: string
  i_venue :: string
  i_class :: instrument_class

definition asset_char :: "char \<Rightarrow> bool" where
  "asset_char c \<longleftrightarrow> (CHR ''A'' \<le> c \<and> c \<le> CHR ''Z'') \<or> (CHR ''0'' \<le> c \<and> c \<le> CHR ''9'')"

definition venue_char :: "char \<Rightarrow> bool" where
  "venue_char c \<longleftrightarrow> asset_char c \<or> c = CHR ''_''"

definition class_char :: "char \<Rightarrow> bool" where
  "class_char c \<longleftrightarrow> CHR ''a'' \<le> c \<and> c \<le> CHR ''z''"

text \<open>\<open>[A-Z0-9]{2,16}\<close> and \<open>[A-Z0-9_]{2,32}\<close>.\<close>

definition asset_ok :: "string \<Rightarrow> bool" where
  "asset_ok s \<longleftrightarrow> 2 \<le> length s \<and> length s \<le> 16 \<and> list_all asset_char s"

definition venue_ok :: "string \<Rightarrow> bool" where
  "venue_ok s \<longleftrightarrow> 2 \<le> length s \<and> length s \<le> 32 \<and> list_all venue_char s"

definition instrument_error :: "instrument_id \<Rightarrow> domain_error option" where
  "instrument_error i = first_error
     [(\<not> asset_ok (i_base i), BadPattern), (\<not> asset_ok (i_quote i), BadPattern),
      (\<not> venue_ok (i_venue i), BadPattern), (i_base i = i_quote i, BaseEqualsQuote)]"

fun class_value :: "instrument_class \<Rightarrow> string" where
  "class_value Spot = ''spot''"
| "class_value Perpetual = ''perpetual''"
| "class_value Future = ''future''"
| "class_value OptionContract = ''option''"
| "class_value Index = ''index''"

text \<open>\<open>InstrumentId.value\<close>: the canonical string, used as a dictionary key everywhere.\<close>

definition i_value :: "instrument_id \<Rightarrow> string" where
  "i_value i = i_base i @ ''-'' @ i_quote i @ ''.'' @ i_venue i @
     (if i_class i = Spot then '''' else '':'' @ class_value (i_class i))"

text \<open>\<open>InstrumentClass(raw)\<close>.\<close>

definition class_of_value :: "string \<Rightarrow> instrument_class option" where
  "class_of_value s =
     map_of [(''spot'', Spot), (''perpetual'', Perpetual), (''future'', Future),
             (''option'', OptionContract), (''index'', Index)] s"

text \<open>\<open>str.strip()\<close> on the code points a \<open>char\<close> can hold.\<close>

definition is_space :: "char \<Rightarrow> bool" where
  "is_space c \<longleftrightarrow> (let n = of_char c :: nat in (9 \<le> n \<and> n \<le> 13) \<or> (28 \<le> n \<and> n \<le> 32) \<or> n = 133 \<or> n = 160)"

definition strip :: "string \<Rightarrow> string" where
  "strip s = rev (dropWhile is_space (rev (dropWhile is_space s)))"

text \<open>
  The regular expression's groups are separated by characters that no group contains, so the
  match is the greedy left-to-right one.
\<close>

definition match_canonical :: "string \<Rightarrow> (string \<times> string \<times> string \<times> string option) option" where
  "match_canonical s =
     (let b = takeWhile asset_char s; s1 = dropWhile asset_char s in
      case s1 of [] \<Rightarrow> None | c1 # t1 \<Rightarrow>
      if c1 \<noteq> CHR ''-'' \<or> \<not> asset_ok b then None else
      let q = takeWhile asset_char t1; s2 = dropWhile asset_char t1 in
      case s2 of [] \<Rightarrow> None | c2 # t2 \<Rightarrow>
      if c2 \<noteq> CHR ''.'' \<or> \<not> asset_ok q then None else
      let v = takeWhile venue_char t2; s3 = dropWhile venue_char t2 in
      if \<not> venue_ok v then None else
      case s3 of [] \<Rightarrow> Some (b, q, v, None) | c3 # t3 \<Rightarrow>
      if c3 = CHR '':'' \<and> t3 \<noteq> [] \<and> list_all class_char t3 then Some (b, q, v, Some t3) else None)"

definition instrument_parse :: "string \<Rightarrow> domain_error + instrument_id" where
  "instrument_parse value =
     (case match_canonical (strip value) of
        None \<Rightarrow> Inl InvalidInstrumentId
      | Some (b, q, v, raw) \<Rightarrow>
          bindE (case raw of None \<Rightarrow> Inr Spot | Some r \<Rightarrow> of_option UnknownInstrumentClass (class_of_value r))
            (\<lambda>c. let i = \<lparr>i_base = b, i_quote = q, i_venue = v, i_class = c\<rparr>
                 in case instrument_error i of Some e \<Rightarrow> Inl e | None \<Rightarrow> Inr i))"

subsection \<open>The canonical form is a faithful key\<close>

lemma not_asset_char [simp]:
  "\<not> asset_char (CHR ''-'')" "\<not> asset_char (CHR ''.'')" "\<not> venue_char (CHR '':'')"
  by (simp_all add: asset_char_def venue_char_def less_eq_char_def)

lemma asset_char_not_space: "asset_char c \<Longrightarrow> \<not> is_space c"
  by (auto simp: asset_char_def is_space_def less_eq_char_def Let_def)

lemma venue_char_not_space: "venue_char c \<Longrightarrow> \<not> is_space c"
  by (auto simp: venue_char_def asset_char_not_space) (simp add: is_space_def)

lemma class_value_chars: "list_all class_char (class_value c)" "class_value c \<noteq> []"
    "\<not> is_space (last (class_value c))"
  by (cases c; simp add: class_char_def less_eq_char_def is_space_def)+

lemma class_of_class_value [simp]: "class_of_value (class_value c) = Some c"
  by (cases c) (simp_all add: class_of_value_def)

lemma strip_id: "s \<noteq> [] \<Longrightarrow> \<not> is_space (hd s) \<Longrightarrow> \<not> is_space (last s) \<Longrightarrow> strip s = s"
  by (simp add: strip_def dropWhile_eq_self_iff[THEN iffD2] hd_rev)

lemma takeWhile_run: "list_all P xs \<Longrightarrow> \<not> P c \<Longrightarrow> takeWhile P (xs @ c # ys) = xs"
  by (induction xs) auto

lemma dropWhile_run: "list_all P xs \<Longrightarrow> \<not> P c \<Longrightarrow> dropWhile P (xs @ c # ys) = c # ys"
  by (induction xs) auto

lemma takeWhile_all: "list_all P xs \<Longrightarrow> takeWhile P xs = xs"
  by (induction xs) auto

lemma dropWhile_all: "list_all P xs \<Longrightarrow> dropWhile P xs = []"
  by (induction xs) auto

lemma match_canonical_value:
  assumes "instrument_error i = None"
  shows "match_canonical (i_value i) =
    Some (i_base i, i_quote i, i_venue i, if i_class i = Spot then None else Some (class_value (i_class i)))"
proof -
  have ok: "asset_ok (i_base i)" "asset_ok (i_quote i)" "venue_ok (i_venue i)"
    using assms by (auto simp: instrument_error_def split: if_splits)
  then have chars: "list_all asset_char (i_base i)" "list_all asset_char (i_quote i)" "list_all venue_char (i_venue i)"
    by (auto simp: asset_ok_def venue_ok_def)
  show ?thesis
    using chars ok class_value_chars[of "i_class i"]
    by (simp add: match_canonical_def i_value_def takeWhile_run dropWhile_run takeWhile_all dropWhile_all Let_def)
qed

lemma strip_value:
  assumes "instrument_error i = None"
  shows "strip (i_value i) = i_value i"
proof (rule strip_id)
  have ok: "asset_ok (i_base i)" "venue_ok (i_venue i)"
    using assms by (auto simp: instrument_error_def split: if_splits)
  then obtain c cs where b: "i_base i = c # cs" "asset_char c"
    by (cases "i_base i") (auto simp: asset_ok_def)
  from ok obtain v vs where v: "i_venue i = vs @ [v]" "venue_char v"
    by (cases "i_venue i" rule: rev_cases) (auto simp: venue_ok_def)
  show "i_value i \<noteq> []" "\<not> is_space (hd (i_value i))"
    using b by (simp_all add: i_value_def asset_char_not_space)
  show "\<not> is_space (last (i_value i))"
    using v class_value_chars[of "i_class i"] by (simp add: i_value_def venue_char_not_space)
qed

text \<open>
  The round trip, and with it that two instruments with the same dictionary key are the same
  instrument. (Used by the components below; the round trip itself is stated as a property.)
\<close>

lemma parse_value_lemma: "instrument_error i = None \<Longrightarrow> instrument_parse (i_value i) = Inr i"
  by (cases i) (auto simp: instrument_parse_def strip_value match_canonical_value Let_def)

lemma i_value_inject:
  "instrument_error i = None \<Longrightarrow> instrument_error j = None \<Longrightarrow> i_value i = i_value j \<longleftrightarrow> i = j"
  by (metis parse_value_lemma sum.inject(2))

section \<open>money.py\<close>

record money =
  m_amount :: decimal
  m_currency :: string

record quantity =
  q_value :: decimal
  q_asset :: string

record price =
  p_value :: decimal
  p_base :: string
  p_quote :: string

text \<open>\<open>_exact_decimal\<close>: what a value of a Pydantic field may be before validation.\<close>

datatype py_value =
    PyBool bool | PyFloat | PyInt int | PyStr string
  | PyDecimal decimal | PyNaN | PyInfinity | PyOther

text \<open>\<open>dec_of_str\<close> stands for the constructor \<open>Decimal(str)\<close>; \<open>None\<close> is \<open>InvalidOperation\<close>.\<close>

definition exact_decimal :: "(string \<Rightarrow> py_value option) \<Rightarrow> py_value \<Rightarrow> domain_error + py_value" where
  "exact_decimal dec_of_str value =
     (let check = (\<lambda>v. case v of PyNaN \<Rightarrow> Inl OutOfRange | PyInfinity \<Rightarrow> Inl OutOfRange | _ \<Rightarrow> Inr v)
      in case value of
           PyBool b \<Rightarrow> Inl BadPattern
         | PyFloat \<Rightarrow> Inl BadPattern
         | PyInt n \<Rightarrow> Inr (PyDecimal (dec_int n))
         | PyStr s \<Rightarrow> (case dec_of_str s of None \<Rightarrow> Inl BadPattern | Some v \<Rightarrow> check v)
         | v \<Rightarrow> check v)"

text \<open>Money compares by value, as Pydantic models of decimals do.\<close>

definition money_eq :: "money \<Rightarrow> money \<Rightarrow> bool" where
  "money_eq a b \<longleftrightarrow> dec_eq (m_amount a) (m_amount b) \<and> m_currency a = m_currency b"

definition is_zero :: "decimal \<Rightarrow> bool" where
  "is_zero d \<longleftrightarrow> dec_eq d dec_zero"

definition is_negative :: "decimal \<Rightarrow> bool" where
  "is_negative d \<longleftrightarrow> d < dec_zero"

definition price_error :: "price \<Rightarrow> domain_error option" where
  "price_error p = first_error
     [(p_value p \<le> dec_zero, PriceNotPositive), (p_base p = p_quote p, BaseEqualsQuote)]"

lemma money_eq_refl [simp]: "money_eq m m"
  by (simp add: money_eq_def)

lemma units_is_zero: "units d = Some u \<Longrightarrow> is_zero d \<longleftrightarrow> u = 0"
  using units_sign[of d u] dec_linear[of dec_zero d]
  by (auto simp: is_zero_def dec_eq_val dec_less_val)

lemma units_is_negative: "units d = Some u \<Longrightarrow> is_negative d \<longleftrightarrow> u < 0"
  by (simp add: is_negative_def units_sign)

lemma is_zero_decimal_of [simp]: "is_zero (decimal_of v) \<longleftrightarrow> v = 0"
  by (simp add: is_zero_def decimal_of_def dec_is_zero)

lemma is_negative_decimal_of [simp]: "is_negative (decimal_of v) \<longleftrightarrow> v < 0"
  by (simp add: is_negative_def decimal_of_def dec_less_zero)

lemma decimal_of_le [simp]: "decimal_of a \<le> decimal_of b \<longleftrightarrow> a \<le> b"
  by (simp add: less_eq_decimal_def align_def scaled_def decimal_of_def)

lemma decimal_of_less [simp]: "decimal_of a < decimal_of b \<longleftrightarrow> a < b"
  by (simp add: less_decimal_def align_def scaled_def decimal_of_def)

section \<open>market.py: BookTicker\<close>

record book_ticker =
  bt_instrument_id :: instrument_id
  bt_bid_price :: price
  bt_bid_size :: quantity
  bt_ask_price :: price
  bt_ask_size :: quantity
  bt_venue_time :: "datetime option"
  bt_received_at :: datetime
  bt_sequence :: "int option"

text \<open>The bound \<open>ge=0\<close> of an optional integer.\<close>

fun below_zero :: "int option \<Rightarrow> bool" where
  "below_zero None = False"
| "below_zero (Some n) = (n < 0)"

definition book_ticker_error :: "book_ticker \<Rightarrow> domain_error option" where
  "book_ticker_error b =
     (let i = bt_instrument_id b; expected = (i_base i, i_quote i) in first_error
       [(below_zero (bt_sequence b), NegativeSequence),
        (price_error (bt_bid_price b) \<noteq> None, PriceNotPositive),
        (price_error (bt_ask_price b) \<noteq> None, PriceNotPositive),
        (p_value (bt_ask_price b) \<le> p_value (bt_bid_price b), CrossedBook),
        ((p_base (bt_bid_price b), p_quote (bt_bid_price b)) \<noteq> expected, AssetMismatch),
        ((p_base (bt_ask_price b), p_quote (bt_ask_price b)) \<noteq> expected, AssetMismatch),
        (q_asset (bt_bid_size b) \<noteq> i_base i, AssetMismatch),
        (is_negative (q_value (bt_bid_size b)), NegativeSize),
        (q_asset (bt_ask_size b) \<noteq> i_base i, AssetMismatch),
        (is_negative (q_value (bt_ask_size b)), NegativeSize)])"

end
