(* ===== verification/DomainProperties.thy ===== *)
theory DomainProperties
  imports DomainTypes
begin

text \<open>Round trips of the domain values: instrument keys and fixed-point amounts.\<close>

text \<open>
  C40. The canonical key of an instrument identifies it: parsing the key of an instrument that passes
  validation returns that instrument, and whatever \<open>parse\<close> accepts is a valid instrument whose key it accepts again.
\<close>

theorem instrument_key_round_trip:
  assumes "instrument_error i = None" "instrument_parse text = Inr j"
  shows "instrument_parse (i_value i) = Inr i \<and> instrument_error j = None \<and> instrument_parse (i_value j) = Inr j \<and>
    (i_value i = i_value j \<longrightarrow> i = j)"
proof -
  have "instrument_error j = None"
    using assms(2)
    by (auto simp: instrument_parse_def Let_def of_option_def elim!: bindE_InrE split: option.splits)
  then show ?thesis using parse_value_lemma assms(1) i_value_inject by blast
qed

theorem instrument_key_round_trip_witness:
  "instrument_parse ''BTC-USD.COINBASE:perpetual'' =
     Inr \<lparr>i_base = ''BTC'', i_quote = ''USD'', i_venue = ''COINBASE'', i_class = Perpetual\<rparr>"
proof -
  let ?i = "\<lparr>i_base = ''BTC'', i_quote = ''USD'', i_venue = ''COINBASE'', i_class = Perpetual\<rparr>"
  have "instrument_error ?i = None" "instrument_parse ''  BTC-USD.COINBASE '' =
      Inr \<lparr>i_base = ''BTC'', i_quote = ''USD'', i_venue = ''COINBASE'', i_class = Spot\<rparr>" by code_simp+
  from instrument_key_round_trip[OF this] show ?thesis by (simp add: i_value_def)
qed

text \<open>
  Fixed-point conversion loses nothing: a decimal that \<open>units\<close> accepts and the decimal that \<open>decimal\<close>
  makes of its units are equal, every amount of units within the bound converts back, and the order of two
  amounts is the order of their units.
\<close>

theorem fixed_point_round_trip:
  assumes "units a = Some u" "units b = Some v" "\<bar>w\<bar> \<le> MAX_UNITS"
  shows "dec_eq (decimal_of u) a \<and> units (decimal_of w) = Some w \<and> (a < b \<longleftrightarrow> u < v) \<and> (dec_eq a b \<longleftrightarrow> u = v)"
proof -
  have "units (decimal_of u) = Some u" using units_value(2)[OF assms(1)] by (simp add: units_decimal_of)
  then show ?thesis
    using units_eq[OF _ assms(1)] units_eq[OF assms(1,2)] units_less[OF assms(1,2)] assms(3) by (simp add: units_decimal_of)
qed

end
