(* ===== verification/DomainOrders.thy ===== *)
theory DomainOrders
  imports DomainTypes
begin

text \<open>
  \<open>kavrigo_domain/orders.py\<close> and \<open>portfolio.py\<close>: intents, approvals, fills, orders, positions and
  portfolio snapshots with their validators. \<open>TradingMode\<close> is from \<open>agent.py\<close>.
\<close>

section \<open>Enumerations\<close>

datatype trading_mode = Research | Backtest | Paper | Live

datatype order_side = Buy | Sell

datatype order_type = MarketOrder | LimitOrder

datatype time_in_force = GTC | IOC | FOK | DAY

datatype order_status =
    PendingSubmit | Submitted | Accepted | PartiallyFilled | Filled
  | Cancelled | Rejected | Expired | UnknownStatus

fun is_terminal :: "order_status \<Rightarrow> bool" where
  "is_terminal s = (s \<in> {Filled, Cancelled, Rejected, Expired})"

fun is_open :: "order_status \<Rightarrow> bool" where
  "is_open s = (s \<in> {PendingSubmit, Submitted, Accepted, PartiallyFilled})"

datatype liquidity_flag = Maker | Taker | UnknownLiquidity

text \<open>Every status is open, terminal or unknown, and never two of these.\<close>

lemma status_partition:
  "is_open s \<longleftrightarrow> \<not> is_terminal s \<and> s \<noteq> UnknownStatus"
  by (cases s) simp_all

section \<open>OrderIntent and ApprovedOrderIntent\<close>

record order_intent =
  oi_order_intent_id :: string
  oi_decision_id :: string
  oi_workspace_id :: string
  oi_agent_version_id :: string
  oi_instrument_id :: instrument_id
  oi_mode :: trading_mode
  oi_side :: order_side
  oi_order_type :: order_type
  oi_notional :: money
  oi_limit_price :: "price option"
  oi_time_in_force :: time_in_force
  oi_idempotency_key :: string
  oi_created_at :: datetime
  oi_expires_at :: datetime

definition order_intent_error :: "order_intent \<Rightarrow> domain_error option" where
  "order_intent_error i = first_error
     [(instrument_error (oi_instrument_id i) \<noteq> None, BadPattern),
      (length (oi_idempotency_key i) < 8 \<or> 128 < length (oi_idempotency_key i), OutOfRange),
      (oi_mode i = Live, LiveGated),
      (i_class (oi_instrument_id i) \<noteq> Spot, NotSpot),
      (is_negative (m_amount (oi_notional i)) \<or> is_zero (m_amount (oi_notional i)), NotionalNotPositive),
      (oi_order_type i = LimitOrder \<and> oi_limit_price i = None, LimitNeedsPrice),
      (oi_order_type i = MarketOrder \<and> oi_limit_price i \<noteq> None, MarketCarriesPrice),
      (case oi_limit_price i of None \<Rightarrow> False
       | Some p \<Rightarrow> (p_base p, p_quote p) \<noteq> (i_base (oi_instrument_id i), i_quote (oi_instrument_id i)), AssetMismatch),
      (m_currency (oi_notional i) \<noteq> i_quote (oi_instrument_id i), CurrencyMismatch),
      (oi_expires_at i \<le> oi_created_at i, NotAfterCreation)]"

definition is_expired_at :: "order_intent \<Rightarrow> datetime \<Rightarrow> bool" where
  "is_expired_at i now \<longleftrightarrow> oi_expires_at i \<le> now"

record approved_order_intent =
  ao_order_intent_id :: string
  ao_risk_evaluation_id :: string
  ao_workspace_id :: string
  ao_instrument_id :: instrument_id
  ao_mode :: trading_mode
  ao_side :: order_side
  ao_order_type :: order_type
  ao_approved_notional :: money
  ao_limit_price :: "price option"
  ao_time_in_force :: time_in_force
  ao_client_order_id :: string
  ao_fencing_token :: int
  ao_approved_at :: datetime
  ao_expires_at :: datetime

definition approved_intent_error :: "approved_order_intent \<Rightarrow> domain_error option" where
  "approved_intent_error a = first_error
     [(ao_fencing_token a < 1, OutOfRange),
      (ao_mode a = Live, LiveGated),
      (is_zero (m_amount (ao_approved_notional a)) \<or> is_negative (m_amount (ao_approved_notional a)), NotionalNotPositive),
      (ao_expires_at a \<le> ao_approved_at a, NotAfterCreation)]"

section \<open>Fill and Order\<close>

record fill =
  f_fill_id :: string
  f_order_id :: string
  f_workspace_id :: string
  f_instrument_id :: instrument_id
  f_side :: order_side
  f_quantity :: quantity
  f_price :: price
  f_fee :: money
  f_liquidity :: liquidity_flag
  f_venue_fill_id :: "string option"
  f_venue_timestamp :: datetime
  f_recorded_at :: datetime
  f_sequence :: "int option"

definition fill_error :: "fill \<Rightarrow> domain_error option" where
  "fill_error f = first_error
     [(price_error (f_price f) \<noteq> None, PriceNotPositive),
      (case f_venue_fill_id f of None \<Rightarrow> False | Some s \<Rightarrow> 128 < length s, OutOfRange),
      (case f_sequence f of None \<Rightarrow> False | Some n \<Rightarrow> n < 0, OutOfRange),
      (q_value (f_quantity f) \<le> dec_zero, QuantityNotPositive),
      (q_asset (f_quantity f) \<noteq> i_base (f_instrument_id f), AssetMismatch),
      ((p_base (f_price f), p_quote (f_price f)) \<noteq> (i_base (f_instrument_id f), i_quote (f_instrument_id f)), AssetMismatch),
      (is_negative (m_amount (f_fee f)), NegativeFee)]"

record order =
  o_order_id :: string
  o_client_order_id :: string
  o_order_intent_id :: string
  o_workspace_id :: string
  o_instrument_id :: instrument_id
  o_mode :: trading_mode
  o_side :: order_side
  o_order_type :: order_type
  o_status :: order_status
  o_requested_notional :: money
  o_filled_quantity :: quantity
  o_average_fill_price :: "price option"
  o_fees_paid :: money
  o_fills :: "fill list"
  o_submitted_at :: "datetime option"
  o_last_updated_at :: datetime
  o_reject_reason :: "string option"
  o_reconciled_at :: "datetime option"

text \<open>
  The sum of the fills is \<open>Decimal\<close> addition. It is exact here: \<open>ledger.py\<close> validates orders in a
  context of 80 digits, and an exact sum is one decimal with the smaller exponent.
\<close>

definition dec_add :: "decimal \<Rightarrow> decimal \<Rightarrow> decimal" where
  "dec_add a b = Dec (scaled (align a b) a + scaled (align a b) b) (align a b)"

definition dec_sum :: "decimal list \<Rightarrow> decimal" where
  "dec_sum ds = foldl dec_add dec_zero ds"

definition order_error :: "order \<Rightarrow> domain_error option" where
  "order_error o' = first_error
     [(o_mode o' = Live, LiveGated),
      (is_negative (q_value (o_filled_quantity o')), NegativeQuantity),
      (q_asset (o_filled_quantity o') \<noteq> i_base (o_instrument_id o'), AssetMismatch),
      (o_status o' = Filled \<and> is_zero (q_value (o_filled_quantity o')), FilledWithoutQuantity),
      (o_status o' = Rejected \<and> \<not> is_zero (q_value (o_filled_quantity o')), RejectedWithFills),
      (1000 < length (o_fills o'), OutOfRange),
      (o_fills o' \<noteq> [] \<and>
         \<not> dec_eq (dec_sum (map (\<lambda>f. q_value (f_quantity f)) (o_fills o'))) (q_value (o_filled_quantity o')), FillSumMismatch),
      (list_ex (\<lambda>f. f_order_id f \<noteq> o_order_id o') (o_fills o'), ForeignFill)]"

lemma dec_val_add: "dec_val (dec_add a b) = dec_val a + dec_val b"
proof -
  have "dec_val a = of_int (scaled (align a b) a) * 10 powi align a b"
    "dec_val b = of_int (scaled (align a b) b) * 10 powi align a b"
    by (rule dec_val_scaled; simp add: align_def)+
  then show ?thesis by (simp add: dec_val_def dec_add_def distrib_right)
qed

lemma dec_val_sum: "dec_val (dec_sum ds) = sum_list (map dec_val ds)"
proof -
  have "dec_val (foldl dec_add d ds) = dec_val d + sum_list (map dec_val ds)" for d
    by (induction ds arbitrary: d) (simp_all add: dec_val_add)
  then show ?thesis by (simp add: dec_sum_def)
qed

lemma dec_val_decimal_of: "dec_val (decimal_of v) = of_int v / of_int SCALE"
  using decimal_of_val[of v] by (simp add: field_simps)

lemma dec_sum_decimal_of: "dec_eq (dec_sum (map decimal_of vs)) (decimal_of v) \<longleftrightarrow> sum_list vs = v"
proof -
  have "sum_list (map (\<lambda>x. (of_int x :: rat) / of_int SCALE) vs) = of_int (sum_list vs) / of_int SCALE"
    by (induction vs) (simp_all add: add_divide_distrib)
  then show ?thesis
    by (simp add: dec_eq_val dec_val_sum dec_val_decimal_of comp_def)
qed

section \<open>Position and PortfolioSnapshot\<close>

record position =
  pos_instrument_id :: instrument_id
  pos_quantity :: quantity
  pos_average_entry_price :: "price option"
  pos_mark_price :: "price option"
  pos_realized_pnl :: money
  pos_unrealized_pnl :: money
  pos_opened_at :: "datetime option"
  pos_network :: "string option"

definition option_list :: "'a option \<Rightarrow> 'a list" where
  "option_list x = (case x of None \<Rightarrow> [] | Some y \<Rightarrow> [y])"

definition position_error :: "position \<Rightarrow> domain_error option" where
  "position_error p = first_error
     [(instrument_error (pos_instrument_id p) \<noteq> None, BadPattern),
      (list_ex (\<lambda>price. price_error price \<noteq> None)
         (option_list (pos_average_entry_price p) @ option_list (pos_mark_price p)), PriceNotPositive),
      (q_asset (pos_quantity p) \<noteq> i_base (pos_instrument_id p), AssetMismatch),
      (m_currency (pos_realized_pnl p) \<noteq> m_currency (pos_unrealized_pnl p), CurrencyMismatch)]"

record portfolio_snapshot =
  pf_workspace_id :: string
  pf_mode :: trading_mode
  pf_as_of :: datetime
  pf_base_currency :: string
  pf_cash :: money
  pf_reserved_cash :: money
  pf_positions :: "position list"
  pf_realized_pnl_today :: money
  pf_unrealized_pnl :: money
  pf_equity :: money
  pf_gross_exposure :: money
  pf_net_exposure :: money
  pf_peak_equity :: money
  pf_open_order_count :: int
  pf_is_reconciled :: bool
  pf_reconciled_at :: "datetime option"

definition portfolio_error :: "portfolio_snapshot \<Rightarrow> domain_error option" where
  "portfolio_error p = first_error
     [(list_ex (\<lambda>q. position_error q \<noteq> None) (pf_positions p), BadPattern),
      (512 < length (pf_positions p), OutOfRange),
      (pf_open_order_count p < 0, OutOfRange),
      (list_ex (\<lambda>m. m_currency m \<noteq> pf_base_currency p)
         [pf_cash p, pf_reserved_cash p, pf_realized_pnl_today p, pf_unrealized_pnl p, pf_equity p,
          pf_gross_exposure p, pf_net_exposure p, pf_peak_equity p], CurrencyMismatch),
      (is_negative (m_amount (pf_reserved_cash p)), NegativeReserve),
      (m_amount (pf_cash p) < m_amount (pf_reserved_cash p), ReserveExceedsCash),
      (is_negative (m_amount (pf_gross_exposure p)), NegativeExposure),
      (m_amount (pf_peak_equity p) < m_amount (pf_equity p), PeakBelowEquity),
      (\<not> distinct (map (\<lambda>q. i_value (pos_instrument_id q)) (pf_positions p)), DuplicateInstrument)]"

end
