(* ===== verification/DomainNumeric.thy ===== *)
theory DomainNumeric
  imports DomainTypes
begin

text \<open>
  \<open>kavrigo_domain/numeric.py\<close>: arithmetic of \<open>Decimal\<close> in the fixed context of 28 digits, rounding half to even. An
  exact result is rounded to the precision; a quotient is computed with two further digits, the last of which is
  moved off a tie when digits remain, as \<open>decimal\<close> does. Exponent overflow is out of reach of the model's values.
\<close>

definition PRECISION :: int where
  "PRECISION = 28"

definition half_even :: "int \<Rightarrow> int \<Rightarrow> int" where
  "half_even n d = (let q = n div d; r = n mod d in if d < 2 * r \<or> (2 * r = d \<and> odd q) then q + 1 else q)"

definition ctx_round :: "decimal \<Rightarrow> decimal" where
  "ctx_round d =
     (let k = ndigits \<bar>coeff d\<bar> - PRECISION in
      if k \<le> 0 then d
      else
        let q = half_even \<bar>coeff d\<bar> (10 ^ nat k) in
        if q = 10 ^ nat PRECISION then Dec (sgn (coeff d) * 10 ^ nat (PRECISION - 1)) (expo d + k + 1)
        else Dec (sgn (coeff d) * q) (expo d + k))"

definition ctx_mul :: "decimal \<Rightarrow> decimal \<Rightarrow> decimal" where
  "ctx_mul a b = ctx_round (Dec (coeff a * coeff b) (expo a + expo b))"

definition ctx_add :: "decimal \<Rightarrow> decimal \<Rightarrow> decimal" where
  "ctx_add a b = (let e = min (expo a) (expo b) in ctx_round (Dec (scaled e a + scaled e b) e))"

definition ctx_sub :: "decimal \<Rightarrow> decimal \<Rightarrow> decimal" where
  "ctx_sub a b = ctx_add a (dec_neg b)"

text \<open>\<open>abs(d)\<close> of Python, which also rounds.\<close>

definition ctx_abs :: "decimal \<Rightarrow> decimal" where
  "ctx_abs d = ctx_round (Dec \<bar>coeff d\<bar> (expo d))"

text \<open>The trailing zeros of an exact quotient are dropped down to the ideal exponent; \<open>n\<close> is how many may go.\<close>

fun drop_zeros :: "nat \<Rightarrow> int \<Rightarrow> int \<Rightarrow> int \<times> int" where
  "drop_zeros 0 c e = (c, e)"
| "drop_zeros (Suc n) c e = (if c mod 10 = 0 then drop_zeros n (c div 10) (e + 1) else (c, e))"

definition ctx_div :: "decimal \<Rightarrow> decimal \<Rightarrow> decimal" where
  "ctx_div a b =
     (let ideal = expo a - expo b; sign = sgn (coeff a) * sgn (coeff b) in
      if coeff a = 0 then Dec 0 ideal
      else
        let shift = ndigits \<bar>coeff b\<bar> - ndigits \<bar>coeff a\<bar> + PRECISION + 1;
            n = (if 0 \<le> shift then \<bar>coeff a\<bar> * 10 ^ nat shift else \<bar>coeff a\<bar>);
            d = (if 0 \<le> shift then \<bar>coeff b\<bar> else \<bar>coeff b\<bar> * 10 ^ nat (- shift));
            q = n div d
        in if n mod d \<noteq> 0 then ctx_round (Dec (sign * (if q mod 5 = 0 then q + 1 else q)) (ideal - shift))
           else (case drop_zeros (nat shift) q (ideal - shift) of (c, e) \<Rightarrow> ctx_round (Dec (sign * c) e)))"

definition safe_divide :: "decimal \<Rightarrow> decimal \<Rightarrow> decimal option" where
  "safe_divide numerator denominator = (if is_zero denominator then None else Some (ctx_div numerator denominator))"

definition mean :: "decimal list \<Rightarrow> decimal option" where
  "mean values = (if values = [] then None else safe_divide (foldl ctx_add dec_zero values) (dec_int (int (length values))))"

definition to_bps :: "decimal \<Rightarrow> decimal" where
  "to_bps ratio = ctx_mul ratio (dec_int 10000)"

text \<open>\<open>int(d)\<close>: towards zero.\<close>

definition dec_trunc :: "decimal \<Rightarrow> int" where
  "dec_trunc d = (if 0 \<le> expo d then coeff d * 10 ^ nat (expo d) else sgn (coeff d) * (\<bar>coeff d\<bar> div 10 ^ nat (- expo d)))"

lemma half_even_nonneg: "0 \<le> n \<Longrightarrow> 0 < d \<Longrightarrow> 0 \<le> half_even n d"
  by (simp add: half_even_def Let_def pos_imp_zdiv_nonneg_iff)

lemma ctx_round_nonneg: "0 \<le> coeff d \<Longrightarrow> 0 \<le> coeff (ctx_round d)"
  by (auto simp: ctx_round_def Let_def half_even_nonneg sgn_if)

lemma ctx_mul_nonneg: "0 \<le> coeff a \<Longrightarrow> 0 \<le> coeff b \<Longrightarrow> 0 \<le> coeff (ctx_mul a b)"
  by (simp add: ctx_mul_def ctx_round_nonneg)

lemma dec_trunc_nonneg: "0 \<le> coeff d \<Longrightarrow> 0 \<le> dec_trunc d"
  by (auto simp: dec_trunc_def pos_imp_zdiv_nonneg_iff sgn_if)

lemma drop_zeros_nonneg: "0 \<le> c \<Longrightarrow> 0 \<le> fst (drop_zeros n c e)"
  by (induction n c e rule: drop_zeros.induct) auto

lemma ctx_div_nonneg:
  assumes "0 \<le> coeff a" "0 < coeff b"
  shows "0 \<le> coeff (ctx_div a b)"
proof (cases "coeff a = 0")
  case False
  define shift where "shift = ndigits \<bar>coeff b\<bar> - ndigits \<bar>coeff a\<bar> + PRECISION + 1"
  define n where "n = (if 0 \<le> shift then \<bar>coeff a\<bar> * 10 ^ nat shift else \<bar>coeff a\<bar>)"
  define d where "d = (if 0 \<le> shift then \<bar>coeff b\<bar> else \<bar>coeff b\<bar> * 10 ^ nat (- shift))"
  have "0 \<le> n" "0 < d" using assms by (simp_all add: n_def d_def)
  then have q: "0 \<le> n div d" by (simp add: pos_imp_zdiv_nonneg_iff)
  have sign: "sgn (coeff a) * sgn (coeff b) = 1" using assms False by simp
  obtain c e where z: "drop_zeros (nat shift) (n div d) (expo a - expo b - shift) = (c, e)" by fastforce
  have "0 \<le> c" using drop_zeros_nonneg[OF q, of "nat shift" "expo a - expo b - shift"] z by simp
  then show ?thesis
    using q False by (simp add: ctx_div_def sign Let_def ctx_round_nonneg z flip: shift_def n_def d_def)
qed (simp add: ctx_div_def Let_def)

text \<open>Within the precision nothing is rounded.\<close>

lemma ctx_round_exact: "ndigits \<bar>coeff d\<bar> \<le> PRECISION \<Longrightarrow> ctx_round d = d"
  by (simp add: ctx_round_def)

end
