(* ===== verification/Binary64.thy ===== *)
theory Binary64
  imports DomainNumeric
begin

text \<open>
  Binary floats where the code computes with them: \<open>timedelta.total_seconds()\<close> divides the microseconds by a million, the
  callers multiply by a thousand, and each result is rounded half to even to 53 bits. Overflow and subnormal numbers are
  out of reach of the times at hand. \<open>Bin m e\<close> is \<open>m * 2 ^ e\<close>.
\<close>

datatype double = Bin (mantissa: int) (bexp: int)

function nbits :: "int \<Rightarrow> int" where
  "nbits n = (if n < 2 then 1 else 1 + nbits (n div 2))"
  by pat_completeness auto
termination
  by (relation "measure nat") auto

declare nbits.simps [simp del]

text \<open>The quotient \<open>p / q\<close>, for a positive \<open>q\<close>.\<close>

definition round_magnitude_at :: "int \<Rightarrow> int \<Rightarrow> int \<Rightarrow> int" where
  "round_magnitude_at p q e = (if 0 \<le> e then half_even p (q * 2 ^ nat e) else half_even (p * 2 ^ nat (- e)) q)"

definition round_double :: "int \<Rightarrow> int \<Rightarrow> double" where
  "round_double p q =
     (if p = 0 then Bin 0 0
      else
        let e = nbits \<bar>p\<bar> - nbits q - 53;
            wide = (if 0 \<le> e then 2 ^ 53 * (q * 2 ^ nat e) \<le> \<bar>p\<bar> else 2 ^ 53 * q \<le> \<bar>p\<bar> * 2 ^ nat (- e));
            e' = (if wide then e + 1 else e)
        in Bin (sgn p * round_magnitude_at \<bar>p\<bar> q e') e')"

definition double_times :: "double \<Rightarrow> int \<Rightarrow> double" where
  "double_times x n = (if 0 \<le> bexp x then round_double (mantissa x * n * 2 ^ nat (bexp x)) 1
     else round_double (mantissa x * n) (2 ^ nat (- bexp x)))"

definition above_int :: "double \<Rightarrow> int \<Rightarrow> bool" where
  "above_int x n \<longleftrightarrow> (if 0 \<le> bexp x then n < mantissa x * 2 ^ nat (bexp x) else n * 2 ^ nat (- bexp x) < mantissa x)"

definition below_int :: "double \<Rightarrow> int \<Rightarrow> bool" where
  "below_int x n \<longleftrightarrow> (if 0 \<le> bexp x then mantissa x * 2 ^ nat (bexp x) < n else mantissa x < n * 2 ^ nat (- bexp x))"

definition double_less :: "double \<Rightarrow> double \<Rightarrow> bool" where
  "double_less x y \<longleftrightarrow> (let e = min (bexp x) (bexp y)
     in mantissa x * 2 ^ nat (bexp x - e) < mantissa y * 2 ^ nat (bexp y - e))"

text \<open>The sum of two floats, given as decimals.\<close>

definition double_sum :: "decimal \<Rightarrow> decimal \<Rightarrow> double" where
  "double_sum a b = (let e = min 0 (min (expo a) (expo b))
     in round_double (coeff a * 10 ^ nat (expo a - e) + coeff b * 10 ^ nat (expo b - e)) (10 ^ nat (- e)))"

definition total_seconds :: "int \<Rightarrow> double" where
  "total_seconds microseconds = round_double microseconds 1000000"

text \<open>\<open>(a - b).total_seconds() * 1000\<close>, for a difference in microseconds.\<close>

definition elapsed_ms :: "int \<Rightarrow> double" where
  "elapsed_ms microseconds = double_times (total_seconds microseconds) 1000"

section \<open>The rounding error\<close>

definition bin_val :: "double \<Rightarrow> rat" where
  "bin_val x = of_int (mantissa x) * 2 powi bexp x"

lemma two_powi_pos [simp]: "(0::rat) < 2 powi e"
  by (simp add: zero_less_power_int)

lemma two_powi_add: "(2::rat) powi (m + n) = 2 powi m * 2 powi n"
  by (rule power_int_add) simp

lemma two_powi_nat: "0 \<le> e \<Longrightarrow> (2::rat) powi e = 2 ^ nat e" "e < 0 \<Longrightarrow> (2::rat) powi e * 2 ^ nat (- e) = 1"
  by (simp_all add: power_int_def power_one_over)

lemma above_int_val: "above_int x n \<longleftrightarrow> of_int n < bin_val x"
proof (cases "0 \<le> bexp x")
  case True
  then have "bin_val x = of_int (mantissa x * 2 ^ nat (bexp x))" by (simp add: bin_val_def two_powi_nat)
  then show ?thesis using True by (simp add: above_int_def del: of_int_mult of_int_power)
next
  case False
  let ?k = "(2::rat) ^ nat (- bexp x)"
  have k: "2 powi bexp x * ?k = 1" using False by (simp add: two_powi_nat)
  have "of_int n < bin_val x \<longleftrightarrow> of_int n * ?k < bin_val x * ?k" by simp
  also have "bin_val x * ?k = of_int (mantissa x)" using k by (simp add: bin_val_def)
  also have "of_int n * ?k = of_int (n * 2 ^ nat (- bexp x))" by simp
  also have "\<dots> < of_int (mantissa x) \<longleftrightarrow> n * 2 ^ nat (- bexp x) < mantissa x" by (rule of_int_less_iff)
  finally show ?thesis using False by (simp add: above_int_def)
qed

lemma below_int_val: "below_int x n \<longleftrightarrow> bin_val x < of_int n"
proof (cases "0 \<le> bexp x")
  case True
  then have "bin_val x = of_int (mantissa x * 2 ^ nat (bexp x))" by (simp add: bin_val_def two_powi_nat)
  then show ?thesis using True by (simp add: below_int_def del: of_int_mult of_int_power)
next
  case False
  let ?k = "(2::rat) ^ nat (- bexp x)"
  have k: "2 powi bexp x * ?k = 1" using False by (simp add: two_powi_nat)
  have "bin_val x < of_int n \<longleftrightarrow> bin_val x * ?k < of_int n * ?k" by simp
  also have "bin_val x * ?k = of_int (mantissa x)" using k by (simp add: bin_val_def)
  also have "of_int n * ?k = of_int (n * 2 ^ nat (- bexp x))" by simp
  also have "of_int (mantissa x) < (\<dots> :: rat) \<longleftrightarrow> mantissa x < n * 2 ^ nat (- bexp x)" by (rule of_int_less_iff)
  finally show ?thesis using False by (simp add: below_int_def)
qed

lemma nbits_ge: "1 \<le> nbits n"
proof (induction n rule: nbits.induct)
  case (1 n)
  then show ?case by (cases "n < 2") (simp_all add: nbits.simps[of n])
qed

lemma nbits_lower: "1 \<le> n \<Longrightarrow> 2 ^ nat (nbits n - 1) \<le> n"
proof (induction n rule: nbits.induct)
  case (1 n)
  show ?case
  proof (cases "n < 2")
    case False
    then have "2 ^ nat (nbits (n div 2) - 1) \<le> n div 2" using 1 by simp
    then have "2 * 2 ^ nat (nbits (n div 2) - 1) \<le> n" by simp
    moreover have "nat (nbits n - 1) = Suc (nat (nbits (n div 2) - 1))"
      using False nbits_ge[of "n div 2"] by (simp add: nbits.simps[of n] flip: Suc_nat_eq_nat_zadd1)
    ultimately show ?thesis by simp
  qed (use 1 in \<open>simp add: nbits.simps[of n]\<close>)
qed

lemma nbits_upper: "n < 2 ^ nat (nbits n)"
proof (induction n rule: nbits.induct)
  case (1 n)
  show ?case
  proof (cases "n < 2")
    case False
    then have "n div 2 < 2 ^ nat (nbits (n div 2))" using 1 by simp
    then have "n < 2 * 2 ^ nat (nbits (n div 2))" by linarith
    moreover have "nat (nbits n) = Suc (nat (nbits (n div 2)))"
      using False nbits_ge[of "n div 2"] by (simp add: nbits.simps[of n] nat_add_distrib)
    ultimately show ?thesis by simp
  qed (simp add: nbits.simps[of n])
qed

lemma half_even_error:
  assumes "0 < d"
  shows "\<bar>(of_int (half_even n d) :: rat) - of_int n / of_int d\<bar> \<le> 1 / 2"
proof -
  define q where "q = n div d"
  define r where "r = n mod d"
  have n: "n = q * d + r" and r: "0 \<le> r" "r < d" using assms by (simp_all add: q_def r_def)
  have frac: "of_int n / of_int d = (of_int q :: rat) + of_int r / of_int d" using assms by (simp add: n add_divide_distrib)
  have d: "(0::rat) < of_int d" using assms by simp
  show ?thesis
  proof (cases "d < 2 * r \<or> (2 * r = d \<and> odd q)")
    case True
    then have "d \<le> 2 * r" by auto
    then have "(of_int d :: rat) \<le> 2 * of_int r" by (metis of_int_le_iff of_int_mult of_int_numeral)
    then have "1 / 2 \<le> (of_int r :: rat) / of_int d" using d by (simp add: field_simps)
    moreover have "(of_int r :: rat) / of_int d < 1" using r d by simp
    moreover have "half_even n d = q + 1" using True by (simp add: half_even_def Let_def q_def r_def)
    ultimately show ?thesis by (simp add: frac abs_le_iff)
  next
    case False
    then have "2 * r \<le> d" by auto
    then have "2 * (of_int r :: rat) \<le> of_int d" by (metis of_int_le_iff of_int_mult of_int_numeral)
    then have "(of_int r :: rat) / of_int d \<le> 1 / 2" using d by (simp add: field_simps)
    moreover have "0 \<le> (of_int r :: rat) / of_int d" using r d by simp
    moreover have "half_even n d = q" using False by (auto simp: half_even_def Let_def q_def r_def)
    ultimately show ?thesis by (simp add: frac abs_le_iff)
  qed
qed

lemma round_magnitude_error:
  assumes "0 \<le> p" "0 < q"
  shows "\<bar>of_int (round_magnitude_at p q e) * 2 powi e - of_int p / of_int q\<bar> \<le> (2 powi e / 2 :: rat)"
proof -
  obtain n d :: int where nd: "round_magnitude_at p q e = half_even n d" "0 < d" "of_int p / of_int q = of_int n / of_int d * (2::rat) powi e"
  proof (cases "0 \<le> e")
    case True
    then show ?thesis using assms by (intro that[of p "q * 2 ^ nat e"]) (simp_all add: round_magnitude_at_def two_powi_nat)
  next
    case False
    then have "of_int (p * 2 ^ nat (- e)) / of_int q * (2::rat) powi e = of_int p / of_int q * (2 powi e * 2 ^ nat (- e))" by simp
    then show ?thesis using False assms by (intro that[of "p * 2 ^ nat (- e)" q]) (simp_all add: round_magnitude_at_def two_powi_nat)
  qed
  have "\<bar>of_int (half_even n d) * 2 powi e - of_int n / of_int d * (2::rat) powi e\<bar> =
      \<bar>of_int (half_even n d) - of_int n / of_int d\<bar> * (2::rat) powi e"
    unfolding left_diff_distrib[symmetric] abs_mult by (simp only: abs_of_pos[OF two_powi_pos])
  also have "\<dots> \<le> 1 / 2 * 2 powi e" using half_even_error[OF nd(2)] by (intro mult_right_mono) simp_all
  finally show ?thesis by (simp add: nd)
qed

lemma round_double_error:
  assumes "0 < q"
  shows "\<bar>bin_val (round_double p q) - of_int p / of_int q\<bar> \<le> \<bar>of_int p / of_int q\<bar> / 2 ^ 53"
proof (cases "p = 0")
  case False
  define e where "e = nbits \<bar>p\<bar> - nbits q - 53"
  define wide where "wide \<longleftrightarrow> (if 0 \<le> e then 2 ^ 53 * (q * 2 ^ nat e) \<le> \<bar>p\<bar> else 2 ^ 53 * q \<le> \<bar>p\<bar> * 2 ^ nat (- e))"
  define e' where "e' = (if wide then e + 1 else e)"
  have v: "round_double p q = Bin (sgn p * round_magnitude_at \<bar>p\<bar> q e') e'"
    using False unfolding round_double_def Let_def e_def[symmetric] wide_def[symmetric] e'_def[symmetric] by simp
  let ?x = "of_int \<bar>p\<bar> / of_int q :: rat"
  have qpos: "(0::rat) < of_int q" using assms by simp
  have at_least: "c * 2 powi e \<le> ?x \<longleftrightarrow> c * 2 powi e * of_int q \<le> (of_int \<bar>p\<bar> :: rat)" for c e
    using qpos by (simp add: pos_le_divide_eq)
  have wide: "2 ^ 53 * 2 powi e \<le> ?x" if wide
  proof (cases "0 \<le> e")
    case True
    then have "2 ^ 53 * (q * 2 ^ nat e) \<le> \<bar>p\<bar>" using that by (simp add: wide_def)
    then have "of_int (2 ^ 53 * (q * 2 ^ nat e)) \<le> (of_int \<bar>p\<bar> :: rat)" by (simp only: of_int_le_iff)
    then show ?thesis unfolding at_least using True by (simp add: two_powi_nat mult_ac)
  next
    case False
    then have "2 ^ 53 * q \<le> \<bar>p\<bar> * 2 ^ nat (- e)" using that by (simp add: wide_def)
    then have "of_int (2 ^ 53 * q) \<le> (of_int (\<bar>p\<bar> * 2 ^ nat (- e)) :: rat)" by (simp only: of_int_le_iff)
    then have "2 ^ 53 * of_int q * 2 powi e \<le> of_int \<bar>p\<bar> * (2 powi e * (2::rat) ^ nat (- e))"
      using mult_right_mono[of _ _ "(2::rat) powi e"] by (fastforce simp: mult_ac)
    then show ?thesis unfolding at_least using False by (simp add: two_powi_nat mult_ac)
  qed
  have low: "2 ^ 52 * 2 powi e \<le> ?x"
  proof -
    have q: "(of_int q :: rat) \<le> 2 powi nbits q"
      using nbits_upper[of q] nbits_ge[of q] by (metis less_imp_le of_int_le_iff of_int_numeral of_int_power two_powi_nat(1) order_trans zero_le_one)
    have "2 ^ nat (nbits \<bar>p\<bar> - 1) \<le> \<bar>p\<bar>" using False by (intro nbits_lower) simp
    then have "of_int (2 ^ nat (nbits \<bar>p\<bar> - 1)) \<le> (of_int \<bar>p\<bar> :: rat)" by (simp only: of_int_le_iff)
    then have p: "2 powi (nbits \<bar>p\<bar> - 1) \<le> (of_int \<bar>p\<bar> :: rat)" using nbits_ge[of "\<bar>p\<bar>"] by (simp add: two_powi_nat)
    have "2 ^ 52 * 2 powi e * of_int q \<le> 2 ^ 52 * 2 powi e * (2::rat) powi nbits q" using q by (intro mult_left_mono) simp_all
    also have "2 ^ 52 * 2 powi e * (2::rat) powi nbits q = 2 powi 52 * 2 powi e * 2 powi nbits q" by simp
    also have "\<dots> = 2 powi (52 + e + nbits q)" by (simp only: two_powi_add)
    also have "52 + e + nbits q = nbits \<bar>p\<bar> - 1" by (simp add: e_def)
    also note p
    finally show ?thesis unfolding at_least .
  qed
  have "2 ^ 52 * 2 powi e' \<le> ?x"
  proof (cases wide)
    case True
    have "(2::rat) powi (e + 1) = 2 * 2 powi e" by (simp add: power_int_add)
    then show ?thesis using wide[OF True] True by (simp add: e'_def)
  qed (use low in \<open>simp add: e'_def\<close>)
  then have small: "2 powi e' / 2 \<le> ?x / 2 ^ 53" by (simp add: field_simps)
  have "\<bar>bin_val (round_double p q) - of_int p / of_int q\<bar> = \<bar>of_int (round_magnitude_at \<bar>p\<bar> q e') * 2 powi e' - ?x\<bar>"
  proof (cases "0 < p")
    case False
    then have "p < 0" using \<open>p \<noteq> 0\<close> by simp
    then show ?thesis by (simp add: v bin_val_def abs_minus_commute)
  qed (simp add: v bin_val_def)
  also have "\<dots> \<le> 2 powi e' / 2" using assms by (intro round_magnitude_error) auto
  also note small
  also have "?x = \<bar>of_int p / of_int q\<bar>" using qpos by simp
  finally show ?thesis .
qed (simp add: round_double_def bin_val_def)

lemma double_times_error:
  "\<bar>bin_val (double_times x n) - bin_val x * of_int n\<bar> \<le> \<bar>bin_val x * of_int n\<bar> / 2 ^ 53"
proof (cases "0 \<le> bexp x")
  case True
  then show ?thesis using round_double_error[of 1 "mantissa x * n * 2 ^ nat (bexp x)"]
    by (simp add: double_times_def bin_val_def two_powi_nat mult_ac)
next
  case False
  then have "(2::rat) powi bexp x = 1 / 2 ^ nat (- bexp x)" using two_powi_nat(2)[of "bexp x"] by (simp add: field_simps)
  then show ?thesis using round_double_error[of "2 ^ nat (- bexp x)" "mantissa x * n"] False
    by (simp add: double_times_def bin_val_def mult_ac)
qed

lemma relative_error:
  assumes "\<bar>y - x\<bar> \<le> \<bar>x\<bar> / (2 :: rat) ^ 53"
  shows "0 \<le> x \<Longrightarrow> x * (1 - 1 / 2 ^ 53) \<le> y" "0 \<le> x \<Longrightarrow> y \<le> x * (1 + 1 / 2 ^ 53)" "x \<le> 0 \<Longrightarrow> y \<le> 0"
proof -
  have e: "\<bar>x\<bar> / 2 ^ 53 = \<bar>x\<bar> * (1 / 2 ^ 53)" by simp
  have "y - x \<le> \<bar>x\<bar> * (1 / 2 ^ 53)" "x - y \<le> \<bar>x\<bar> * (1 / 2 ^ 53)" using assms unfolding e abs_le_iff by linarith+
  then show "0 \<le> x \<Longrightarrow> x * (1 - 1 / 2 ^ 53) \<le> y" "0 \<le> x \<Longrightarrow> y \<le> x * (1 + 1 / 2 ^ 53)" "x \<le> 0 \<Longrightarrow> y \<le> 0"
    by (simp_all add: right_diff_distrib distrib_left)
qed

text \<open>
  An age against a limit in whole milliseconds is decided right except when it is exactly the limit: a microsecond is far
  above the rounding error of the ages that a policy can allow.
\<close>

lemma elapsed_ms_error:
  assumes "0 \<le> d"
  shows "bin_val (elapsed_ms d) \<le> of_int d / 1000 * (1 + 1 / 2 ^ 51)" "of_int d / 1000 * (1 - 1 / 2 ^ 51) \<le> bin_val (elapsed_ms d)"
proof -
  let ?x = "of_int d / 1000000 :: rat"
  define y where "y = bin_val (total_seconds d)"
  have x: "0 \<le> ?x" using assms by simp
  have "\<bar>y - ?x\<bar> \<le> \<bar>?x\<bar> / 2 ^ 53" using round_double_error[of 1000000 d] by (simp add: y_def total_seconds_def)
  note y = relative_error(1,2)[OF this x]
  have "0 \<le> ?x * (1 - 1 / 2 ^ 53)" using x by simp
  then have y0: "0 \<le> y" using y(1) by linarith
  then have y1: "0 \<le> y * 1000" by simp
  have "\<bar>bin_val (elapsed_ms d) - y * 1000\<bar> \<le> \<bar>y * 1000\<bar> / 2 ^ 53"
    using double_times_error[of "total_seconds d" 1000] by (simp add: y_def elapsed_ms_def)
  note z = relative_error(1,2)[OF this y1]
  have "y * 1000 * (1 + 1 / 2 ^ 53) \<le> ?x * (1 + 1 / 2 ^ 53) * 1000 * (1 + 1 / 2 ^ 53)" using y(2) by (intro mult_right_mono) auto
  also have "\<dots> \<le> of_int d / 1000 * (1 + 1 / 2 ^ 51)" using assms by (simp add: field_simps)
  finally show "bin_val (elapsed_ms d) \<le> of_int d / 1000 * (1 + 1 / 2 ^ 51)" using z(2) by linarith
  have "of_int d / 1000 * (1 - 1 / 2 ^ 51) \<le> ?x * (1 - 1 / 2 ^ 53) * 1000 * (1 - 1 / 2 ^ 53)" using assms by (simp add: field_simps)
  also have "\<dots> \<le> y * 1000 * (1 - 1 / 2 ^ 53)" using y(1) by (intro mult_right_mono) auto
  finally show "of_int d / 1000 * (1 - 1 / 2 ^ 51) \<le> bin_val (elapsed_ms d)" using z(1) by linarith
qed

lemma elapsed_ms_below:
  assumes "d < 1000 * n" "0 \<le> n" "n \<le> 10 ^ 8"
  shows "\<not> above_int (elapsed_ms d) n"
proof (cases "0 \<le> d")
  case True
  have "bin_val (elapsed_ms d) \<le> of_int d / 1000 * (1 + 1 / 2 ^ 51)" by (rule elapsed_ms_error[OF True])
  also have "\<dots> \<le> of_int (1000 * n - 1) / 1000 * (1 + 1 / 2 ^ 51)"
    using assms(1) by (intro mult_right_mono divide_right_mono) (simp_all only: of_int_le_iff, simp_all)
  also have "\<dots> \<le> of_int n" using assms(3) by (simp add: field_simps)
  finally show ?thesis by (simp add: above_int_val)
next
  case False
  have "bin_val (total_seconds d) \<le> 0"
    using relative_error(3)[OF round_double_error[of 1000000 d]] False by (simp add: total_seconds_def)
  then have "bin_val (elapsed_ms d) \<le> 0"
    using relative_error(3)[OF double_times_error[of "total_seconds d" 1000]] by (simp add: elapsed_ms_def)
  then show ?thesis using assms(2) by (simp add: above_int_val)
qed

lemma elapsed_ms_above:
  assumes "1000 * n < d" "0 \<le> n" "n \<le> 10 ^ 8"
  shows "above_int (elapsed_ms d) n"
proof -
  have "of_int n < (of_int (1000 * n + 1) / 1000 * (1 - 1 / 2 ^ 51) :: rat)" using assms(3) by (simp add: field_simps)
  also have "\<dots> \<le> of_int d / 1000 * (1 - 1 / 2 ^ 51)"
    using assms(1) by (intro mult_right_mono divide_right_mono) (simp_all only: of_int_le_iff, simp_all)
  also have "\<dots> \<le> bin_val (elapsed_ms d)" using assms by (intro elapsed_ms_error) simp
  finally show ?thesis by (simp add: above_int_val)
qed

lemma total_seconds_at_least:
  assumes "\<not> below_int (total_seconds d) n" "0 < n" "n \<le> 10 ^ 8"
  shows "n * 1000000 \<le> d"
proof (rule ccontr)
  assume "\<not> n * 1000000 \<le> d"
  then have d: "d \<le> n * 1000000 - 1" by simp
  let ?x = "of_int d / 1000000 :: rat"
  have e: "\<bar>bin_val (total_seconds d) - ?x\<bar> \<le> \<bar>?x\<bar> / 2 ^ 53" using round_double_error[of 1000000 d] by (simp add: total_seconds_def)
  have "bin_val (total_seconds d) < of_int n"
  proof (cases "0 \<le> d")
    case True
    have "bin_val (total_seconds d) \<le> ?x * (1 + 1 / 2 ^ 53)" using relative_error(2)[OF e] True by simp
    also have "\<dots> \<le> of_int (n * 1000000 - 1) / 1000000 * (1 + 1 / 2 ^ 53)"
      using d by (intro mult_right_mono divide_right_mono) (simp_all only: of_int_le_iff, simp_all)
    also have "\<dots> < of_int n" using assms(3) by (simp add: field_simps)
    finally show ?thesis .
  next
    case False
    then have "bin_val (total_seconds d) \<le> 0" using relative_error(3)[OF e] by simp
    moreover have "(0 :: rat) < of_int n" using assms(2) by simp
    ultimately show ?thesis by (rule le_less_trans)
  qed
  then show False using assms(1) by (simp add: below_int_val)
qed

end
