(* ===== verification/DomainAgent.thy ===== *)
theory DomainAgent
  imports DomainOrders Binary64
begin

text \<open>
  The agent side of \<open>kavrigo_domain\<close>: \<open>agent.py\<close>, \<open>snapshot.py\<close>, \<open>evidence.py\<close>, \<open>decision.py\<close>, and
  the runtime's \<open>Allocation\<close>, \<open>eligible_evidence\<close> (\<open>kavrigo_runtime\<close>). Scores are binary floats in
  the code: a binary float is a finite decimal, so they are decimals here. They are only compared, but for the sum of
  confidence and uncertainty, which is rounded as the code does.
  Optional presentation fields (summaries, notes, rationale, provenance) are left out.
\<close>

section \<open>agent.py\<close>

datatype data_pack =
    PackMicrostructure | PackPriceTechnical | PackDerivatives | PackOnchainCore | PackStablecoins
  | PackEtfFlows | PackTokenomics | PackDefi | PackNews | PackMacro | PackSecurityEvents
  | PackSocialAttention | PackRelativeStrength

datatype approval_status = Pending | ApprovedStatus | RejectedStatus | Withdrawn

record universe_config =
  un_instruments :: "instrument_id list"
  un_market_type :: instrument_class

definition universe_error :: "universe_config \<Rightarrow> domain_error option" where
  "universe_error u = first_error
     [(un_instruments u = [] \<or> 256 < length (un_instruments u), OutOfRange),
      (list_ex (\<lambda>i. instrument_error i \<noteq> None) (un_instruments u), BadPattern),
      (un_market_type u \<noteq> Spot, NotSpot),
      (list_ex (\<lambda>i. i_class i \<noteq> Spot) (un_instruments u), NotSpot)]"

record schedule_config =
  sc_decision_interval_seconds :: int
  sc_max_decisions_per_day :: int

record analysis_config =
  an_market_scanner :: bool
  an_network_context :: bool
  an_asset_analyzer :: bool
  an_portfolio_layer :: bool
  an_horizons_minutes :: "int list"
  an_allow_abstain :: bool

definition analysis_error :: "analysis_config \<Rightarrow> domain_error option" where
  "analysis_error a = first_error
     [(an_horizons_minutes a = [] \<or> 8 < length (an_horizons_minutes a), OutOfRange),
      (\<not> an_allow_abstain a, AbstentionDisabled),
      (\<not> an_portfolio_layer a, PortfolioLayerDisabled)]"

record evidence_requirements =
  er_min_source_quality :: decimal
  er_require_timestamps :: bool
  er_require_contradicting_evidence :: bool
  er_min_evidence_items :: int

record agent_spec =
  sp_mode :: trading_mode
  sp_universe :: universe_config
  sp_schedule :: schedule_config
  sp_data_packs :: "data_pack list"
  sp_analysis :: analysis_config
  sp_evidence :: evidence_requirements
  sp_risk_policy_ref :: string
  sp_execution_policy_ref :: string

definition agent_spec_error :: "agent_spec \<Rightarrow> domain_error option" where
  "agent_spec_error s = first_error
     [(universe_error (sp_universe s) \<noteq> None, OutOfRange),
      (analysis_error (sp_analysis s) \<noteq> None, OutOfRange),
      (sp_data_packs s = [] \<or> 16 < length (sp_data_packs s), OutOfRange),
      (sp_mode s = Live, LiveGated),
      (PackNews \<in> set (sp_data_packs s) \<and> \<not> er_require_timestamps (sp_evidence s), NewsNeedsTimestamps)]"

record agent_version =
  av_agent_version_id :: string
  av_agent_id :: string
  av_workspace_id :: string
  av_spec :: agent_spec
  av_spec_hash :: string
  av_prompt_hash :: string
  av_feature_set_version :: string
  av_created_at :: datetime
  av_approval_status :: approval_status
  av_approved_environments :: "string list"

definition is_approved_for :: "agent_version \<Rightarrow> string \<Rightarrow> bool" where
  "is_approved_for v environment \<longleftrightarrow>
     av_approval_status v = ApprovedStatus \<and> environment \<in> set (av_approved_environments v)"

section \<open>snapshot.py\<close>

datatype data_family =
    FamTrades | FamBook | FamCandles | FamDerivatives | FamOnchain | FamDefi | FamNews | FamMacro
  | FamReference

record freshness_report =
  fr_age_ms :: "(data_family \<times> int) list"
  fr_stale_families :: "data_family list"
  fr_missing_families :: "data_family list"

definition age_for :: "freshness_report \<Rightarrow> data_family \<Rightarrow> int option" where
  "age_for r family = map_of (fr_age_ms r) family"

definition freshness_error :: "freshness_report \<Rightarrow> domain_error option" where
  "freshness_error r = first_error [(list_ex (\<lambda>(family, age). age < 0) (fr_age_ms r), NegativeAge)]"

record data_quality =
  dq_score :: decimal
  dq_freshness :: freshness_report
  dq_provider_health_ok :: bool
  dq_sequence_complete :: bool
  dq_contains_revised_data :: bool

record feature_vector =
  fv_instrument_id :: instrument_id
  fv_feature_set_version :: string
  fv_values :: "(string \<times> decimal) list"
  fv_content_hash :: string

record market_snapshot =
  ms_snapshot_id :: string
  ms_as_of :: datetime
  ms_created_at :: datetime
  ms_instruments :: "instrument_id list"
  ms_features :: "feature_vector list"
  ms_evidence_refs :: "string list"
  ms_quality :: data_quality
  ms_content_hash :: string

definition snapshot_error :: "market_snapshot \<Rightarrow> domain_error option" where
  "snapshot_error s = first_error
     [(ms_instruments s = [] \<or> 512 < length (ms_instruments s), OutOfRange),
      (freshness_error (dq_freshness (ms_quality s)) \<noteq> None, NegativeAge),
      (ms_created_at s < ms_as_of s, CreatedBeforeAsOf),
      (list_ex (\<lambda>f. i_value (fv_instrument_id f) \<notin> set (map i_value (ms_instruments s))) (ms_features s),
         FeatureOutsideUniverse)]"

section \<open>evidence.py\<close>

datatype evidence_kind =
    KindPriceTechnical | KindOrderFlow | KindDerivatives | KindOnchain | KindStablecoin | KindEtfFlow
  | KindTokenomics | KindDefi | KindNetworkEvent | KindExchangeEvent | KindSecurityEvent | KindNews
  | KindMacro | KindRegulation | KindGeopolitical | KindSocialAttention | KindRelativeStrength

record news_event =
  ne_published_at :: datetime
  ne_first_seen_at :: datetime

definition news_event_error :: "news_event \<Rightarrow> domain_error option" where
  "news_event_error n = first_error [(ne_first_seen_at n < ne_published_at n, BadTimes)]"

record evidence_item =
  ev_evidence_id :: string
  ev_kind :: evidence_kind
  ev_provider :: string
  ev_instruments :: "instrument_id list"
  ev_assets :: "string list"
  ev_observed_at :: datetime
  ev_ingested_at :: datetime
  ev_quality :: decimal
  ev_news_event :: "news_event option"
  ev_injection_signals :: "string list"
  ev_license_ref :: "string option"

definition evidence_error :: "evidence_item \<Rightarrow> domain_error option" where
  "evidence_error e = first_error
     [(case ev_news_event e of None \<Rightarrow> False | Some n \<Rightarrow> news_event_error n \<noteq> None, BadTimes),
      (ev_ingested_at e < ev_observed_at e, BadTimes),
      (ev_news_event e \<noteq> None \<and> ev_kind e \<noteq> KindNews, BadPayload)]"

section \<open>decision.py\<close>

datatype decision_state = Bullish | Bearish | Neutral | HighRisk | UnknownState

datatype proposed_action = ActBuy | ActSell | ActReduce | ActClose | ActHold | ActNoTrade

fun requires_order :: "proposed_action \<Rightarrow> bool" where
  "requires_order a = (a \<in> {ActBuy, ActSell, ActReduce, ActClose})"

record prediction =
  pr_expected_return_bps :: int
  pr_confidence :: decimal
  pr_uncertainty :: decimal
  pr_horizon_minutes :: int

definition prediction_error :: "prediction \<Rightarrow> domain_error option" where
  "prediction_error p = first_error
     [(pr_expected_return_bps p < -10000 \<or> 10000 < pr_expected_return_bps p, OutOfRange),
      (\<not> (dec_zero \<le> pr_confidence p \<and> pr_confidence p \<le> dec_int 1), OutOfRange),
      (\<not> (dec_zero \<le> pr_uncertainty p \<and> pr_uncertainty p \<le> dec_int 1), OutOfRange),
      (pr_horizon_minutes p < 1 \<or> 100800 < pr_horizon_minutes p, OutOfRange),
      (double_less (round_double 1000001 1000000) (double_sum (pr_confidence p) (pr_uncertainty p)), OverconfidentPrediction)]"

record agent_decision =
  ad_decision_id :: string
  ad_workspace_id :: string
  ad_agent_version_id :: string
  ad_snapshot_id :: string
  ad_instrument_id :: instrument_id
  ad_decided_at :: datetime
  ad_state :: decision_state
  ad_prediction :: prediction
  ad_proposed_action :: proposed_action
  ad_proposed_notional :: "money option"
  ad_evidence_refs :: "string list"
  ad_contradicting_evidence_refs :: "string list"
  ad_estimated_cost_bps :: "decimal option"

definition decision_error :: "agent_decision \<Rightarrow> domain_error option" where
  "decision_error d = first_error
     [(prediction_error (ad_prediction d) \<noteq> None, OutOfRange),
      (requires_order (ad_proposed_action d) \<and>
         (case ad_proposed_notional d of None \<Rightarrow> True | Some m \<Rightarrow> is_zero (m_amount m)), TradeWithoutNotional),
      (requires_order (ad_proposed_action d) \<and>
         (case ad_proposed_notional d of None \<Rightarrow> False | Some m \<Rightarrow> is_negative (m_amount m)), NotionalNotPositive),
      (\<not> requires_order (ad_proposed_action d) \<and>
         (case ad_proposed_notional d of None \<Rightarrow> False | Some m \<Rightarrow> \<not> is_zero (m_amount m)), AbstentionWithNotional),
      (ad_state d = UnknownState \<and> requires_order (ad_proposed_action d), UnknownStateTrades),
      (list_ex (\<lambda>r. r \<in> set (ad_contradicting_evidence_refs d)) (ad_evidence_refs d), EvidenceOverlap)]"

section \<open>kavrigo\_runtime: allocations and eligible evidence\<close>

record allocation =
  al_decision_id :: string
  al_instrument_id :: instrument_id
  al_requested_notional :: money
  al_allocated_notional :: money
  al_reason_codes :: "string list"

definition allocation_error :: "allocation \<Rightarrow> domain_error option" where
  "allocation_error a = first_error
     [(m_currency (al_requested_notional a) \<noteq> m_currency (al_allocated_notional a), CurrencyMismatch),
      (\<not> (dec_zero \<le> m_amount (al_allocated_notional a) \<and>
          m_amount (al_allocated_notional a) \<le> m_amount (al_requested_notional a)), MayOnlyReduce)]"

text \<open>The table \<open>_PACKS\<close> of \<open>validation.py\<close>.\<close>

fun pack_of :: "evidence_kind \<Rightarrow> data_pack" where
  "pack_of KindPriceTechnical = PackPriceTechnical"
| "pack_of KindOrderFlow = PackMicrostructure"
| "pack_of KindDerivatives = PackDerivatives"
| "pack_of KindOnchain = PackOnchainCore"
| "pack_of KindStablecoin = PackStablecoins"
| "pack_of KindEtfFlow = PackEtfFlows"
| "pack_of KindTokenomics = PackTokenomics"
| "pack_of KindDefi = PackDefi"
| "pack_of KindNetworkEvent = PackOnchainCore"
| "pack_of KindExchangeEvent = PackNews"
| "pack_of KindSecurityEvent = PackSecurityEvents"
| "pack_of KindNews = PackNews"
| "pack_of KindMacro = PackMacro"
| "pack_of KindRegulation = PackNews"
| "pack_of KindGeopolitical = PackMacro"
| "pack_of KindSocialAttention = PackSocialAttention"
| "pack_of KindRelativeStrength = PackRelativeStrength"

definition eligible_evidence :: "evidence_item list \<Rightarrow> agent_version \<Rightarrow> evidence_item list" where
  "eligible_evidence evidence version =
     sort_key ev_evidence_id
       (filter (\<lambda>e. pack_of (ev_kind e) \<in> set (sp_data_packs (av_spec version)) \<and>
                    er_min_source_quality (sp_evidence (av_spec version)) \<le> ev_quality e \<and>
                    ev_injection_signals e = []) evidence)"

lemma eligible_evidence_clean:
  "e \<in> set (eligible_evidence evidence version) \<Longrightarrow> e \<in> set evidence \<and> ev_injection_signals e = []"
  by (simp add: eligible_evidence_def)

end
