(* ===== verification/DomainRisk.thy ===== *)
theory DomainRisk
  imports DomainAgent
begin

text \<open>
  \<open>kavrigo_domain/risk.py\<close>: reason codes, the limit hierarchy, policies and the \<open>RiskEvaluation\<close>
  contract, whose validator is what every result of the evaluator has to pass.
\<close>

datatype (plugins only: code size) reason_code =
    R_APPROVED | R_APPROVED_RESIZED
  | R_STALE_DATA | R_MISSING_DATA_FAMILY | R_DATA_QUALITY_BELOW_MINIMUM | R_UNKNOWN_ACCOUNT_STATE
  | R_RECONCILIATION_STALE | R_EXCHANGE_CONNECTIVITY_DEGRADED | R_CREDENTIAL_STATUS_UNCERTAIN
  | R_UNSUPPORTED_SYMBOL | R_UNSUPPORTED_INSTRUMENT_CLASS | R_SPREAD_TOO_WIDE | R_INSUFFICIENT_LIQUIDITY
  | R_EDGE_BELOW_COST_PLUS_MARGIN | R_BELOW_MINIMUM_ORDER_SIZE
  | R_MAX_POSITION_EXCEEDED | R_MAX_GROSS_EXPOSURE_EXCEEDED | R_PORTFOLIO_CONCENTRATION_EXCEEDED
  | R_NETWORK_CONCENTRATION_EXCEEDED | R_MAX_OPEN_POSITIONS_EXCEEDED | R_INSUFFICIENT_CASH
  | R_DAILY_LOSS_LIMIT_REACHED | R_DRAWDOWN_CIRCUIT_BREAKER | R_KILL_SWITCH_ACTIVE
  | R_AGENT_VERSION_NOT_APPROVED | R_MODE_NOT_PERMITTED | R_LIVE_TRADING_DISABLED
  | R_SCHEDULED_EVENT_RISK | R_EVIDENCE_REQUIREMENTS_NOT_MET | R_DUPLICATE_INTENT
  | R_POLICY_VERSION_MISMATCH | R_INTENT_EXPIRED | R_CONTEXT_MISMATCH | R_UNSUPPORTED_ORDER_TYPE
  | R_EXECUTION_LEASE_EXPIRED | R_UNSUPPORTED_PRECISION | R_MAX_ORDER_EXCEEDED

datatype risk_scope =
  ScopeGlobal | ScopeWorkspace | ScopePortfolio | ScopeNetwork | ScopeAgent | ScopeAsset | ScopeOrder

text \<open>
  \<open>_SCOPES.index(scope)\<close>: the position in the hierarchy, most general first. The type is ordered by
  it, so that \<open>sorted(policies, key=lambda p: (_SCOPES.index(p.scope), p.risk_policy_id))\<close> is
  \<open>sort_key\<close> over the pair.
\<close>

fun scope_index :: "risk_scope \<Rightarrow> nat" where
  "scope_index ScopeGlobal = 0"
| "scope_index ScopeWorkspace = 1"
| "scope_index ScopePortfolio = 2"
| "scope_index ScopeNetwork = 3"
| "scope_index ScopeAgent = 4"
| "scope_index ScopeAsset = 5"
| "scope_index ScopeOrder = 6"

lemma scope_index_inject: "scope_index s = scope_index t \<longleftrightarrow> s = t"
  by (cases s; cases t) simp_all

instantiation risk_scope :: linorder
begin

definition less_eq_risk_scope :: "risk_scope \<Rightarrow> risk_scope \<Rightarrow> bool" where
  "less_eq_risk_scope s t \<longleftrightarrow> scope_index s \<le> scope_index t"

definition less_risk_scope :: "risk_scope \<Rightarrow> risk_scope \<Rightarrow> bool" where
  "less_risk_scope s t \<longleftrightarrow> scope_index s < scope_index t"

instance
  by standard (auto simp: less_eq_risk_scope_def less_risk_scope_def scope_index_inject)

end

record risk_execution_policy =
  xp_execution_policy_id :: string
  xp_version :: string
  xp_fee_bps :: decimal
  xp_slippage_bps :: decimal
  xp_notional_increment_usd :: decimal
  xp_max_snapshot_age_ms :: int
  xp_max_portfolio_age_ms :: int
  xp_max_reconciliation_age_ms :: int
  xp_max_market_age_ms :: int
  xp_max_approval_age_ms :: int

definition bps_ok :: "decimal \<Rightarrow> bool" where
  "bps_ok d \<longleftrightarrow> dec_zero \<le> d \<and> d \<le> dec_int 10000"

definition percent_ok :: "decimal \<Rightarrow> bool" where
  "percent_ok d \<longleftrightarrow> dec_zero \<le> d \<and> d \<le> dec_int 100"

definition duration_ok :: "int \<Rightarrow> bool" where
  "duration_ok n \<longleftrightarrow> 1 \<le> n \<and> n \<le> 86400000"

definition execution_policy_error :: "risk_execution_policy \<Rightarrow> domain_error option" where
  "execution_policy_error x = first_error
     [(\<not> bps_ok (xp_fee_bps x), OutOfRange), (\<not> bps_ok (xp_slippage_bps x), OutOfRange),
      (xp_notional_increment_usd x \<le> dec_zero, OutOfRange),
      (\<not> duration_ok (xp_max_snapshot_age_ms x), OutOfRange),
      (\<not> duration_ok (xp_max_portfolio_age_ms x), OutOfRange),
      (\<not> duration_ok (xp_max_reconciliation_age_ms x), OutOfRange),
      (\<not> duration_ok (xp_max_market_age_ms x), OutOfRange),
      (\<not> duration_ok (xp_max_approval_age_ms x), OutOfRange)]"

record freshness_policy =
  fp_max_age_ms :: "(data_family \<times> int) list"
  fp_required_families :: "data_family list"
  fp_min_data_quality :: decimal

record event_risk_policy =
  ep_block_before_macro_minutes :: int
  ep_block_after_macro_minutes :: int

record risk_limits =
  rl_max_gross_exposure_pct :: decimal
  rl_max_single_asset_exposure_pct :: decimal
  rl_max_network_exposure_pct :: decimal
  rl_max_open_positions :: int
  rl_max_daily_loss_pct :: decimal
  rl_max_drawdown_pct :: decimal
  rl_min_liquidity_usd :: decimal
  rl_max_spread_bps :: int
  rl_min_order_notional_usd :: decimal
  rl_max_order_notional_usd :: decimal
  rl_min_edge_over_cost_bps :: int

definition risk_limits_error :: "risk_limits \<Rightarrow> domain_error option" where
  "risk_limits_error l = first_error
     [(\<not> percent_ok (rl_max_gross_exposure_pct l), OutOfRange),
      (\<not> percent_ok (rl_max_single_asset_exposure_pct l), OutOfRange),
      (\<not> percent_ok (rl_max_network_exposure_pct l), OutOfRange),
      (rl_max_open_positions l < 0 \<or> 1000 < rl_max_open_positions l, OutOfRange),
      (\<not> percent_ok (rl_max_daily_loss_pct l), OutOfRange),
      (\<not> percent_ok (rl_max_drawdown_pct l), OutOfRange),
      (rl_max_spread_bps l < 0 \<or> 10000 < rl_max_spread_bps l, OutOfRange),
      (rl_min_edge_over_cost_bps l < 0 \<or> 10000 < rl_min_edge_over_cost_bps l, OutOfRange),
      (rl_max_gross_exposure_pct l < rl_max_single_asset_exposure_pct l, SingleAboveGross),
      (rl_max_order_notional_usd l < rl_min_order_notional_usd l, MinAboveMax),
      (is_negative (rl_min_liquidity_usd l), NegativeLimit),
      (is_negative (rl_min_order_notional_usd l), NegativeLimit),
      (is_negative (rl_max_order_notional_usd l), NegativeLimit)]"

record risk_policy =
  rp_risk_policy_id :: string
  rp_workspace_id :: "string option"
  rp_version :: int
  rp_scope :: risk_scope
  rp_limits :: risk_limits
  rp_freshness :: freshness_policy
  rp_event_risk :: event_risk_policy
  rp_created_at :: datetime
  rp_content_hash :: string

definition risk_policy_error :: "risk_policy \<Rightarrow> domain_error option" where
  "risk_policy_error p = first_error
     [(risk_limits_error (rp_limits p) \<noteq> None, OutOfRange),
      (rp_version p < 1, OutOfRange),
      (list_ex (\<lambda>(family, age). age < 0) (fp_max_age_ms (rp_freshness p)), NegativeAge),
      (ep_block_before_macro_minutes (rp_event_risk p) < 0 \<or> 1440 < ep_block_before_macro_minutes (rp_event_risk p), OutOfRange),
      (ep_block_after_macro_minutes (rp_event_risk p) < 0 \<or> 1440 < ep_block_after_macro_minutes (rp_event_risk p), OutOfRange)]"

datatype risk_decision = DApproved | DApprovedResized | DRejected

record risk_evaluation =
  re_risk_evaluation_id :: string
  re_order_intent_id :: string
  re_decision_id :: string
  re_workspace_id :: string
  re_evaluated_at :: datetime
  re_decision :: risk_decision
  re_reason_codes :: "reason_code list"
  re_applied_policy_ids :: "string list"
  re_binding_scope :: "risk_scope option"
  re_requested_notional :: money
  re_approved_notional :: money

definition risk_evaluation_error :: "risk_evaluation \<Rightarrow> domain_error option" where
  "risk_evaluation_error e =
     (let requested = m_amount (re_requested_notional e); approved = m_amount (re_approved_notional e) in first_error
       [(re_reason_codes e = [] \<or> 32 < length (re_reason_codes e), OutOfRange),
        (re_applied_policy_ids e = [] \<or> 16 < length (re_applied_policy_ids e), OutOfRange),
        (m_currency (re_approved_notional e) \<noteq> m_currency (re_requested_notional e), CurrencyMismatch),
        (is_negative approved, NegativeApproval),
        (requested < approved, ApprovesMoreThanRequested),
        (re_decision e = DRejected \<and> \<not> is_zero approved, RejectedNonZero),
        (re_decision e = DRejected \<and> R_APPROVED \<in> set (re_reason_codes e), RejectedCarriesApproved),
        (re_decision e \<noteq> DRejected \<and> is_zero approved, ApprovedZero),
        (re_decision e = DApprovedResized \<and> requested \<le> approved, ResizedNotSmaller),
        (re_decision e = DApproved \<and> \<not> dec_eq approved requested, ApprovedNotFull)])"

definition is_approved :: "risk_evaluation \<Rightarrow> bool" where
  "is_approved e \<longleftrightarrow> re_decision e \<in> {DApproved, DApprovedResized}"

text \<open>Limits of a constructible policy, in fixed-point units.\<close>

lemma percent_units: "percent_ok d \<Longrightarrow> units d = Some u \<Longrightarrow> 0 \<le> u"
  by (simp add: percent_ok_def units_sign)

lemma bps_units: "bps_ok d \<Longrightarrow> units d = Some u \<Longrightarrow> 0 \<le> u \<and> u \<le> BPS_DENOMINATOR"
proof -
  assume d: "bps_ok d" "units d = Some u"
  have "units (dec_int 10000) = Some (10000 * SCALE)"
    by (rule units_dec_int) (simp add: SCALE_def MAX_UNITS_def)
  then show ?thesis using d units_le[of d u "dec_int 10000"]
    by (simp add: bps_ok_def units_sign BPS_DENOMINATOR_def)
qed

end
