(* ===== verification/RiskContracts.thy ===== *)
theory RiskContracts
  imports DomainRisk
begin

text \<open>
  \<open>kavrigo_risk/contracts.py\<close>: the trusted registration of an agent with its policies, the
  supervisor's controls, the frozen request and the records the service hands out.

  \<open>content_hash\<close> (SHA-256 of canonical JSON) is a parameter \<open>H\<close> of every definition that hashes:
  its argument is a \<open>risk_artefact\<close>, which says what is hashed. Nothing is assumed of it; where a
  result needs two artefacts to have different hashes, that is a hypothesis of the theorem.
\<close>

section \<open>Controls and market\<close>

text \<open>\<open>Name\<close>, \<open>^[A-Za-z0-9_.:-]{1,128}$\<close>.\<close>

definition risk_name_char :: "char \<Rightarrow> bool" where
  "risk_name_char c \<longleftrightarrow> (CHR ''A'' \<le> c \<and> c \<le> CHR ''Z'') \<or> (CHR ''a'' \<le> c \<and> c \<le> CHR ''z'') \<or>
     (CHR ''0'' \<le> c \<and> c \<le> CHR ''9'') \<or> c \<in> {CHR ''_'', CHR ''.'', CHR '':'', CHR ''-''}"

definition risk_name_ok :: "string \<Rightarrow> bool" where
  "risk_name_ok s \<longleftrightarrow> s \<noteq> [] \<and> length s \<le> 128 \<and> list_all risk_name_char s"

datatype kill_switch = KillGlobal | KillWorkspace | KillAccount | KillAgent | KillAsset | KillRiskClass

record risk_controls =
  rc_workspace_id :: string
  rc_account_id :: string
  rc_version :: int
  rc_as_of :: datetime
  rc_valid_until :: datetime
  rc_account_known :: bool
  rc_connectivity_ok :: bool
  rc_event_calendar_known :: bool
  rc_active_kills :: "kill_switch list"
  rc_blocked_agent_versions :: "string list"
  rc_macro_events :: "datetime list"
  rc_fencing_token :: int
  rc_lease_expires_at :: datetime

definition risk_controls_error :: "risk_controls \<Rightarrow> domain_error option" where
  "risk_controls_error c = first_error
     [(\<not> risk_name_ok (rc_account_id c), BadPattern),
      (rc_version c < 1, OutOfRange),
      (128 < length (rc_macro_events c), OutOfRange),
      (rc_fencing_token c < 1, OutOfRange),
      (min (rc_valid_until c) (rc_lease_expires_at c) \<le> rc_as_of c, EmptyWindow)]"

record risk_market =
  rm_book :: book_ticker
  rm_liquidity_usd :: decimal
  rm_observed_at :: datetime

record risk_request =
  rq_intent :: order_intent
  rq_decision :: agent_decision
  rq_allocation :: allocation
  rq_snapshot :: market_snapshot
  rq_evidence :: "evidence_item list"
  rq_market :: risk_market

section \<open>Registration\<close>

record risk_registration =
  rr_agent_version :: agent_version
  rr_policies :: "risk_policy list"
  rr_execution :: risk_execution_policy
  rr_networks :: "(string \<times> string) list"

text \<open>What the evaluator holds back for an approval (\<open>evaluator.py\<close>, \<open>Reservation\<close>).\<close>

record reservation =
  rs_intent_id :: string
  rs_instrument :: string
  rs_asset :: string
  rs_network :: string
  rs_buy_notional :: int
  rs_sell_quantity :: int
  rs_cash_debit :: int
  rs_cost :: int

record risk_record =
  rd_evaluation :: risk_evaluation
  rd_account_id :: string
  rd_request_hash :: string
  rd_portfolio_hash :: string
  rd_registration_hash :: string
  rd_controls_hash :: string
  rd_reservations_hash :: string
  rd_expires_at :: datetime
  rd_max_quantity :: quantity
  rd_max_cash_debit :: money

record paper_risk_permit =
  pp_account_id :: string
  pp_approval :: approved_order_intent
  pp_record :: risk_record
  pp_execution :: risk_execution_policy

datatype risk_artefact =
    HSpec agent_spec
  | HPolicy risk_policy
  | HPolicies "risk_policy list"
  | HSnapshot market_snapshot
  | HRequest risk_request
  | HPortfolio portfolio_snapshot
  | HRegistration risk_registration
  | HControls risk_controls
  | HReservations "reservation list"
  | HIdentity string string string string string datetime
  | HRecord risk_record
  | HPermit paper_risk_permit
  | HClientOrder string string string

definition policy_hash :: "(risk_artefact \<Rightarrow> string) \<Rightarrow> risk_policy \<Rightarrow> string" where
  "policy_hash H policy = H (HPolicy (policy\<lparr>rp_content_hash := ''''\<rparr>))"

definition snapshot_hash :: "(risk_artefact \<Rightarrow> string) \<Rightarrow> market_snapshot \<Rightarrow> string" where
  "snapshot_hash H snapshot = H (HSnapshot (snapshot\<lparr>ms_content_hash := ''''\<rparr>))"

definition policy_binding_error ::
    "(risk_artefact \<Rightarrow> string) \<Rightarrow> agent_version \<Rightarrow> risk_policy \<Rightarrow> domain_error option" where
  "policy_binding_error H version p = first_error
     [(rp_workspace_id p \<noteq> (if rp_scope p = ScopeGlobal then None else Some (av_workspace_id version)), WorkspaceMismatch),
      (rp_content_hash p \<noteq> policy_hash H p, HashMismatch),
      (fp_required_families (rp_freshness p) = [], MissingFamilies),
      (list_ex (\<lambda>f. map_of (fp_max_age_ms (rp_freshness p)) f = None) (fp_required_families (rp_freshness p)), MissingFreshness)]"

text \<open>The first policy that does not fit, in the order of the tuple.\<close>

fun first_policy_error ::
    "(risk_artefact \<Rightarrow> string) \<Rightarrow> agent_version \<Rightarrow> risk_policy list \<Rightarrow> domain_error option" where
  "first_policy_error H version [] = None"
| "first_policy_error H version (p # ps) =
     (case policy_binding_error H version p of Some e \<Rightarrow> Some e | None \<Rightarrow> first_policy_error H version ps)"

definition registration_error :: "(risk_artefact \<Rightarrow> string) \<Rightarrow> risk_registration \<Rightarrow> domain_error option" where
  "registration_error H r =
     (let version = rr_agent_version r; policies = rr_policies r; scopes = set (map rp_scope policies) in
      case first_error
        [(length policies < 3 \<or> 16 < length policies, OutOfRange),
         (list_ex (\<lambda>p. risk_policy_error p \<noteq> None) policies, OutOfRange),
         (execution_policy_error (rr_execution r) \<noteq> None, OutOfRange),
         (agent_spec_error (av_spec version) \<noteq> None, OutOfRange),
         (list_ex (\<lambda>(k, n). \<not> risk_name_ok n) (rr_networks r), BadPattern),
         (av_spec_hash version \<noteq> H (HSpec (av_spec version)), HashMismatch),
         (sp_execution_policy_ref (av_spec version) \<noteq> xp_execution_policy_id (rr_execution r), ReferenceMismatch),
         (\<not> distinct (map rp_risk_policy_id policies), DuplicatePolicy),
         (\<not> {ScopeGlobal, ScopeWorkspace, ScopeAgent} \<subseteq> scopes, MissingScope),
         (\<not> list_ex (\<lambda>p. rp_risk_policy_id p = sp_risk_policy_ref (av_spec version) \<and> rp_scope p = ScopeAgent) policies,
            ReferenceMismatch)]
      of Some e \<Rightarrow> Some e
       | None \<Rightarrow> (case first_policy_error H version policies of
           Some e \<Rightarrow> Some e
         | None \<Rightarrow> first_error
             [(list_ex (\<lambda>i. map_of (rr_networks r) (i_value i) = None) (un_instruments (sp_universe (av_spec version))),
               MissingNetwork)]))"

text \<open>What a constructible registration guarantees.\<close>

lemma first_policy_errorD:
  "first_policy_error H v ps = None \<Longrightarrow> p \<in> set ps \<Longrightarrow> policy_binding_error H v p = None"
  by (induction ps) (auto split: option.splits)

lemma registration_policies:
  assumes "registration_error H r = None"
  shows "3 \<le> length (rr_policies r)" "length (rr_policies r) \<le> 16" "rr_policies r \<noteq> []"
    "\<And>p. p \<in> set (rr_policies r) \<Longrightarrow> risk_policy_error p = None"
    "distinct (map rp_risk_policy_id (rr_policies r))"
  using assms
  by (auto simp: registration_error_def Let_def list_ex_iff split: option.splits if_splits)

lemma registration_execution:
  "registration_error H r = None \<Longrightarrow> execution_policy_error (rr_execution r) = None"
  by (auto simp: registration_error_def Let_def split: option.splits if_splits)

lemma registration_scopes:
  "registration_error H r = None \<Longrightarrow>
   {ScopeGlobal, ScopeWorkspace, ScopeAgent} \<subseteq> rp_scope ` set (rr_policies r)"
  by (auto simp: registration_error_def Let_def split: option.splits if_splits)

lemma registration_networks:
  "registration_error H r = None \<Longrightarrow> i \<in> set (un_instruments (sp_universe (av_spec (rr_agent_version r)))) \<Longrightarrow>
   \<exists>n. map_of (rr_networks r) (i_value i) = Some n"
  by (fastforce simp: registration_error_def Let_def list_ex_iff split: option.splits if_splits)

lemma registration_policy_binding:
  "registration_error H r = None \<Longrightarrow> p \<in> set (rr_policies r) \<Longrightarrow>
   policy_binding_error H (rr_agent_version r) p = None"
  by (auto simp: registration_error_def Let_def split: option.splits if_splits dest: first_policy_errorD)

text \<open>The limits of a constructible policy are non-negative in fixed-point units.\<close>

lemma policy_limits_ok:
  assumes "risk_policy_error p = None"
  shows "percent_ok (rl_max_gross_exposure_pct (rp_limits p))"
    "percent_ok (rl_max_single_asset_exposure_pct (rp_limits p))"
    "percent_ok (rl_max_network_exposure_pct (rp_limits p))"
    "percent_ok (rl_max_daily_loss_pct (rp_limits p))"
    "percent_ok (rl_max_drawdown_pct (rp_limits p))"
    "\<not> is_negative (rl_max_order_notional_usd (rp_limits p))"
    "\<not> is_negative (rl_min_order_notional_usd (rp_limits p))"
  using assms by (auto simp: risk_policy_error_def risk_limits_error_def split: if_splits)

section \<open>Audit events\<close>

datatype audit_kind = Evaluated | ControlsUpdated | Handoff

datatype audit_outcome =
  OutApproved | OutApprovedResized | OutRejected | OutUpdated | OutExpired | OutRecheckRejected | OutHandedOff

fun outcome_of :: "risk_decision \<Rightarrow> audit_outcome" where
  "outcome_of DApproved = OutApproved"
| "outcome_of DApprovedResized = OutApprovedResized"
| "outcome_of DRejected = OutRejected"

record risk_audit_event =
  ae_sequence :: int
  ae_workspace_id :: string
  ae_account_id :: string
  ae_occurred_at :: datetime
  ae_kind :: audit_kind
  ae_outcome :: audit_outcome
  ae_artefact_hash :: string
  ae_controls_hash :: string
  ae_reason_codes :: "reason_code list"

end
