(* ===== verification/RiskEvaluator.thy ===== *)
theory RiskEvaluator
  imports RiskContracts
begin

text \<open>
  \<open>kavrigo_risk/evaluator.py\<close>: the pure checks and the conservative integer sizing. A \<open>ValueError\<close>
  raised while sizing is caught by the code, which keeps the reasons collected so far; the sizing
  therefore returns its reasons together with a result that may be an exception. A failed
  dictionary lookup (\<open>KeyError\<close>) and an \<open>EvaluationRequest\<close> that Pydantic refuses are not caught
  there and leave \<open>evaluate\<close>.
\<close>

datatype risk_exn = ValueError | KeyError | ZeroDivision | RequestInvalid

definition age_ms :: "datetime \<Rightarrow> datetime \<Rightarrow> int" where
  "age_ms now before = ceil_div (now - before) 1000"

lemma age_ms_le_iff: "age_ms now t \<le> n \<longleftrightarrow> now - t \<le> ms n"
  by (simp add: age_ms_def ceil_div_le_iff ms_def)

section \<open>The account behind the portfolio\<close>

record account =
  acc_cash :: int
  acc_equity :: int
  acc_exposure :: int
  acc_asset_exposure :: "(string \<times> int) list"
  acc_network_exposure :: "(string \<times> int) list"
  acc_quantities :: "(string \<times> int) list"
  acc_open_assets :: "string set"
  acc_losses :: int
  acc_peak :: int

text \<open>The body of the first loop; \<open>None\<close> is \<open>ValueError("unknown position valuation")\<close>.\<close>

definition position_step ::
    "(string \<times> string) list \<Rightarrow> position \<Rightarrow> account \<Rightarrow> account option" where
  "position_step networks p a =
     (let i = pos_instrument_id p in
      case pos_mark_price p of None \<Rightarrow> None | Some mark \<Rightarrow>
      case map_of networks (i_value i) of None \<Rightarrow> None | Some network \<Rightarrow>
      if i_class i \<noteq> Spot \<or> i_quote i \<noteq> ''USD'' \<or> (p_base mark, p_quote mark) \<noteq> (i_base i, ''USD'') \<or>
         is_negative (q_value (pos_quantity p))
      then None
      else do {
        q \<leftarrow> units (q_value (pos_quantity p));
        m \<leftarrow> units (p_value mark);
        v \<leftarrow> product q m;
        Some (a\<lparr>acc_exposure := acc_exposure a + v,
                acc_asset_exposure := add_at (i_base i) v (acc_asset_exposure a),
                acc_network_exposure := add_at network v (acc_network_exposure a),
                acc_quantities := AList.update (i_value i) q (acc_quantities a)\<rparr>)
      })"

fun positions_loop :: "(string \<times> string) list \<Rightarrow> position list \<Rightarrow> account \<Rightarrow> account option" where
  "positions_loop networks [] a = Some a"
| "positions_loop networks (p # ps) a =
     (case position_step networks p a of None \<Rightarrow> None | Some b \<Rightarrow> positions_loop networks ps b)"

definition reserve_step :: "account \<Rightarrow> reservation \<Rightarrow> account" where
  "reserve_step a r =
     a\<lparr>acc_cash := acc_cash a - rs_cash_debit r,
       acc_equity := acc_equity a - rs_cost r,
       acc_exposure := acc_exposure a + rs_buy_notional r,
       acc_asset_exposure := add_at (rs_asset r) (rs_buy_notional r) (acc_asset_exposure a),
       acc_network_exposure := add_at (rs_network r) (rs_buy_notional r) (acc_network_exposure a),
       acc_quantities := add_at (rs_instrument r) (- rs_sell_quantity r) (acc_quantities a),
       acc_open_assets := (if rs_buy_notional r \<noteq> 0 then insert (rs_asset r) (acc_open_assets a) else acc_open_assets a)\<rparr>"

definition empty_account :: account where
  "empty_account = \<lparr>acc_cash = 0, acc_equity = 0, acc_exposure = 0, acc_asset_exposure = [],
     acc_network_exposure = [], acc_quantities = [], acc_open_assets = {}, acc_losses = 0, acc_peak = 0\<rparr>"

definition account_state ::
    "portfolio_snapshot \<Rightarrow> (string \<times> string) list \<Rightarrow> reservation list \<Rightarrow> account option" where
  "account_state portfolio networks reservations = do {
     a \<leftarrow> positions_loop networks (pf_positions portfolio) empty_account;
     cash \<leftarrow> units (m_amount (pf_cash portfolio));
     equity \<leftarrow> units (m_amount (pf_equity portfolio));
     gross \<leftarrow> units (m_amount (pf_gross_exposure portfolio));
     net \<leftarrow> units (m_amount (pf_net_exposure portfolio));
     pnl \<leftarrow> units (m_amount (pf_realized_pnl_today portfolio));
     peak \<leftarrow> units (m_amount (pf_peak_equity portfolio));
     if pf_base_currency portfolio \<noteq> ''USD'' \<or> cash < 0 \<or> equity \<le> 0 \<or> equity \<noteq> cash + acc_exposure a \<or>
        gross \<noteq> acc_exposure a \<or> net \<noteq> acc_exposure a \<or> pf_open_order_count portfolio \<noteq> 0 \<or>
        \<not> is_zero (m_amount (pf_reserved_cash portfolio))
     then None
     else let opened = a\<lparr>acc_cash := cash, acc_equity := equity,
                acc_open_assets := set (map fst (filter (\<lambda>(asset, v). 0 < v) (acc_asset_exposure a)))\<rparr>
          in Some ((foldl reserve_step opened reservations)
               \<lparr>acc_losses := max 0 (- pnl) + sum_list (map rs_cost reservations), acc_peak := peak\<rparr>)
   }"

section \<open>Reasons of the context\<close>

text \<open>
  \<open>Name\<close> of the model gateway, \<open>^[a-z][a-z0-9_.-]{0,63}$\<close>: the type of \<open>idempotency_key\<close> in the
  \<open>EvaluationRequest\<close> that \<open>_context_reasons\<close> builds, which is narrower than the 8 to 128
  characters an \<open>OrderIntent\<close> allows.
\<close>

definition lower_char :: "char \<Rightarrow> bool" where
  "lower_char c \<longleftrightarrow> CHR ''a'' \<le> c \<and> c \<le> CHR ''z''"

definition name_char :: "char \<Rightarrow> bool" where
  "name_char c \<longleftrightarrow> lower_char c \<or> (CHR ''0'' \<le> c \<and> c \<le> CHR ''9'') \<or> c \<in> {CHR ''_'', CHR ''.'', CHR ''-''}"

definition gateway_name_ok :: "string \<Rightarrow> bool" where
  "gateway_name_ok s \<longleftrightarrow> s \<noteq> [] \<and> length s \<le> 64 \<and> lower_char (hd s) \<and> list_all name_char s"

definition cycle_ok :: "risk_request \<Rightarrow> bool" where
  "cycle_ok r \<longleftrightarrow> gateway_name_ok (oi_idempotency_key (rq_intent r)) \<and>
     1 \<le> pr_horizon_minutes (ad_prediction (rq_decision r)) \<and>
     pr_horizon_minutes (ad_prediction (rq_decision r)) \<le> 100800 \<and> length (rq_evidence r) \<le> 512"

definition when_reason :: "bool \<Rightarrow> reason_code \<Rightarrow> reason_code list" where
  "when_reason c r = (if c then [r] else [])"

definition context_mismatch ::
    "(risk_artefact \<Rightarrow> string) \<Rightarrow> risk_request \<Rightarrow> risk_registration \<Rightarrow> portfolio_snapshot \<Rightarrow> datetime \<Rightarrow> bool" where
  "context_mismatch H request registration portfolio now =
     (let intent = rq_intent request; decision = rq_decision request; allocation = rq_allocation request;
          snapshot = rq_snapshot request; version = rr_agent_version registration in
      oi_workspace_id intent \<noteq> pf_workspace_id portfolio
      \<or> oi_workspace_id intent \<noteq> av_workspace_id version
      \<or> ad_workspace_id decision \<noteq> oi_workspace_id intent
      \<or> ad_agent_version_id decision \<noteq> av_agent_version_id version
      \<or> oi_agent_version_id intent \<noteq> av_agent_version_id version
      \<or> oi_decision_id intent \<noteq> ad_decision_id decision
      \<or> al_decision_id allocation \<noteq> ad_decision_id decision
      \<or> al_instrument_id allocation \<noteq> oi_instrument_id intent
      \<or> ad_instrument_id decision \<noteq> oi_instrument_id intent
      \<or> ad_snapshot_id decision \<noteq> ms_snapshot_id snapshot
      \<or> bt_instrument_id (rm_book (rq_market request)) \<noteq> oi_instrument_id intent
      \<or> ms_content_hash snapshot \<noteq> snapshot_hash H snapshot
      \<or> (case ad_proposed_notional decision of None \<Rightarrow> True
          | Some m \<Rightarrow> \<not> money_eq m (al_requested_notional allocation))
      \<or> m_currency (oi_notional intent) \<noteq> m_currency (al_allocated_notional allocation)
      \<or> m_amount (al_allocated_notional allocation) < m_amount (oi_notional intent)
      \<or> \<not> requires_order (ad_proposed_action decision)
      \<or> (oi_side intent = Buy) \<noteq> (ad_proposed_action decision = ActBuy)
      \<or> \<not> (ms_as_of snapshot \<le> ad_decided_at decision \<and> ad_decided_at decision \<le> oi_created_at intent \<and>
           oi_created_at intent \<le> now)
      \<or> now < ms_created_at snapshot)"

definition in_age :: "datetime \<Rightarrow> datetime \<Rightarrow> int \<Rightarrow> bool" where
  "in_age now stamp limit \<longleftrightarrow> 0 \<le> age_ms now stamp \<and> age_ms now stamp \<le> limit"

text \<open>Lines 159-201: the intent, the agent version, the controls and the portfolio.\<close>

definition authority_reasons ::
    "risk_request \<Rightarrow> risk_registration \<Rightarrow> portfolio_snapshot \<Rightarrow> risk_controls \<Rightarrow> datetime \<Rightarrow> reason_code list" where
  "authority_reasons request registration portfolio controls now =
     (let intent = rq_intent request; version = rr_agent_version registration;
          execution = rr_execution registration; snapshot = rq_snapshot request in
      when_reason (is_expired_at intent now) R_INTENT_EXPIRED
      @ when_reason (oi_order_type intent \<noteq> MarketOrder \<or> oi_time_in_force intent \<noteq> IOC) R_UNSUPPORTED_ORDER_TYPE
      @ when_reason (oi_mode intent \<notin> {Paper, Backtest} \<or> oi_mode intent \<noteq> pf_mode portfolio
                     \<or> oi_mode intent \<noteq> sp_mode (av_spec version)) R_MODE_NOT_PERMITTED
      @ when_reason (oi_instrument_id intent \<notin> set (un_instruments (sp_universe (av_spec version)))
                     \<or> oi_instrument_id intent \<notin> set (ms_instruments snapshot)
                     \<or> i_quote (oi_instrument_id intent) \<noteq> ''USD'') R_UNSUPPORTED_SYMBOL
      @ when_reason (\<not> is_approved_for version ''local''
                     \<or> av_agent_version_id version \<in> set (rc_blocked_agent_versions controls)
                     \<or> now < av_created_at version
                     \<or> list_ex (\<lambda>p. now < rp_created_at p) (rr_policies registration)) R_AGENT_VERSION_NOT_APPROVED
      @ when_reason (rc_active_kills controls \<noteq> []) R_KILL_SWITCH_ACTIVE
      @ when_reason (\<not> rc_account_known controls \<or> \<not> (rc_as_of controls \<le> now \<and> now < rc_valid_until controls))
          R_UNKNOWN_ACCOUNT_STATE
      @ when_reason (rc_lease_expires_at controls \<le> now) R_EXECUTION_LEASE_EXPIRED
      @ when_reason (\<not> rc_connectivity_ok controls) R_EXCHANGE_CONNECTIVITY_DEGRADED
      @ when_reason (\<not> rc_event_calendar_known controls) R_SCHEDULED_EVENT_RISK
      @ when_reason (\<not> pf_is_reconciled portfolio \<or>
           (case pf_reconciled_at portfolio of None \<Rightarrow> True
            | Some t \<Rightarrow> \<not> in_age now t (xp_max_reconciliation_age_ms execution))) R_RECONCILIATION_STALE
      @ when_reason (\<not> in_age now (pf_as_of portfolio) (xp_max_portfolio_age_ms execution)) R_UNKNOWN_ACCOUNT_STATE
      @ when_reason (list_ex (\<lambda>p. case pos_opened_at p of None \<Rightarrow> False | Some t \<Rightarrow> pf_as_of portfolio < t)
           (pf_positions portfolio)) R_UNKNOWN_ACCOUNT_STATE)"

text \<open>Lines 202-221: the market observation and the data quality.\<close>

definition data_reasons :: "risk_request \<Rightarrow> risk_execution_policy \<Rightarrow> datetime \<Rightarrow> reason_code list" where
  "data_reasons request execution now =
     (let market = rq_market request; book = rm_book market; snapshot = rq_snapshot request;
          quality = ms_quality snapshot; fresh = dq_freshness quality;
          times = [rm_observed_at market, bt_received_at book] @
                  (case bt_venue_time book of None \<Rightarrow> [] | Some t \<Rightarrow> [t]) in
      when_reason (rm_observed_at market < bt_received_at book \<or>
           list_ex (\<lambda>stamp. \<not> in_age now stamp (xp_max_market_age_ms execution)) times) R_STALE_DATA
      @ when_reason (\<not> in_age now (ms_as_of snapshot) (xp_max_snapshot_age_ms execution)) R_STALE_DATA
      @ when_reason (\<not> dq_provider_health_ok quality \<or> \<not> dq_sequence_complete quality) R_STALE_DATA
      @ when_reason (fr_stale_families fresh \<noteq> []) R_STALE_DATA
      @ when_reason (fr_missing_families fresh \<noteq> []) R_MISSING_DATA_FAMILY
      @ when_reason (oi_mode (rq_intent request) = Backtest \<and> dq_contains_revised_data quality) R_CONTEXT_MISMATCH)"

text \<open>Lines 222-241: one policy's freshness and event window.\<close>

definition in_event_window :: "risk_policy \<Rightarrow> datetime \<Rightarrow> datetime \<Rightarrow> bool" where
  "in_event_window p now event \<longleftrightarrow>
     event - minutes (ep_block_before_macro_minutes (rp_event_risk p)) \<le> now \<and>
     now \<le> event + minutes (ep_block_after_macro_minutes (rp_event_risk p))"

definition policy_context_reasons ::
    "risk_request \<Rightarrow> risk_controls \<Rightarrow> datetime \<Rightarrow> risk_policy \<Rightarrow> reason_code list" where
  "policy_context_reasons request controls now policy =
     (let quality = ms_quality (rq_snapshot request); fresh = dq_freshness quality;
          elapsed = age_ms now (ms_as_of (rq_snapshot request)); fp = rp_freshness policy in
      when_reason (dq_score quality < fp_min_data_quality fp) R_DATA_QUALITY_BELOW_MINIMUM
      @ concat (map (\<lambda>family. when_reason (age_for fresh family = None) R_MISSING_DATA_FAMILY) (fp_required_families fp))
      @ concat (map (\<lambda>(family, limit). when_reason
           (case age_for fresh family of None \<Rightarrow> False | Some age \<Rightarrow> limit < age + max 0 elapsed) R_STALE_DATA)
           (fp_max_age_ms fp))
      @ when_reason (oi_side (rq_intent request) = Buy \<and>
           list_ex (in_event_window policy now) (rc_macro_events controls)) R_SCHEDULED_EVENT_RISK)"

text \<open>Lines 242-274: the evidence requirements.\<close>

definition usable_evidence :: "risk_request \<Rightarrow> agent_version \<Rightarrow> string set" where
  "usable_evidence request version =
     (let snapshot = rq_snapshot request; instrument = oi_instrument_id (rq_intent request) in
      set (map ev_evidence_id (filter (\<lambda>item.
        ev_ingested_at item \<le> ms_as_of snapshot \<and>
        ev_observed_at item \<le> ms_as_of snapshot \<and>
        (case ev_news_event item of None \<Rightarrow> True | Some n \<Rightarrow> ne_first_seen_at n \<le> ev_ingested_at item) \<and>
        (ev_instruments item = [] \<or> instrument \<in> set (ev_instruments item)) \<and>
        (ev_assets item = [] \<or> i_base instrument \<in> set (ev_assets item)))
        (eligible_evidence (rq_evidence request) version))))"

definition evidence_unmet :: "risk_request \<Rightarrow> agent_version \<Rightarrow> bool" where
  "evidence_unmet request version =
     (let decision = rq_decision request; snapshot = rq_snapshot request; evidence = rq_evidence request;
          refs = ad_evidence_refs decision @ ad_contradicting_evidence_refs decision;
          required = sp_evidence (av_spec version) in
      set (ms_evidence_refs snapshot) \<noteq> set (map ev_evidence_id evidence)
      \<or> length evidence \<noteq> length (remdups (map ev_evidence_id evidence))
      \<or> length refs \<noteq> length (remdups refs)
      \<or> \<not> set refs \<subseteq> usable_evidence request version
      \<or> ad_evidence_refs decision = []
      \<or> int (length refs) < er_min_evidence_items required
      \<or> (er_require_contradicting_evidence required \<and> ad_contradicting_evidence_refs decision = [])
      \<or> pr_horizon_minutes (ad_prediction decision) \<notin> set (an_horizons_minutes (sp_analysis (av_spec version))))"

definition context_reasons ::
    "(risk_artefact \<Rightarrow> string) \<Rightarrow> risk_request \<Rightarrow> risk_registration \<Rightarrow> portfolio_snapshot \<Rightarrow> risk_controls \<Rightarrow>
     datetime \<Rightarrow> risk_exn + reason_code list" where
  "context_reasons H request registration portfolio controls now =
     (let before = when_reason (context_mismatch H request registration portfolio now) R_CONTEXT_MISMATCH
            @ authority_reasons request registration portfolio controls now
            @ data_reasons request (rr_execution registration) now
            @ concat (map (policy_context_reasons request controls now) (rr_policies registration))
      in if \<not> cycle_ok request then Inl RequestInvalid
         else Inr (before @ when_reason (evidence_unmet request (rr_agent_version registration))
                     R_EVIDENCE_REQUIREMENTS_NOT_MET))"

end
