(* ===== verification/RiskSizing.thy ===== *)
theory RiskSizing
  imports RiskEvaluator
begin

text \<open>
  The second half of \<open>kavrigo_risk/evaluator.py\<close>: the size constraints (\<open>violations\<close>), the integer
  search for the largest size that violates none, and \<open>evaluate\<close>, which turns the outcome into a
  record. The variables the inner functions close over are the fields of \<open>sizing_context\<close>.
\<close>

record sizing_context =
  sx_requested :: int
  sx_increment :: int
  sx_fee :: int
  sx_slippage :: int
  sx_bid :: int
  sx_ask :: int
  sx_liquidity :: int
  sx_spread_bps :: int
  sx_buying :: bool
  sx_displayed :: int
  sx_worst_price :: int
  sx_policies :: "risk_policy list"
  sx_account :: account
  sx_equity :: decimal
  sx_instrument :: instrument_id
  sx_networks :: "(string \<times> string) list"

abbreviation unitsE :: "decimal \<Rightarrow> risk_exn + int" where
  "unitsE d \<equiv> of_option ValueError (units d)"

text \<open>\<open>sorted(policies, key=lambda p: (_SCOPES.index(p.scope), p.risk_policy_id))\<close>.\<close>

definition sorted_policies :: "risk_policy list \<Rightarrow> risk_policy list" where
  "sorted_policies ps = sort_key (\<lambda>p. (rp_scope p, rp_risk_policy_id p)) ps"

text \<open>Lines 301-321: everything in units, the spread and the worst price.\<close>

definition sizing_context_of ::
    "risk_request \<Rightarrow> risk_registration \<Rightarrow> portfolio_snapshot \<Rightarrow> (string \<times> string) list \<Rightarrow> account \<Rightarrow>
     risk_exn + sizing_context" where
  "sizing_context_of request registration portfolio networks acc =
     (let intent = rq_intent request; execution = rr_execution registration; book = rm_book (rq_market request) in
      bindE (unitsE (m_amount (oi_notional intent))) (\<lambda>requested.
      bindE (unitsE (xp_notional_increment_usd execution)) (\<lambda>increment.
      bindE (unitsE (xp_fee_bps execution)) (\<lambda>fee.
      bindE (unitsE (xp_slippage_bps execution)) (\<lambda>slippage.
      bindE (unitsE (p_value (bt_bid_price book))) (\<lambda>bid.
      bindE (unitsE (p_value (bt_ask_price book))) (\<lambda>ask.
      bindE (unitsE (rm_liquidity_usd (rq_market request))) (\<lambda>liquidity.
      if ask + bid = 0 then Inl ZeroDivision else
      let spread_bps = ceil_div (20000 * SCALE * (ask - bid)) (ask + bid); buying = (oi_side intent = Buy) in
      bindE (unitsE (q_value (if buying then bt_ask_size book else bt_bid_size book))) (\<lambda>displayed.
      let worst_price = (if buying then ceil_div (ask * (BPS_DENOMINATOR + slippage)) BPS_DENOMINATOR
                         else bid * (BPS_DENOMINATOR - slippage) div BPS_DENOMINATOR) in
      if increment \<le> 0 \<or> worst_price \<le> 0 then Inl ValueError else
      Inr \<lparr>sx_requested = requested, sx_increment = increment, sx_fee = fee, sx_slippage = slippage,
           sx_bid = bid, sx_ask = ask, sx_liquidity = liquidity, sx_spread_bps = spread_bps,
           sx_buying = buying, sx_displayed = displayed, sx_worst_price = worst_price,
           sx_policies = sorted_policies (rr_policies registration), sx_account = acc,
           sx_equity = m_amount (pf_equity portfolio), sx_instrument = oi_instrument_id intent,
           sx_networks = networks\<rparr>)))))))))"

text \<open>
  Lines 322-346: what one policy says of the market and of the account before any size is tried.
  The reasons survive an exception that is raised after them.
\<close>

definition policy_market_reasons ::
    "agent_decision \<Rightarrow> sizing_context \<Rightarrow> risk_policy \<Rightarrow> reason_code list \<times> bool" where
  "policy_market_reasons decision c policy =
     (let limits = rp_limits policy; acc = sx_account c;
          edge = pr_expected_return_bps (ad_prediction decision) * (if sx_buying c then 1 else -1);
          spread = when_reason (rl_max_spread_bps limits * SCALE < sx_spread_bps c) R_SPREAD_TOO_WIDE in
      case units (rl_min_liquidity_usd limits) of None \<Rightarrow> (spread, True) | Some min_liquidity \<Rightarrow>
      let reasons = spread @ when_reason (sx_liquidity c < min_liquidity) R_INSUFFICIENT_LIQUIDITY
            @ when_reason (ad_proposed_action decision \<notin> {ActReduce, ActClose} \<and>
                 edge * SCALE \<le> sx_fee c + sx_slippage c + sx_spread_bps c + rl_min_edge_over_cost_bps limits * SCALE)
               R_EDGE_BELOW_COST_PLUS_MARGIN in
      if \<not> sx_buying c then (reasons, False) else
      case units (rl_max_daily_loss_pct limits) of None \<Rightarrow> (reasons, True) | Some daily \<Rightarrow>
      case units (sx_equity c) of None \<Rightarrow> (reasons, True) | Some equity \<Rightarrow>
      let reasons' = reasons @ when_reason (daily * equity \<le> acc_losses acc * 100 * SCALE) R_DAILY_LOSS_LIMIT_REACHED in
      case units (rl_max_drawdown_pct limits) of None \<Rightarrow> (reasons', True) | Some drawdown \<Rightarrow>
      (reasons' @ when_reason (drawdown * acc_peak acc \<le> (acc_peak acc - acc_equity acc) * 100 * SCALE)
         R_DRAWDOWN_CIRCUIT_BREAKER, False))"

fun market_reasons ::
    "agent_decision \<Rightarrow> sizing_context \<Rightarrow> risk_policy list \<Rightarrow> reason_code list \<times> bool" where
  "market_reasons decision c [] = ([], False)"
| "market_reasons decision c (p # ps) =
     (case policy_market_reasons decision c p of
        (reasons, True) \<Rightarrow> (reasons, True)
      | (reasons, False) \<Rightarrow> (case market_reasons decision c ps of (rest, raised) \<Rightarrow> (reasons @ rest, raised)))"

section \<open>Size constraints\<close>

type_synonym violation = "reason_code \<times> risk_scope"

definition when_violation :: "bool \<Rightarrow> reason_code \<Rightarrow> risk_scope \<Rightarrow> violation list" where
  "when_violation c r s = (if c then [(r, s)] else [])"

text \<open>\<open>{base: 0, **exposure}\<close> and the \<open>max\<close> over it with the candidate added at one key.\<close>

definition with_default :: "string \<Rightarrow> (string \<times> int) list \<Rightarrow> (string \<times> int) list" where
  "with_default key d = foldl (\<lambda>acc (k, v). AList.update k v acc) [(key, 0)] d"

fun py_max :: "int list \<Rightarrow> risk_exn + int" where
  "py_max [] = Inl ValueError"
| "py_max (x # xs) = Inr (foldl max x xs)"

definition concentration :: "string \<Rightarrow> (string \<times> int) list \<Rightarrow> int \<Rightarrow> risk_exn + int" where
  "concentration key d candidate =
     py_max (map (\<lambda>(k, v). v + (if k = key then candidate else 0)) (with_default key d))"

definition fee_of :: "sizing_context \<Rightarrow> int \<Rightarrow> int" where
  "fee_of c candidate = ceil_div (candidate * sx_fee c) BPS_DENOMINATOR"

definition account_violations :: "sizing_context \<Rightarrow> int \<Rightarrow> violation list" where
  "account_violations c candidate =
     when_violation (acc_cash (sx_account c) < (if sx_buying c then candidate else 0) + fee_of c candidate)
       R_INSUFFICIENT_CASH ScopePortfolio
     @ when_violation (\<not> sx_buying c \<and>
         get0 (acc_quantities (sx_account c)) (i_value (sx_instrument c)) < ceil_div (candidate * SCALE) (sx_worst_price c))
       R_MAX_POSITION_EXCEEDED ScopeAsset
     @ when_violation (sx_displayed c * (if sx_buying c then sx_ask c else sx_bid c) < candidate * SCALE)
       R_INSUFFICIENT_LIQUIDITY ScopeOrder"

definition policy_violations :: "sizing_context \<Rightarrow> int \<Rightarrow> risk_policy \<Rightarrow> risk_exn + violation list" where
  "policy_violations c candidate policy =
     (let limits = rp_limits policy; scope = rp_scope policy; acc = sx_account c;
          fee_cost = fee_of c candidate; equity_after_cost = acc_equity acc - fee_cost;
          base = i_base (sx_instrument c) in
      bindE (unitsE (rl_max_order_notional_usd limits)) (\<lambda>max_order.
      let order = when_violation (max_order < candidate) R_MAX_ORDER_EXCEEDED scope in
      if \<not> sx_buying c then Inr order else
      bindE (unitsE (rl_max_daily_loss_pct limits)) (\<lambda>daily.
      bindE (unitsE (sx_equity c)) (\<lambda>equity.
      bindE (unitsE (rl_max_drawdown_pct limits)) (\<lambda>drawdown.
      bindE (concentration base (acc_asset_exposure acc) candidate) (\<lambda>asset.
      bindE (of_option KeyError (map_of (sx_networks c) (i_value (sx_instrument c)))) (\<lambda>network.
      bindE (concentration network (acc_network_exposure acc) candidate) (\<lambda>group.
      bindE (unitsE (rl_max_gross_exposure_pct limits)) (\<lambda>gross_cap.
      bindE (unitsE (rl_max_single_asset_exposure_pct limits)) (\<lambda>asset_cap.
      bindE (unitsE (rl_max_network_exposure_pct limits)) (\<lambda>network_cap.
      Inr (order
        @ when_violation (equity_after_cost \<le> 0) R_INSUFFICIENT_CASH scope
        @ when_violation (daily * equity < (acc_losses acc + fee_cost) * 100 * SCALE) R_DAILY_LOSS_LIMIT_REACHED scope
        @ when_violation (drawdown * acc_peak acc < (acc_peak acc - equity_after_cost) * 100 * SCALE)
            R_DRAWDOWN_CIRCUIT_BREAKER scope
        @ when_violation (gross_cap * equity_after_cost < (acc_exposure acc + candidate) * 100 * SCALE)
            R_MAX_GROSS_EXPOSURE_EXCEEDED scope
        @ when_violation (asset_cap * equity_after_cost < asset * 100 * SCALE) R_MAX_POSITION_EXCEEDED scope
        @ when_violation (network_cap * equity_after_cost < group * 100 * SCALE) R_NETWORK_CONCENTRATION_EXCEEDED scope
        @ when_violation (rl_max_open_positions limits < int (card (insert base (acc_open_assets acc))))
            R_MAX_OPEN_POSITIONS_EXCEEDED scope))))))))))))"

fun policies_violations :: "sizing_context \<Rightarrow> int \<Rightarrow> risk_policy list \<Rightarrow> risk_exn + violation list" where
  "policies_violations c candidate [] = Inr []"
| "policies_violations c candidate (p # ps) =
     bindE (policy_violations c candidate p) (\<lambda>vs.
     bindE (policies_violations c candidate ps) (\<lambda>ws. Inr (vs @ ws)))"

definition violations :: "sizing_context \<Rightarrow> int \<Rightarrow> risk_exn + violation list" where
  "violations c candidate =
     bindE (policies_violations c candidate (sx_policies c)) (\<lambda>vs. Inr (account_violations c candidate @ vs))"

section \<open>Choosing a size\<close>

record sizing =
  sz_amount :: int
  sz_quantity :: int
  sz_debit :: int
  sz_cost :: int
  sz_binding :: "risk_scope option"
  sz_reservation :: "reservation option"

definition no_size :: sizing where
  "no_size = \<lparr>sz_amount = 0, sz_quantity = 0, sz_debit = 0, sz_cost = 0, sz_binding = None, sz_reservation = None\<rparr>"

text \<open>The handler \<open>except ValueError\<close>; any other exception leaves \<open>evaluate\<close>.\<close>

definition caught :: "risk_exn \<Rightarrow> reason_code list \<Rightarrow> risk_exn + (reason_code list \<times> sizing)" where
  "caught e reasons = (if e = ValueError then Inr (reasons @ [R_UNSUPPORTED_PRECISION], no_size) else Inl e)"

definition size_test :: "sizing_context \<Rightarrow> int \<Rightarrow> risk_exn + bool" where
  "size_test c k = bindE (violations c (k * sx_increment c)) (\<lambda>vs. Inr (vs = []))"

fun minimum_notional :: "risk_policy list \<Rightarrow> risk_exn + int list" where
  "minimum_notional [] = Inr []"
| "minimum_notional (p # ps) =
     bindE (unitsE (rl_min_order_notional_usd (rp_limits p))) (\<lambda>m.
     bindE (minimum_notional ps) (\<lambda>rest. Inr (m # rest)))"

definition quantity_of :: "sizing_context \<Rightarrow> int \<Rightarrow> int" where
  "quantity_of c amount =
     (if sx_buying c then amount * SCALE div sx_worst_price c else ceil_div (amount * SCALE) (sx_worst_price c))"

text \<open>Lines 412-429: the violations of the request, the size found, and whether it is refused.\<close>

definition search_size :: "sizing_context \<Rightarrow> risk_exn + (violation list \<times> int \<times> bool)" where
  "search_size c =
     bindE (violations c (sx_requested c)) (\<lambda>original.
     bindE (bisect (size_test c) 0 (sx_requested c div sx_increment c)) (\<lambda>low.
     let amount = low * sx_increment c in
     bindE (bindE (minimum_notional (sx_policies c)) py_max) (\<lambda>minimum.
     bindE (if amount < minimum \<or> amount \<le> 0 \<or> quantity_of c amount \<le> 0 then Inr True
            else bindE (violations c amount) (\<lambda>vs. Inr (vs \<noteq> []))) (\<lambda>refused.
     Inr (original, amount, refused)))))"

definition make_sizing ::
    "string \<Rightarrow> sizing_context \<Rightarrow> int \<Rightarrow> risk_scope option \<Rightarrow> risk_exn + sizing" where
  "make_sizing intent_id c amount binding =
     (let quantity = quantity_of c amount; cost = fee_of c amount;
          debit = (if sx_buying c then amount else 0) + cost; instrument = sx_instrument c in
      bindE (of_option KeyError (map_of (sx_networks c) (i_value instrument))) (\<lambda>network.
      Inr \<lparr>sz_amount = amount, sz_quantity = quantity, sz_debit = debit, sz_cost = cost, sz_binding = binding,
           sz_reservation = Some \<lparr>rs_intent_id = intent_id, rs_instrument = i_value instrument,
             rs_asset = i_base instrument, rs_network = network,
             rs_buy_notional = (if sx_buying c then amount else 0),
             rs_sell_quantity = (if sx_buying c then 0 else quantity),
             rs_cash_debit = debit, rs_cost = cost\<rparr>\<rparr>))"

definition choose_size :: "string \<Rightarrow> sizing_context \<Rightarrow> risk_exn + (reason_code list \<times> sizing)" where
  "choose_size intent_id c =
     (case search_size c of
        Inl e \<Rightarrow> caught e []
      | Inr (original, amount, refused) \<Rightarrow>
          if refused then Inr (map fst original @ [R_BELOW_MINIMUM_ORDER_SIZE], no_size)
          else if amount < sx_requested c then
            (case violations c (amount + sx_increment c) of
               Inl e \<Rightarrow> caught e (R_APPROVED_RESIZED # map fst original)
             | Inr next_step \<Rightarrow>
                 bindE (make_sizing intent_id c amount
                   (Some (if next_step \<noteq> [] \<and> amount + sx_increment c \<le> sx_requested c
                          then snd (hd next_step) else ScopeOrder)))
                   (\<lambda>s. Inr (R_APPROVED_RESIZED # map fst original, s)))
          else bindE (make_sizing intent_id c amount None) (\<lambda>s. Inr ([R_APPROVED], s)))"

text \<open>The \<open>try\<close> block as a whole.\<close>

definition size_order ::
    "risk_request \<Rightarrow> risk_registration \<Rightarrow> portfolio_snapshot \<Rightarrow> (string \<times> string) list \<Rightarrow> account \<Rightarrow>
     risk_exn + (reason_code list \<times> sizing)" where
  "size_order request registration portfolio networks acc =
     (case sizing_context_of request registration portfolio networks acc of
        Inl e \<Rightarrow> caught e []
      | Inr c \<Rightarrow>
          (case market_reasons (rq_decision request) c (sx_policies c) of
             (reasons, True) \<Rightarrow> caught ValueError reasons
           | (reasons, False) \<Rightarrow>
               if reasons \<noteq> [] then Inr (reasons, no_size)
               else choose_size (oi_order_intent_id (rq_intent request)) c))"

section \<open>evaluate\<close>

definition remove_prefix :: "string \<Rightarrow> string \<Rightarrow> string" where
  "remove_prefix p s = (if take (length p) s = p then drop (length p) s else s)"

definition evaluation_decision :: "reason_code list \<Rightarrow> int \<Rightarrow> risk_decision" where
  "evaluation_decision reasons amount =
     (if amount = 0 then DRejected
      else if R_APPROVED_RESIZED \<in> set reasons then DApprovedResized else DApproved)"

definition approval_expiry ::
    "order_intent \<Rightarrow> risk_controls \<Rightarrow> risk_execution_policy \<Rightarrow> datetime \<Rightarrow> datetime" where
  "approval_expiry intent controls execution now =
     min (oi_expires_at intent) (min (rc_valid_until controls) (min (rc_lease_expires_at controls)
       (now + ms (xp_max_approval_age_ms execution))))"

definition make_record ::
    "(risk_artefact \<Rightarrow> string) \<Rightarrow> risk_request \<Rightarrow> risk_registration \<Rightarrow> portfolio_snapshot \<Rightarrow> risk_controls \<Rightarrow>
     reservation list \<Rightarrow> datetime \<Rightarrow> reason_code list \<Rightarrow> sizing \<Rightarrow> risk_record" where
  "make_record H request registration portfolio controls reservations now reasons s =
     (let intent = rq_intent request;
          rh = H (HRequest request); ph = H (HPortfolio portfolio); gh = H (HRegistration registration);
          ch = H (HControls controls); vh = H (HReservations reservations);
          identity = H (HIdentity rh ph gh ch vh now) in
      \<lparr>rd_evaluation =
         \<lparr>re_risk_evaluation_id = ''re_'' @ take 32 (remove_prefix ''sha256:'' identity),
          re_order_intent_id = oi_order_intent_id intent,
          re_decision_id = oi_decision_id intent,
          re_workspace_id = oi_workspace_id intent,
          re_evaluated_at = now,
          re_decision = evaluation_decision reasons (sz_amount s),
          re_reason_codes = dedupe reasons,
          re_applied_policy_ids = map rp_risk_policy_id (sorted_policies (rr_policies registration)),
          re_binding_scope = sz_binding s,
          re_requested_notional = oi_notional intent,
          re_approved_notional = \<lparr>m_amount = decimal_of (sz_amount s), m_currency = m_currency (oi_notional intent)\<rparr>\<rparr>,
       rd_account_id = rc_account_id controls,
       rd_request_hash = rh, rd_portfolio_hash = ph, rd_registration_hash = gh, rd_controls_hash = ch,
       rd_reservations_hash = vh,
       rd_expires_at = approval_expiry intent controls (rr_execution registration) now,
       rd_max_quantity = \<lparr>q_value = decimal_of (sz_quantity s), q_asset = i_base (oi_instrument_id intent)\<rparr>,
       rd_max_cash_debit = \<lparr>m_amount = decimal_of (sz_debit s), m_currency = ''USD''\<rparr>\<rparr>)"

definition evaluate_size ::
    "risk_request \<Rightarrow> risk_registration \<Rightarrow> portfolio_snapshot \<Rightarrow> (string \<times> string) list \<Rightarrow> reservation list \<Rightarrow>
     reason_code list \<Rightarrow> risk_exn + (reason_code list \<times> sizing)" where
  "evaluate_size request registration portfolio networks reservations reasons =
     (case account_state portfolio networks reservations of
        None \<Rightarrow> Inr (reasons @ [R_UNKNOWN_ACCOUNT_STATE], no_size)
      | Some acc \<Rightarrow> if reasons = [] then size_order request registration portfolio networks acc
                    else Inr (reasons, no_size))"

definition evaluate ::
    "(risk_artefact \<Rightarrow> string) \<Rightarrow> risk_request \<Rightarrow> risk_registration \<Rightarrow> portfolio_snapshot \<Rightarrow> risk_controls \<Rightarrow>
     (string \<times> string) list \<Rightarrow> reservation list \<Rightarrow> datetime \<Rightarrow> risk_exn + (risk_record \<times> reservation option)" where
  "evaluate H request registration portfolio controls networks reservations now =
     bindE (context_reasons H request registration portfolio controls now) (\<lambda>reasons.
     bindE (evaluate_size request registration portfolio networks reservations reasons) (\<lambda>(reasons', s).
     Inr (make_record H request registration portfolio controls reservations now reasons' s, sz_reservation s)))"

end
