(* ===== verification/RiskSession.thy ===== *)
theory RiskSession
  imports RiskSizing
begin

text \<open>
  \<open>kavrigo_risk/session.py\<close>: the local risk service of one account. An operation that raises keeps
  what it had already changed (the last clock reading), so each operation returns the new session
  together with an error or a value. A clock reading is an argument; \<open>None\<close> is a naive datetime.
  \<open>fits\<close> is the size bound of \<open>_copy\<close> on an incoming request. The lock and the telemetry are not
  modelled: each operation runs alone.
\<close>

datatype gate_error =
    GateWorkspaceMismatch | UnregisteredAgentVersion | IdempotencyConflict | DecisionAlreadyEvaluated
  | RiskCapacityExhausted | AuditCapacityExhausted | InvalidClock | ClockMovedBackwards
  | InvalidControlRefresh | UnknownIntent | InvalidRiskRequest | EvaluatorRaised risk_exn
  | PermitRefused domain_error

record session_entry =
  en_request :: risk_request
  en_record :: risk_record
  en_reservation :: "reservation option"
  en_fencing_token :: int
  en_terminal_handoff :: bool
  en_issued_permit :: "paper_risk_permit option"

record risk_session =
  ss_portfolio :: portfolio_snapshot
  ss_controls :: risk_controls
  ss_registrations :: "(string \<times> risk_registration) list"
  ss_networks :: "(string \<times> string) list"
  ss_capacity :: int
  ss_entries :: "(string \<times> session_entry) list"
  ss_keys :: "(string \<times> string) list"
  ss_decisions :: "(string \<times> string) list"
  ss_last_now :: "datetime option"
  ss_audit :: "risk_audit_event list"

type_synonym 'a outcome = "risk_session \<times> (gate_error + 'a)"

section \<open>Construction\<close>

datatype session_init_error =
    NotLocal | BadCapacity | ControlsWorkspace | NoRegistrations | RegistrationWorkspace | DuplicateAgent
  | SharedPoliciesDiffer | AssetEscapesNetwork | ConflictingNetwork | ConflictingPolicy | TooManyPolicies
  | NetworkMissing | UnionInvalid domain_error

text \<open>Pydantic equality of policies: decimals by value.\<close>

definition limits_eq :: "risk_limits \<Rightarrow> risk_limits \<Rightarrow> bool" where
  "limits_eq a b \<longleftrightarrow>
     dec_eq (rl_max_gross_exposure_pct a) (rl_max_gross_exposure_pct b) \<and>
     dec_eq (rl_max_single_asset_exposure_pct a) (rl_max_single_asset_exposure_pct b) \<and>
     dec_eq (rl_max_network_exposure_pct a) (rl_max_network_exposure_pct b) \<and>
     rl_max_open_positions a = rl_max_open_positions b \<and>
     dec_eq (rl_max_daily_loss_pct a) (rl_max_daily_loss_pct b) \<and>
     dec_eq (rl_max_drawdown_pct a) (rl_max_drawdown_pct b) \<and>
     dec_eq (rl_min_liquidity_usd a) (rl_min_liquidity_usd b) \<and>
     rl_max_spread_bps a = rl_max_spread_bps b \<and>
     dec_eq (rl_min_order_notional_usd a) (rl_min_order_notional_usd b) \<and>
     dec_eq (rl_max_order_notional_usd a) (rl_max_order_notional_usd b) \<and>
     rl_min_edge_over_cost_bps a = rl_min_edge_over_cost_bps b"

definition dict_eq :: "('k \<times> 'v) list \<Rightarrow> ('k \<times> 'v) list \<Rightarrow> bool" where
  "dict_eq a b \<longleftrightarrow> set (map fst a) = set (map fst b) \<and> list_all (\<lambda>k. map_of a k = map_of b k) (map fst a)"

definition policy_eq :: "risk_policy \<Rightarrow> risk_policy \<Rightarrow> bool" where
  "policy_eq p q \<longleftrightarrow>
     rp_risk_policy_id p = rp_risk_policy_id q \<and> rp_workspace_id p = rp_workspace_id q \<and>
     rp_version p = rp_version q \<and> rp_scope p = rp_scope q \<and> limits_eq (rp_limits p) (rp_limits q) \<and>
     dict_eq (fp_max_age_ms (rp_freshness p)) (fp_max_age_ms (rp_freshness q)) \<and>
     fp_required_families (rp_freshness p) = fp_required_families (rp_freshness q) \<and>
     dec_eq (fp_min_data_quality (rp_freshness p)) (fp_min_data_quality (rp_freshness q)) \<and>
     rp_event_risk p = rp_event_risk q \<and> rp_created_at p = rp_created_at q \<and>
     rp_content_hash p = rp_content_hash q"

record init_state =
  il_registrations :: "(string \<times> risk_registration) list"
  il_networks :: "(string \<times> string) list"
  il_shared :: "(risk_scope \<times> string) list"
  il_assets :: "(string \<times> string) list"
  il_policies :: "(string \<times> risk_policy) list"

text \<open>\<open>if key in d and d[key] != v: raise\<close>, then \<open>d[key] = v\<close>, over the items of a dictionary.\<close>

fun merge_same :: "'e \<Rightarrow> ('k \<times> 'v) list \<Rightarrow> ('k \<times> 'v) list \<Rightarrow> 'e + ('k \<times> 'v) list" where
  "merge_same e d [] = Inr d"
| "merge_same e d ((k, v) # rest) =
     (if map_of d k \<notin> {None, Some v} then Inl e else merge_same e (AList.update k v d) rest)"

definition scope_fingerprint :: "(risk_artefact \<Rightarrow> string) \<Rightarrow> risk_policy list \<Rightarrow> risk_scope \<Rightarrow> string" where
  "scope_fingerprint H ps scope = H (HPolicies (sort_key rp_risk_policy_id (filter (\<lambda>p. rp_scope p = scope) ps)))"

fun merge_policies ::
    "(string \<times> risk_policy) list \<Rightarrow> risk_policy list \<Rightarrow> session_init_error + (string \<times> risk_policy) list" where
  "merge_policies d [] = Inr d"
| "merge_policies d (p # ps) =
     (case map_of d (rp_risk_policy_id p) of
        Some q \<Rightarrow> if \<not> policy_eq q p then Inl ConflictingPolicy
                  else merge_policies (AList.update (rp_risk_policy_id p) p d) ps
      | None \<Rightarrow> merge_policies (AList.update (rp_risk_policy_id p) p d) ps)"

text \<open>Lines 111-115: one base asset keeps one network, whatever the venue.\<close>

fun merge_assets ::
    "(string \<times> string) list \<Rightarrow> (string \<times> string) list \<Rightarrow> instrument_id list \<Rightarrow>
     session_init_error + (string \<times> string) list" where
  "merge_assets networks assets [] = Inr assets"
| "merge_assets networks assets (i # is) =
     (case map_of networks (i_value i) of None \<Rightarrow> Inl NetworkMissing
      | Some n \<Rightarrow> if map_of assets (i_base i) \<notin> {None, Some n} then Inl AssetEscapesNetwork
                  else merge_assets networks (AList.update (i_base i) n assets) is)"

definition init_step ::
    "(risk_artefact \<Rightarrow> string) \<Rightarrow> portfolio_snapshot \<Rightarrow> risk_registration \<Rightarrow> init_state \<Rightarrow> session_init_error + init_state" where
  "init_step H portfolio r st =
     (let version = rr_agent_version r in
      bindE (guardE (av_workspace_id version \<noteq> pf_workspace_id portfolio) RegistrationWorkspace) (\<lambda>_.
      bindE (guardE (map_of (il_registrations st) (av_agent_version_id version) \<noteq> None) DuplicateAgent) (\<lambda>_.
      bindE (merge_same SharedPoliciesDiffer (il_shared st)
        (map (\<lambda>scope. (scope, scope_fingerprint H (rr_policies r) scope)) [ScopeGlobal, ScopeWorkspace, ScopePortfolio]))
        (\<lambda>shared.
      bindE (merge_assets (rr_networks r) (il_assets st) (un_instruments (sp_universe (av_spec version)))) (\<lambda>assets.
      bindE (merge_same ConflictingNetwork (il_networks st) (rr_networks r)) (\<lambda>networks.
      bindE (merge_policies (il_policies st) (rr_policies r)) (\<lambda>policies.
      Inr \<lparr>il_registrations = AList.update (av_agent_version_id version) r (il_registrations st),
           il_networks = networks, il_shared = shared, il_assets = assets, il_policies = policies\<rparr>)))))))"

fun init_loop ::
    "(risk_artefact \<Rightarrow> string) \<Rightarrow> portfolio_snapshot \<Rightarrow> risk_registration list \<Rightarrow> init_state \<Rightarrow> session_init_error + init_state" where
  "init_loop H portfolio [] st = Inr st"
| "init_loop H portfolio (r # rs) st = bindE (init_step H portfolio r st) (init_loop H portfolio rs)"

text \<open>Lines 130-139: every registration is revalidated with the union of all policies.\<close>

fun with_union ::
    "(risk_artefact \<Rightarrow> string) \<Rightarrow> risk_policy list \<Rightarrow> (string \<times> risk_registration) list \<Rightarrow>
     session_init_error + (string \<times> risk_registration) list" where
  "with_union H ps [] = Inr []"
| "with_union H ps ((k, r) # rest) =
     (let r' = r\<lparr>rr_policies := ps\<rparr> in
      case registration_error H r' of Some e \<Rightarrow> Inl (UnionInvalid e)
      | None \<Rightarrow> bindE (with_union H ps rest) (\<lambda>rest'. Inr ((k, r') # rest')))"

definition init_session ::
    "(risk_artefact \<Rightarrow> string) \<Rightarrow> string \<Rightarrow> portfolio_snapshot \<Rightarrow> risk_controls \<Rightarrow> risk_registration list \<Rightarrow> int \<Rightarrow>
     session_init_error + risk_session" where
  "init_session H environment portfolio controls registrations capacity =
     bindE (guardE (environment \<noteq> ''local'') NotLocal) (\<lambda>_.
     bindE (guardE (\<not> (1 \<le> capacity \<and> capacity \<le> 100000)) BadCapacity) (\<lambda>_.
     bindE (guardE (rc_workspace_id controls \<noteq> pf_workspace_id portfolio) ControlsWorkspace) (\<lambda>_.
     bindE (guardE (registrations = []) NoRegistrations) (\<lambda>_.
     bindE (init_loop H portfolio registrations
       \<lparr>il_registrations = [], il_networks = [], il_shared = [], il_assets = [], il_policies = []\<rparr>) (\<lambda>st.
     bindE (guardE (16 < length (il_policies st)) TooManyPolicies) (\<lambda>_.
     bindE (with_union H (sorted_policies (map snd (il_policies st))) (il_registrations st)) (\<lambda>registered.
     Inr \<lparr>ss_portfolio = portfolio, ss_controls = controls, ss_registrations = registered,
          ss_networks = il_networks st, ss_capacity = capacity, ss_entries = [], ss_keys = [], ss_decisions = [],
          ss_last_now = None, ss_audit = []\<rparr>)))))))"

section \<open>Clock and audit\<close>

definition take_now :: "risk_session \<Rightarrow> datetime option \<Rightarrow> datetime outcome" where
  "take_now s reading =
     (case reading of None \<Rightarrow> (s, Inl InvalidClock)
      | Some now \<Rightarrow> if (case ss_last_now s of None \<Rightarrow> False | Some previous \<Rightarrow> now < previous)
                    then (s, Inl ClockMovedBackwards)
                    else (s\<lparr>ss_last_now := Some now\<rparr>, Inr now))"

definition audit_event ::
    "(risk_artefact \<Rightarrow> string) \<Rightarrow> risk_session \<Rightarrow> audit_kind \<Rightarrow> audit_outcome \<Rightarrow> string \<Rightarrow> datetime \<Rightarrow>
     reason_code list \<Rightarrow> unit outcome" where
  "audit_event H s kind result artefact_hash now reasons =
     (if ss_capacity s * 4 \<le> int (length (ss_audit s)) then (s, Inl AuditCapacityExhausted)
      else (s\<lparr>ss_audit := ss_audit s @ [\<lparr>ae_sequence = int (length (ss_audit s)) + 1,
              ae_workspace_id = pf_workspace_id (ss_portfolio s), ae_account_id = rc_account_id (ss_controls s),
              ae_occurred_at = now, ae_kind = kind, ae_outcome = result, ae_artefact_hash = artefact_hash,
              ae_controls_hash = H (HControls (ss_controls s)), ae_reason_codes = reasons\<rparr>]\<rparr>, Inr ()))"

text \<open>Sequencing: the next step runs on the session the last one left, unless it raised.\<close>

definition then_do :: "'a outcome \<Rightarrow> (risk_session \<Rightarrow> 'a \<Rightarrow> 'b outcome) \<Rightarrow> 'b outcome" where
  "then_do r f = (case r of (s, Inl e) \<Rightarrow> (s, Inl e) | (s, Inr x) \<Rightarrow> f s x)"

declare then_do_def [code_unfold]

lemma then_do_simps [simp]:
  "then_do (s, Inl e) f = (s, Inl e)" "then_do (s, Inr x) f = f s x"
  by (simp_all add: then_do_def)

section \<open>update\_controls\<close>

definition controls_regress :: "risk_controls \<Rightarrow> risk_controls \<Rightarrow> bool" where
  "controls_regress previous fresh \<longleftrightarrow>
     rc_workspace_id fresh \<noteq> rc_workspace_id previous \<or> rc_account_id fresh \<noteq> rc_account_id previous \<or>
     rc_version fresh \<le> rc_version previous \<or> rc_fencing_token fresh < rc_fencing_token previous \<or>
     rc_as_of fresh < rc_as_of previous"

definition update_controls ::
    "(risk_artefact \<Rightarrow> string) \<Rightarrow> risk_session \<Rightarrow> risk_controls \<Rightarrow> datetime option \<Rightarrow> datetime option \<Rightarrow> unit outcome" where
  "update_controls H s fresh reading1 reading2 =
     (if controls_regress (ss_controls s) fresh then (s, Inl InvalidControlRefresh)
      else then_do (take_now s reading1) (\<lambda>s1 now1.
        if now1 < rc_as_of fresh then (s1, Inl InvalidControlRefresh)
        else then_do (take_now s1 reading2) (\<lambda>s2 now2.
          then_do (audit_event H s2 ControlsUpdated OutUpdated (H (HControls fresh)) now2 []) (\<lambda>s3 _.
            (s3\<lparr>ss_controls := fresh\<rparr>, Inr ())))))"

section \<open>evaluate\<close>

text \<open>\<open>_reservations\<close>: held reservations in the order of the intent ids, one of them left out.\<close>

definition held_reservations :: "risk_session \<Rightarrow> string option \<Rightarrow> reservation list" where
  "held_reservations s excluding =
     concat (map (\<lambda>(k, e). case en_reservation e of None \<Rightarrow> [] | Some r \<Rightarrow> if Some k = excluding then [] else [r])
       (sort_key fst (ss_entries s)))"

definition session_evaluate ::
    "(risk_artefact \<Rightarrow> string) \<Rightarrow> (risk_request \<Rightarrow> bool) \<Rightarrow> risk_session \<Rightarrow> risk_request \<Rightarrow> datetime option \<Rightarrow>
     risk_record outcome" where
  "session_evaluate H fits s request reading =
     (let intent = rq_intent request; oid = oi_order_intent_id intent in
      if \<not> fits request then (s, Inl InvalidRiskRequest)
      else if oi_workspace_id intent \<noteq> pf_workspace_id (ss_portfolio s) then (s, Inl GateWorkspaceMismatch)
      else (case map_of (ss_registrations s) (oi_agent_version_id intent) of
        None \<Rightarrow> (s, Inl UnregisteredAgentVersion)
      | Some registration \<Rightarrow>
          (case map_of (ss_entries s) (case map_of (ss_keys s) (oi_idempotency_key intent) of
                                         Some existing_id \<Rightarrow> existing_id | None \<Rightarrow> oid) of
             Some existing \<Rightarrow>
               if H (HRequest request) \<noteq> rd_request_hash (en_record existing) then (s, Inl IdempotencyConflict)
               else (s, Inr (en_record existing))
           | None \<Rightarrow>
               if map_of (ss_decisions s) (oi_decision_id intent) \<noteq> None then (s, Inl DecisionAlreadyEvaluated)
               else if ss_capacity s \<le> int (length (ss_entries s)) then (s, Inl RiskCapacityExhausted)
               else then_do (take_now s reading) (\<lambda>s1 now.
                 case evaluate H request registration (ss_portfolio s) (ss_controls s) (ss_networks s)
                        (held_reservations s None) now of
                   Inl e \<Rightarrow> (s1, Inl (EvaluatorRaised e))
                 | Inr (result, reservation) \<Rightarrow>
                     then_do (audit_event H s1 Evaluated (outcome_of (re_decision (rd_evaluation result)))
                         (H (HRecord result)) (re_evaluated_at (rd_evaluation result))
                         (re_reason_codes (rd_evaluation result))) (\<lambda>s2 _.
                       (s2\<lparr>ss_entries := AList.update oid
                              \<lparr>en_request = request, en_record = result, en_reservation = reservation,
                               en_fencing_token = rc_fencing_token (ss_controls s), en_terminal_handoff = False,
                               en_issued_permit = None\<rparr> (ss_entries s2),
                            ss_keys := AList.update (oi_idempotency_key intent) oid (ss_keys s2),
                            ss_decisions := AList.update (oi_decision_id intent) oid (ss_decisions s2)\<rparr>,
                        Inr result))))))"

section \<open>handoff\<close>

definition set_entry :: "risk_session \<Rightarrow> string \<Rightarrow> session_entry \<Rightarrow> risk_session" where
  "set_entry s oid e = s\<lparr>ss_entries := AList.update oid e (ss_entries s)\<rparr>"

text \<open>The evaluation again, with every other reservation held.\<close>

definition recheck ::
    "(risk_artefact \<Rightarrow> string) \<Rightarrow> risk_session \<Rightarrow> string \<Rightarrow> session_entry \<Rightarrow> datetime \<Rightarrow> risk_exn + risk_record" where
  "recheck H s oid e now =
     (case map_of (ss_registrations s) (oi_agent_version_id (rq_intent (en_request e))) of
        None \<Rightarrow> Inl KeyError
      | Some registration \<Rightarrow>
          bindE (evaluate H (en_request e) registration (ss_portfolio s) (ss_controls s) (ss_networks s)
            (held_reservations s (Some oid)) now) (\<lambda>(checked, _). Inr checked))"

definition still_approved :: "risk_record \<Rightarrow> risk_record \<Rightarrow> bool" where
  "still_approved checked original \<longleftrightarrow>
     is_approved (rd_evaluation checked) \<and>
     m_amount (re_approved_notional (rd_evaluation original)) \<le> m_amount (re_approved_notional (rd_evaluation checked))"

definition make_approval ::
    "(risk_artefact \<Rightarrow> string) \<Rightarrow> string \<Rightarrow> session_entry \<Rightarrow> int \<Rightarrow> datetime \<Rightarrow> approved_order_intent" where
  "make_approval H workspace_id e token now =
     (let intent = rq_intent (en_request e); record = en_record e in
      \<lparr>ao_order_intent_id = oi_order_intent_id intent,
       ao_risk_evaluation_id = re_risk_evaluation_id (rd_evaluation record),
       ao_workspace_id = oi_workspace_id intent, ao_instrument_id = oi_instrument_id intent,
       ao_mode = oi_mode intent, ao_side = oi_side intent, ao_order_type = oi_order_type intent,
       ao_approved_notional = re_approved_notional (rd_evaluation record), ao_limit_price = None,
       ao_time_in_force = oi_time_in_force intent,
       ao_client_order_id = ''paper_'' @ take 48 (remove_prefix ''sha256:''
          (H (HClientOrder workspace_id (rd_account_id record) (oi_order_intent_id intent)))),
       ao_fencing_token = token, ao_approved_at = now, ao_expires_at = rd_expires_at record\<rparr>)"

definition issue_permit ::
    "(risk_artefact \<Rightarrow> string) \<Rightarrow> risk_session \<Rightarrow> string \<Rightarrow> string \<Rightarrow> session_entry \<Rightarrow> int \<Rightarrow> datetime \<Rightarrow>
     paper_risk_permit option outcome" where
  "issue_permit H s workspace_id oid e token now =
     (let approval = make_approval H workspace_id e token now in
      case approved_intent_error approval of Some err \<Rightarrow> (s, Inl (PermitRefused err))
      | None \<Rightarrow>
        (case map_of (ss_registrations s) (oi_agent_version_id (rq_intent (en_request e))) of
           None \<Rightarrow> (s, Inl (EvaluatorRaised KeyError))
         | Some registration \<Rightarrow>
             let permit = \<lparr>pp_account_id = rd_account_id (en_record e), pp_approval = approval,
                           pp_record = en_record e, pp_execution = rr_execution registration\<rparr> in
             then_do (audit_event H s Handoff OutHandedOff (H (HPermit permit)) now []) (\<lambda>s1 _.
               (set_entry s1 oid (e\<lparr>en_terminal_handoff := True, en_issued_permit := Some permit\<rparr>), Inr (Some permit)))))"

text \<open>Lines 283-340, after the clock was read: fence, expiry, recheck, permit.\<close>

definition handoff_open ::
    "(risk_artefact \<Rightarrow> string) \<Rightarrow> risk_session \<Rightarrow> string \<Rightarrow> string \<Rightarrow> int \<Rightarrow> session_entry \<Rightarrow> datetime \<Rightarrow>
     paper_risk_permit option outcome" where
  "handoff_open H s workspace_id oid token e now =
     (if token \<noteq> rc_fencing_token (ss_controls s) \<or> token \<noteq> en_fencing_token e then (s, Inr None)
      else if rd_expires_at (en_record e) \<le> now then
        then_do (audit_event H s Handoff OutExpired (H (HRecord (en_record e))) now []) (\<lambda>s1 _.
          (set_entry s1 oid (e\<lparr>en_terminal_handoff := True\<rparr>), Inr None))
      else (case recheck H s oid e now of
          Inl x \<Rightarrow> (s, Inl (EvaluatorRaised x))
        | Inr checked \<Rightarrow>
            if \<not> still_approved checked (en_record e) then
              then_do (audit_event H s Handoff OutRecheckRejected (H (HRecord checked)) now
                  (re_reason_codes (rd_evaluation checked))) (\<lambda>s1 _.
                (set_entry s1 oid (e\<lparr>en_terminal_handoff := True\<rparr>), Inr None))
            else issue_permit H s workspace_id oid e token now))"

definition handoff ::
    "(risk_artefact \<Rightarrow> string) \<Rightarrow> risk_session \<Rightarrow> string \<Rightarrow> string \<Rightarrow> int \<Rightarrow> datetime option \<Rightarrow>
     paper_risk_permit option outcome" where
  "handoff H s workspace_id oid token reading =
     (if workspace_id \<noteq> pf_workspace_id (ss_portfolio s) then (s, Inl GateWorkspaceMismatch)
      else (case map_of (ss_entries s) oid of None \<Rightarrow> (s, Inl UnknownIntent)
      | Some e \<Rightarrow>
          if \<not> is_approved (rd_evaluation (en_record e)) then (s, Inr None)
          else if en_terminal_handoff e then (s, Inr None)
          else then_do (take_now s reading) (\<lambda>s1 now. handoff_open H s1 workspace_id oid token e now)))"

section \<open>execution\_allowed and execution\_guard\<close>

definition execution_allowed ::
    "(risk_artefact \<Rightarrow> string) \<Rightarrow> risk_session \<Rightarrow> string \<Rightarrow> string \<Rightarrow> int \<Rightarrow> datetime option \<Rightarrow> bool outcome" where
  "execution_allowed H s workspace_id oid token reading =
     (if workspace_id \<noteq> pf_workspace_id (ss_portfolio s) then (s, Inl GateWorkspaceMismatch)
      else (case map_of (ss_entries s) oid of None \<Rightarrow> (s, Inr False)
      | Some e \<Rightarrow>
          if en_issued_permit e = None then (s, Inr False)
          else then_do (take_now s reading) (\<lambda>s1 now.
            if token \<noteq> rc_fencing_token (ss_controls s) \<or> token \<noteq> en_fencing_token e \<or>
               rd_expires_at (en_record e) \<le> now then (s1, Inr False)
            else (case recheck H s1 oid e now of
                Inl x \<Rightarrow> (s1, Inl (EvaluatorRaised x))
              | Inr checked \<Rightarrow> (s1, Inr (still_approved checked (en_record e)))))))"

text \<open>The intents of \<open>commands\<close> that may no longer be executed; each check reads the clock.\<close>

fun guard_loop ::
    "(risk_artefact \<Rightarrow> string) \<Rightarrow> risk_session \<Rightarrow> string \<Rightarrow> (string \<times> int \<times> datetime option) list \<Rightarrow> string list outcome" where
  "guard_loop H s workspace_id [] = (s, Inr [])"
| "guard_loop H s workspace_id ((oid, token, reading) # rest) =
     then_do (execution_allowed H s workspace_id oid token reading) (\<lambda>s1 ok.
     then_do (guard_loop H s1 workspace_id rest) (\<lambda>s2 blocked. (s2, Inr (if ok then blocked else oid # blocked))))"

definition execution_guard ::
    "(risk_artefact \<Rightarrow> string) \<Rightarrow> risk_session \<Rightarrow> string \<Rightarrow> (string \<times> int \<times> datetime option) list \<Rightarrow> string list outcome" where
  "execution_guard H s workspace_id commands =
     (if workspace_id \<noteq> pf_workspace_id (ss_portfolio s) then (s, Inl GateWorkspaceMismatch)
      else guard_loop H s workspace_id commands)"

end
