(* ===== verification/RiskApproval.thy ===== *)
theory RiskApproval
  imports RiskSizing
begin

text \<open>
  What the evaluator guarantees: the size constraints are monotone, so the search finds the largest
  admissible size; an approval never exceeds the request, the cash or a limit; every result passes
  the validator of its contract; anything unknown, stale or switched off is a rejection.
\<close>

section \<open>Monotone constraints\<close>

definition sizing_ok :: "sizing_context \<Rightarrow> bool" where
  "sizing_ok c \<longleftrightarrow> 0 \<le> sx_fee c \<and> 0 < sx_worst_price c \<and> 0 < sx_increment c \<and>
     list_all (\<lambda>p. risk_policy_error p = None) (sx_policies c)"

lemma when_violation_Nil [simp]: "when_violation b r s = [] \<longleftrightarrow> \<not> b"
  by (simp add: when_violation_def)

lemma when_reason_Nil [simp]: "when_reason b r = [] \<longleftrightarrow> \<not> b"
  by (simp add: when_reason_def)

lemma set_when_reason: "set (when_reason b r) = (if b then {r} else {})"
  by (simp add: when_reason_def)

lemma fee_of_mono: "0 \<le> sx_fee c \<Longrightarrow> i \<le> j \<Longrightarrow> fee_of c i \<le> fee_of c j"
  by (simp add: fee_of_def ceil_div_mono mult_right_mono)

lemma fee_of_nonneg: "0 \<le> sx_fee c \<Longrightarrow> 0 \<le> i \<Longrightarrow> 0 \<le> fee_of c i"
  by (simp add: fee_of_def ceil_div_nonneg)

lemma foldl_max_mono:
  "list_all2 (\<le>) xs ys \<Longrightarrow> x \<le> y \<Longrightarrow> foldl max (x::int) xs \<le> foldl max y ys"
  by (induction xs ys arbitrary: x y rule: list_all2_induct) (auto intro: max.mono)

lemma foldl_max_ge: "x \<le> foldl max (x::int) xs" "y \<in> set xs \<Longrightarrow> y \<le> foldl max x xs"
proof -
  show ge: "x \<le> foldl max x xs" for x and xs :: "int list" by (induction xs arbitrary: x) (simp, metis foldl_Cons max.bounded_iff)
  show "y \<in> set xs \<Longrightarrow> y \<le> foldl max x xs"
    by (induction xs arbitrary: x) (auto intro: order_trans[OF max.cobounded2 ge])
qed

lemma with_default_not_Nil [simp]: "with_default k d \<noteq> []"
proof -
  have "acc \<noteq> [] \<Longrightarrow> foldl (\<lambda>acc (k, v). AList.update k v acc) acc d \<noteq> []" for acc
  proof (induction d arbitrary: acc)
    case (Cons kv d)
    have "AList.update (fst kv) (snd kv) acc \<noteq> []" by (cases acc) auto
    then show ?case using Cons.IH by (simp add: case_prod_beta)
  qed simp
  then show ?thesis by (simp add: with_default_def)
qed

lemma concentration_total: "\<exists>a. concentration k d x = Inr a"
  by (cases "with_default k d") (auto simp: concentration_def dest: sym[of "[]"])

lemma concentration_mono:
  assumes "i \<le> j" "concentration k d i = Inr a" "concentration k d j = Inr b"
  shows "a \<le> b"
proof -
  obtain kv rest where w: "with_default k d = kv # rest"
    by (cases "with_default k d") (auto dest: sym[of "[]"])
  have "list_all2 (\<le>) (map (\<lambda>(key, v). v + (if key = k then i else 0)) rest)
     (map (\<lambda>(key, v). v + (if key = k then j else 0)) rest)"
    using assms(1) by (auto simp: list_all2_map1 list_all2_map2 intro!: list_all2_refl)
  then show ?thesis
    using assms w by (auto simp: concentration_def intro!: foldl_max_mono split: prod.split)
qed

lemma account_violations_mono:
  assumes "sizing_ok c" "i \<le> j" "account_violations c j = []"
  shows "account_violations c i = []"
proof -
  have fee: "fee_of c i \<le> fee_of c j" using assms by (simp add: sizing_ok_def fee_of_mono)
  have ij: "i * SCALE \<le> j * SCALE" using assms(2) by (simp add: mult_right_mono)
  then have "ceil_div (i * SCALE) (sx_worst_price c) \<le> ceil_div (j * SCALE) (sx_worst_price c)"
    using assms(1) by (simp add: sizing_ok_def ceil_div_mono)
  then show ?thesis
    using assms(2,3) fee by (auto simp: account_violations_def not_less intro: order_trans[OF ij])
qed

text \<open>A limit \<open>exposure * 100 > cap * equity_after_cost\<close> relaxes as the size shrinks.\<close>

lemma cap_mono:
  fixes cap e_i e_j x_i x_j :: int
  assumes "\<not> cap * e_j < x_j * 100 * SCALE" "0 \<le> cap" "e_j \<le> e_i" "x_i \<le> x_j"
  shows "\<not> cap * e_i < x_i * 100 * SCALE"
proof -
  have "x_i * 100 * SCALE \<le> x_j * 100 * SCALE" using assms by (intro mult_right_mono) auto
  moreover have "cap * e_j \<le> cap * e_i" using assms by (intro mult_left_mono)
  ultimately show ?thesis using assms(1) by linarith
qed

lemma policy_violations_mono:
  assumes ok: "sizing_ok c" "risk_policy_error p = None" and ij: "i \<le> j"
    and j: "policy_violations c j p = Inr []"
  shows "policy_violations c i p = Inr []"
proof -
  have fee: "fee_of c i \<le> fee_of c j" using ok ij by (simp add: sizing_ok_def fee_of_mono)
  note pct = policy_limits_ok[OF ok(2)]
  show ?thesis
  proof (cases "sx_buying c")
    case False
    then show ?thesis using j ij
      by (auto simp: policy_violations_def Let_def bindE_Inr_iff)
  next
    case True
    let ?l = "rp_limits p" and ?acc = "sx_account c" and ?b = "i_base (sx_instrument c)"
    from j True obtain mx dl eq dd a n g gc ac nc where u:
      "units (rl_max_order_notional_usd ?l) = Some mx" "units (rl_max_daily_loss_pct ?l) = Some dl"
      "units (sx_equity c) = Some eq" "units (rl_max_drawdown_pct ?l) = Some dd"
      "concentration ?b (acc_asset_exposure ?acc) j = Inr a"
      "map_of (sx_networks c) (i_value (sx_instrument c)) = Some n"
      "concentration n (acc_network_exposure ?acc) j = Inr g"
      "units (rl_max_gross_exposure_pct ?l) = Some gc" "units (rl_max_single_asset_exposure_pct ?l) = Some ac"
      "units (rl_max_network_exposure_pct ?l) = Some nc"
      by (auto simp: policy_violations_def Let_def bindE_Inr_iff)
    have caps: "0 \<le> gc" "0 \<le> ac" "0 \<le> nc" using pct u by (auto intro: percent_units)
    obtain a' g' where low: "concentration ?b (acc_asset_exposure ?acc) i = Inr a'"
      "concentration n (acc_network_exposure ?acc) i = Inr g'"
      using concentration_total by metis
    have le: "a' \<le> a" "g' \<le> g" using concentration_mono[OF ij] low u by blast+
    let ?ei = "acc_equity ?acc - fee_of c i" and ?ej = "acc_equity ?acc - fee_of c j"
    have no: "\<not> mx < j" "\<not> ?ej \<le> 0" "\<not> dl * eq < (acc_losses ?acc + fee_of c j) * 100 * SCALE"
      "\<not> dd * acc_peak ?acc < (acc_peak ?acc - ?ej) * 100 * SCALE"
      "\<not> gc * ?ej < (acc_exposure ?acc + j) * 100 * SCALE" "\<not> ac * ?ej < a * 100 * SCALE"
      "\<not> nc * ?ej < g * 100 * SCALE"
      "\<not> rl_max_open_positions ?l < int (card (insert ?b (acc_open_assets ?acc)))"
      using j True u by (simp_all add: policy_violations_def Let_def)
    have le2: "(acc_losses ?acc + fee_of c i) * 100 * SCALE \<le> (acc_losses ?acc + fee_of c j) * 100 * SCALE"
      "(acc_peak ?acc - ?ei) * 100 * SCALE \<le> (acc_peak ?acc - ?ej) * 100 * SCALE"
      using fee by (intro mult_right_mono; simp)+
    have "\<not> dl * eq < (acc_losses ?acc + fee_of c i) * 100 * SCALE"
      "\<not> dd * acc_peak ?acc < (acc_peak ?acc - ?ei) * 100 * SCALE"
      using le2 no(3,4) by linarith+
    moreover have "\<not> mx < i" "\<not> ?ei \<le> 0" using no(1,2) fee ij by linarith+
    moreover have "\<not> gc * ?ei < (acc_exposure ?acc + i) * 100 * SCALE"
      by (rule cap_mono[OF no(5) caps(1)]) (use fee ij in auto)
    moreover have "\<not> ac * ?ei < a' * 100 * SCALE" by (rule cap_mono[OF no(6) caps(2)]) (use fee le in auto)
    moreover have "\<not> nc * ?ei < g' * 100 * SCALE" by (rule cap_mono[OF no(7) caps(3)]) (use fee le in auto)
    ultimately show ?thesis
      using no(8) by (simp only: policy_violations_def Let_def True u low bindE_simps of_option_simps
        when_violation_def if_True if_False not_True_eq_False append_Nil)
  qed
qed

lemma policies_violations_mono:
  "sizing_ok c \<Longrightarrow> list_all (\<lambda>p. risk_policy_error p = None) ps \<Longrightarrow> i \<le> j \<Longrightarrow>
   policies_violations c j ps = Inr [] \<Longrightarrow> policies_violations c i ps = Inr []"
proof (induction ps)
  case (Cons p ps)
  then have "policy_violations c j p = Inr []" "policies_violations c j ps = Inr []"
    by (auto simp: bindE_Inr_iff)
  with Cons policy_violations_mono[of c p i j] show ?case by simp
qed simp

lemma violations_mono:
  "sizing_ok c \<Longrightarrow> i \<le> j \<Longrightarrow> violations c j = Inr [] \<Longrightarrow> violations c i = Inr []"
  using account_violations_mono[of c i j] policies_violations_mono[of c "sx_policies c" i j]
  by (auto simp: violations_def bindE_Inr_iff sizing_ok_def)

interpretation size_search: shrinkable sizing_ok size_test
proof unfold_locales
  fix c i j
  assume ok: "sizing_ok c" and ij: "0 \<le> i" "i \<le> (j::int)" and j: "size_test c j = Inr True"
  have "i * sx_increment c \<le> j * sx_increment c"
    using ok ij by (simp add: sizing_ok_def mult_right_mono)
  moreover have "violations c (j * sx_increment c) = Inr []"
    using j by (auto simp: size_test_def bindE_Inr_iff)
  ultimately show "size_test c i \<noteq> Inr False"
    using violations_mono[OF ok] by (auto simp: size_test_def)
qed

section \<open>What the search returns\<close>

lemma sizing_context_ok:
  assumes "registration_error H registration = None"
    "sizing_context_of request registration portfolio networks acc = Inr c"
  shows "sizing_ok c" "sx_fee c \<le> BPS_DENOMINATOR"
proof -
  note x = registration_execution[OF assms(1)]
  then have bps: "bps_ok (xp_fee_bps (rr_execution registration))"
    by (auto simp: execution_policy_error_def split: if_splits)
  have fee: "units (xp_fee_bps (rr_execution registration)) = Some (sx_fee c)"
    "0 < sx_increment c" "0 < sx_worst_price c" "sx_policies c = sorted_policies (rr_policies registration)"
    using assms(2) by (auto simp: sizing_context_of_def Let_def bindE_Inr_iff split: if_splits)
  show "sizing_ok c" "sx_fee c \<le> BPS_DENOMINATOR"
    using bps_units[OF bps fee(1)] fee registration_policies(4)[OF assms(1)]
    by (auto simp: sizing_ok_def sorted_policies_def list_all_iff)
qed

text \<open>An accepted search: the size violates nothing, and every larger multiple of the increment does.\<close>

lemma search_size_accepted:
  assumes ok: "sizing_ok c" and s: "search_size c = Inr (original, amount, False)"
  shows "0 < amount" "amount \<le> sx_requested c" "sx_increment c dvd amount"
    "violations c amount = Inr []" "0 < quantity_of c amount"
    "\<And>k. amount < k * sx_increment c \<Longrightarrow> k * sx_increment c \<le> sx_requested c \<Longrightarrow>
       violations c (k * sx_increment c) \<noteq> Inr []"
    "\<exists>ms m. minimum_notional (sx_policies c) = Inr ms \<and> py_max ms = Inr m \<and> m \<le> amount"
    "violations c (sx_requested c) = Inr original"
proof -
  let ?incr = "sx_increment c" and ?high = "sx_requested c div sx_increment c"
  have incr: "0 < ?incr" using ok by (simp add: sizing_ok_def)
  obtain low ms m where low: "bisect (size_test c) 0 ?high = Inr low" "amount = low * ?incr"
    and min: "minimum_notional (sx_policies c) = Inr ms" "py_max ms = Inr m"
    and acc: "m \<le> amount" "0 < amount" "0 < quantity_of c amount" "violations c amount = Inr []"
    and orig: "violations c (sx_requested c) = Inr original"
    using s by (auto simp: search_size_def bindE_Inr_iff Let_def not_less not_le split: if_splits)
  show "0 < amount" "0 < quantity_of c amount" "violations c amount = Inr []"
    "violations c (sx_requested c) = Inr original" "?incr dvd amount"
    "\<exists>ms m. minimum_notional (sx_policies c) = Inr ms \<and> py_max ms = Inr m \<and> m \<le> amount"
    using acc orig min low(2) by auto
  have pos: "0 < low" using acc(2) low(2) incr by (simp add: zero_less_mult_iff)
  have high: "0 \<le> ?high"
  proof (rule ccontr)
    assume "\<not> 0 \<le> ?high"
    then have "bisect (size_test c) 0 ?high = Inr 0" by (intro bisect_done) simp
    with low pos show False by simp
  qed
  note best = size_search.bisect_greatest[OF ok high low(1)]
  have floor: "?high * ?incr \<le> sx_requested c"
    using incr by (metis div_mult_mod_eq add_increasing2 order_refl pos_mod_sign)
  have "low * ?incr \<le> ?high * ?incr" using best incr by (simp add: mult_right_mono)
  then show "amount \<le> sx_requested c" using low(2) floor by linarith
  show "violations c (k * ?incr) \<noteq> Inr []"
    if k: "amount < k * ?incr" "k * ?incr \<le> sx_requested c" for k
  proof -
    have "low < k" using k(1) low(2) incr by (simp add: mult_less_cancel_right)
    moreover have "k \<le> ?high" using k(2) incr by (simp add: zdiv_mono1[of "k * ?incr" "sx_requested c" ?incr, simplified])
    ultimately have "size_test c k \<noteq> Inr True" using best by blast
    then show ?thesis by (auto simp: size_test_def)
  qed
qed

section \<open>What evaluate returns\<close>

text \<open>The reason codes the evaluator can give besides \<open>APPROVED\<close>: at most 32 in one evaluation.\<close>

definition evaluator_codes :: "reason_code list" where
  "evaluator_codes =
     [R_APPROVED_RESIZED, R_STALE_DATA, R_MISSING_DATA_FAMILY, R_DATA_QUALITY_BELOW_MINIMUM,
      R_UNKNOWN_ACCOUNT_STATE, R_RECONCILIATION_STALE, R_EXCHANGE_CONNECTIVITY_DEGRADED,
      R_UNSUPPORTED_SYMBOL, R_SPREAD_TOO_WIDE, R_INSUFFICIENT_LIQUIDITY, R_EDGE_BELOW_COST_PLUS_MARGIN,
      R_BELOW_MINIMUM_ORDER_SIZE, R_MAX_POSITION_EXCEEDED, R_MAX_GROSS_EXPOSURE_EXCEEDED,
      R_NETWORK_CONCENTRATION_EXCEEDED, R_MAX_OPEN_POSITIONS_EXCEEDED, R_INSUFFICIENT_CASH,
      R_DAILY_LOSS_LIMIT_REACHED, R_DRAWDOWN_CIRCUIT_BREAKER, R_KILL_SWITCH_ACTIVE,
      R_AGENT_VERSION_NOT_APPROVED, R_MODE_NOT_PERMITTED, R_SCHEDULED_EVENT_RISK,
      R_EVIDENCE_REQUIREMENTS_NOT_MET, R_INTENT_EXPIRED, R_CONTEXT_MISMATCH, R_UNSUPPORTED_ORDER_TYPE,
      R_EXECUTION_LEASE_EXPIRED, R_UNSUPPORTED_PRECISION, R_MAX_ORDER_EXCEEDED]"

lemma in_codes: "r \<in> set evaluator_codes \<longleftrightarrow> r \<notin> {R_APPROVED, R_CREDENTIAL_STATUS_UNCERTAIN,
    R_UNSUPPORTED_INSTRUMENT_CLASS, R_PORTFOLIO_CONCENTRATION_EXCEEDED, R_LIVE_TRADING_DISABLED,
    R_DUPLICATE_INTENT, R_POLICY_VERSION_MISMATCH}"
  by (cases r) (simp_all add: evaluator_codes_def)

lemma when_reason_codes: "r \<in> set evaluator_codes \<Longrightarrow> set (when_reason b r) \<subseteq> set evaluator_codes"
  by (auto simp: when_reason_def)

lemma when_violation_codes:
  "r \<in> set evaluator_codes \<Longrightarrow> fst ` set (when_violation b r s) \<subseteq> set evaluator_codes"
  by (auto simp: when_violation_def)

lemma concat_codes: "(\<And>x. x \<in> set xs \<Longrightarrow> set (f x) \<subseteq> S) \<Longrightarrow> set (concat (map f xs)) \<subseteq> S"
  by auto

lemma authority_codes: "set (authority_reasons request registration portfolio controls now) \<subseteq> set evaluator_codes"
  unfolding authority_reasons_def Let_def set_append
  by (intro Un_least when_reason_codes) (simp_all add: in_codes)

lemma data_codes: "set (data_reasons request execution now) \<subseteq> set evaluator_codes"
  unfolding data_reasons_def Let_def set_append
  by (intro Un_least when_reason_codes) (simp_all add: in_codes)

lemma policy_context_codes: "set (policy_context_reasons request controls now policy) \<subseteq> set evaluator_codes"
  unfolding policy_context_reasons_def Let_def set_append
  by (intro Un_least when_reason_codes concat_codes)
     (auto simp: evaluator_codes_def when_reason_def split: prod.splits if_splits)

lemma context_codes:
  assumes "context_reasons H request registration portfolio controls now = Inr reasons"
  shows "set reasons \<subseteq> set evaluator_codes"
proof -
  have "reasons = (when_reason (context_mismatch H request registration portfolio now) R_CONTEXT_MISMATCH
            @ authority_reasons request registration portfolio controls now
            @ data_reasons request (rr_execution registration) now
            @ concat (map (policy_context_reasons request controls now) (rr_policies registration)))
        @ when_reason (evidence_unmet request (rr_agent_version registration)) R_EVIDENCE_REQUIREMENTS_NOT_MET"
    using assms unfolding context_reasons_def Let_def by (simp split: if_split_asm)
  then show ?thesis
    unfolding set_append
    by (simp only: set_append)
      (intro Un_least when_reason_codes concat_codes authority_codes data_codes policy_context_codes; simp add: in_codes)
qed

lemma policy_market_codes: "set (fst (policy_market_reasons decision c policy)) \<subseteq> set evaluator_codes"
  unfolding policy_market_reasons_def Let_def
  by (auto simp: set_when_reason evaluator_codes_def split: option.splits)

lemma market_codes: "set (fst (market_reasons decision c ps)) \<subseteq> set evaluator_codes"
proof (induction ps)
  case (Cons p ps)
  then show ?case using policy_market_codes[of decision c p]
    by (auto split: prod.splits bool.splits)
qed simp

lemma account_violation_codes: "fst ` set (account_violations c x) \<subseteq> set evaluator_codes"
  unfolding account_violations_def set_append image_Un
  by (intro Un_least when_violation_codes) (simp_all add: evaluator_codes_def)

lemma policy_violation_codes:
  "policy_violations c x p = Inr vs \<Longrightarrow> fst ` set vs \<subseteq> set evaluator_codes"
proof -
  assume "policy_violations c x p = Inr vs"
  then have "\<exists>b1 b2 b3 b4 b5 b6 b7 b8 s. vs = when_violation b1 R_MAX_ORDER_EXCEEDED s \<or>
    vs = when_violation b1 R_MAX_ORDER_EXCEEDED s @ when_violation b2 R_INSUFFICIENT_CASH s
      @ when_violation b3 R_DAILY_LOSS_LIMIT_REACHED s @ when_violation b4 R_DRAWDOWN_CIRCUIT_BREAKER s
      @ when_violation b5 R_MAX_GROSS_EXPOSURE_EXCEEDED s @ when_violation b6 R_MAX_POSITION_EXCEEDED s
      @ when_violation b7 R_NETWORK_CONCENTRATION_EXCEEDED s @ when_violation b8 R_MAX_OPEN_POSITIONS_EXCEEDED s"
    unfolding policy_violations_def Let_def by (simp add: bindE_Inr_iff split: if_splits) blast+
  then show ?thesis
    by (elim exE disjE; simp only: set_append image_Un; intro Un_least when_violation_codes) (simp_all add: in_codes)
qed

lemma policies_violation_codes:
  "policies_violations c x ps = Inr vs \<Longrightarrow> fst ` set vs \<subseteq> set evaluator_codes"
proof (induction ps arbitrary: vs)
  case (Cons p ps)
  then obtain a b where "policy_violations c x p = Inr a" "policies_violations c x ps = Inr b" "vs = a @ b"
    by (auto simp: bindE_Inr_iff)
  with Cons.IH[of b] policy_violation_codes[of c x p a] show ?case by (simp add: image_Un)
qed simp

lemma violation_codes: "violations c x = Inr vs \<Longrightarrow> fst ` set vs \<subseteq> set evaluator_codes"
proof -
  assume "violations c x = Inr vs"
  then obtain ws where "policies_violations c x (sx_policies c) = Inr ws" "vs = account_violations c x @ ws"
    by (auto simp: violations_def bindE_Inr_iff)
  with account_violation_codes[of c x] policies_violation_codes[of c x "sx_policies c" ws]
  show ?thesis by (simp add: image_Un)
qed

lemma handler_codes [simp]:
  "R_UNSUPPORTED_PRECISION \<in> set evaluator_codes" "R_APPROVED_RESIZED \<in> set evaluator_codes"
  "R_BELOW_MINIMUM_ORDER_SIZE \<in> set evaluator_codes" "R_UNKNOWN_ACCOUNT_STATE \<in> set evaluator_codes"
  by (simp_all add: in_codes)

lemma caught_Inr: "caught e rs = Inr (reasons, s) \<Longrightarrow> s = no_size \<and> reasons = rs @ [R_UNSUPPORTED_PRECISION]"
  by (auto simp: caught_def split: if_splits)

lemma no_size_amount [simp]: "sz_amount no_size = 0" "sz_reservation no_size = None"
  by (simp_all add: no_size_def)

lemma search_size_original: "search_size c = Inr (original, amount, refused) \<Longrightarrow> violations c (sx_requested c) = Inr original"
  by (auto simp: search_size_def bindE_Inr_iff Let_def split: if_splits)

lemma choose_size_cases:
  assumes "choose_size intent_id c = Inr (reasons, s)"
  obtains (refused) "s = no_size" "reasons \<noteq> []" "set reasons \<subseteq> set evaluator_codes"
  | (approved) original amount binding where "search_size c = Inr (original, amount, False)"
      "make_sizing intent_id c amount binding = Inr s"
      "reasons = (if amount < sx_requested c then R_APPROVED_RESIZED # map fst original else [R_APPROVED])"
proof (cases "search_size c")
  case (Inl e)
  then show ?thesis using assms caught_Inr[of e "[]" reasons s]
    by (intro refused) (auto simp: choose_size_def)
next
  case (Inr t)
  then obtain original amount no where t: "search_size c = Inr (original, amount, no)" by (cases t) auto
  have codes: "fst ` set original \<subseteq> set evaluator_codes"
    by (rule violation_codes[OF search_size_original[OF t]])
  consider "no" | "\<not> no" "amount < sx_requested c" | "\<not> no" "\<not> amount < sx_requested c" by blast
  then show ?thesis
  proof cases
    case 1
    with assms t codes show ?thesis
      by (intro refused; simp add: choose_size_def; fastforce)
  next
    case 2
    show ?thesis
    proof (cases "violations c (amount + sx_increment c)")
      case (Inl e)
      then show ?thesis using assms t 2 codes caught_Inr[of e "R_APPROVED_RESIZED # map fst original" reasons s]
        by (intro refused; simp add: choose_size_def; fastforce)
    next
      case (Inr next_step)
      with assms t 2 show ?thesis
        by (intro approved[of original amount]) (auto simp: choose_size_def bindE_Inr_iff)
    qed
  next
    case 3
    with assms t show ?thesis
      by (intro approved[of original amount None]) (auto simp: choose_size_def bindE_Inr_iff)
  qed
qed

text \<open>What an approval rests on.\<close>

definition approval_basis ::
    "(risk_artefact \<Rightarrow> string) \<Rightarrow> risk_request \<Rightarrow> risk_registration \<Rightarrow> portfolio_snapshot \<Rightarrow> risk_controls \<Rightarrow>
     (string \<times> string) list \<Rightarrow> reservation list \<Rightarrow> datetime \<Rightarrow> account \<Rightarrow> sizing_context \<Rightarrow> violation list \<Rightarrow> int \<Rightarrow>
     sizing \<Rightarrow> bool" where
  "approval_basis H request registration portfolio controls networks reservations now acc c original amount s \<longleftrightarrow>
     context_reasons H request registration portfolio controls now = Inr [] \<and>
     account_state portfolio networks reservations = Some acc \<and>
     sizing_context_of request registration portfolio networks acc = Inr c \<and>
     market_reasons (rq_decision request) c (sx_policies c) = ([], False) \<and>
     search_size c = Inr (original, amount, False) \<and>
     (\<exists>binding. make_sizing (oi_order_intent_id (rq_intent request)) c amount binding = Inr s)"

lemma evaluate_cases:
  assumes "evaluate H request registration portfolio controls networks reservations now = Inr (rec, res)"
  obtains (rejected) reasons where "reasons \<noteq> []" "set reasons \<subseteq> set evaluator_codes" "res = None"
      "rec = make_record H request registration portfolio controls reservations now reasons no_size"
  | (approved) acc c original amount s where
      "approval_basis H request registration portfolio controls networks reservations now acc c original amount s"
      "res = sz_reservation s"
      "rec = make_record H request registration portfolio controls reservations now
         (if amount < sx_requested c then R_APPROVED_RESIZED # map fst original else [R_APPROVED]) s"
proof -
  obtain before reasons s where
    ctx: "context_reasons H request registration portfolio controls now = Inr before" and
    size: "evaluate_size request registration portfolio networks reservations before = Inr (reasons, s)" and
    rec: "rec = make_record H request registration portfolio controls reservations now reasons s" "res = sz_reservation s"
    using assms by (auto simp: evaluate_def bindE_Inr_iff)
  note codes = context_codes[OF ctx]
  show ?thesis
  proof (cases "account_state portfolio networks reservations")
    case None
    with size rec codes show ?thesis
      by (intro rejected[of reasons]) (auto simp: evaluate_size_def)
  next
    case (Some acc)
    show ?thesis
    proof (cases "before = []")
      case False
      with size rec codes Some show ?thesis
        by (intro rejected[of reasons]) (auto simp: evaluate_size_def)
    next
      case True
      with size Some have so: "size_order request registration portfolio networks acc = Inr (reasons, s)"
        by (simp add: evaluate_size_def)
      show ?thesis
      proof (cases "sizing_context_of request registration portfolio networks acc")
        case (Inl e)
        with so rec caught_Inr[of e "[]" reasons s] show ?thesis
          by (intro rejected[of reasons]) (auto simp: size_order_def)
      next
        case (Inr c)
        obtain mr raised where mr: "market_reasons (rq_decision request) c (sx_policies c) = (mr, raised)"
          by fastforce
        then have mcodes: "set mr \<subseteq> set evaluator_codes"
          using market_codes[of "rq_decision request" c "sx_policies c"] by simp
        consider raised | "\<not> raised" "mr \<noteq> []" | "\<not> raised" "mr = []" by blast
        then show ?thesis
        proof cases
          case 1
          with so rec Inr mr mcodes caught_Inr[of ValueError mr reasons s] show ?thesis
            by (intro rejected[of reasons]) (auto simp: size_order_def)
        next
          case 2
          with so rec Inr mr mcodes show ?thesis
            by (intro rejected[of reasons]) (auto simp: size_order_def)
        next
          case 3
          with so Inr mr have ch: "choose_size (oi_order_intent_id (rq_intent request)) c = Inr (reasons, s)"
            by (simp add: size_order_def)
          then show ?thesis
          proof (cases rule: choose_size_cases)
            case refused
            then show ?thesis using rec by (intro rejected[of reasons]) auto
          next
            case (approved original amount binding)
            have "approval_basis H request registration portfolio controls networks reservations now acc c original amount s"
              unfolding approval_basis_def using ctx True Some Inr mr 3 approved by auto
            then show ?thesis using that(2) rec approved by blast
          qed
        qed
      qed
    qed
  qed
qed

end
