(* ===== verification/RiskGuarantees.thy ===== *)
theory RiskGuarantees
  imports RiskApproval
begin

text \<open>
  The guarantees of \<open>evaluate\<close> (\<open>kavrigo_risk/evaluator.py\<close>) that its callers rely on, stated over the
  whole function.
\<close>

section \<open>The account after a reservation\<close>

lemma reserve_step_swap:
  "reserve_step (a\<lparr>acc_losses := l, acc_peak := k\<rparr>) r = (reserve_step a r)\<lparr>acc_losses := l, acc_peak := k\<rparr>"
  by (simp add: reserve_step_def)

definition with_reservation :: "account \<Rightarrow> reservation \<Rightarrow> account" where
  "with_reservation a r = (reserve_step a r)\<lparr>acc_losses := acc_losses a + rs_cost r\<rparr>"

lemma account_state_snoc:
  "account_state portfolio networks (rs @ [r]) =
   map_option (\<lambda>a. with_reservation a r) (account_state portfolio networks rs)"
  by (auto simp: account_state_def with_reservation_def reserve_step_def Let_def bind_eq_Some_conv
      split: Option.bind_split)

lemma with_reservation_sel [simp]:
  "acc_cash (with_reservation a r) = acc_cash a - rs_cash_debit r"
  "acc_equity (with_reservation a r) = acc_equity a - rs_cost r"
  "acc_exposure (with_reservation a r) = acc_exposure a + rs_buy_notional r"
  "acc_asset_exposure (with_reservation a r) = add_at (rs_asset r) (rs_buy_notional r) (acc_asset_exposure a)"
  "acc_network_exposure (with_reservation a r) = add_at (rs_network r) (rs_buy_notional r) (acc_network_exposure a)"
  "acc_quantities (with_reservation a r) = add_at (rs_instrument r) (- rs_sell_quantity r) (acc_quantities a)"
  "acc_open_assets (with_reservation a r) =
     (if rs_buy_notional r \<noteq> 0 then insert (rs_asset r) (acc_open_assets a) else acc_open_assets a)"
  "acc_losses (with_reservation a r) = acc_losses a + rs_cost r"
  "acc_peak (with_reservation a r) = acc_peak a"
  by (simp_all add: with_reservation_def reserve_step_def)

definition keys_distinct :: "account \<Rightarrow> bool" where
  "keys_distinct a \<longleftrightarrow> distinct (map fst (acc_asset_exposure a)) \<and> distinct (map fst (acc_network_exposure a))"

lemma position_step_keys: "position_step n p a = Some b \<Longrightarrow> keys_distinct a \<Longrightarrow> keys_distinct b"
  by (auto simp: position_step_def keys_distinct_def Let_def bind_eq_Some_conv distinct_keys_add_at
      split: option.splits if_splits)

lemma positions_loop_keys: "positions_loop n ps a = Some b \<Longrightarrow> keys_distinct a \<Longrightarrow> keys_distinct b"
  by (induction ps arbitrary: a) (auto split: option.splits dest: position_step_keys)

lemma reserve_step_keys: "keys_distinct a \<Longrightarrow> keys_distinct (foldl reserve_step a rs)"
  by (induction rs arbitrary: a) (auto simp: reserve_step_def keys_distinct_def distinct_keys_add_at)

lemma account_stateE:
  assumes "account_state portfolio networks rs = Some acc"
  obtains a cash equity pnl peak where "positions_loop networks (pf_positions portfolio) empty_account = Some a"
    "units (m_amount (pf_cash portfolio)) = Some cash" "0 \<le> cash"
    "units (m_amount (pf_equity portfolio)) = Some equity" "0 < equity" "equity = cash + acc_exposure a"
    "units (m_amount (pf_realized_pnl_today portfolio)) = Some pnl"
    "units (m_amount (pf_peak_equity portfolio)) = Some peak"
    "acc = (foldl reserve_step (a\<lparr>acc_cash := cash, acc_equity := equity,
       acc_open_assets := set (map fst (filter (\<lambda>(asset, v). 0 < v) (acc_asset_exposure a)))\<rparr>) rs)
       \<lparr>acc_losses := max 0 (- pnl) + sum_list (map rs_cost rs), acc_peak := peak\<rparr>"
  using assms unfolding account_state_def Let_def bind_eq_Some_conv
  by (elim exE conjE; simp only: split: if_splits; simp add: not_less not_le)

lemma account_state_keys:
  assumes "account_state portfolio networks rs = Some acc"
  shows "keys_distinct acc"
  using assms
proof (cases rule: account_stateE)
  case (1 a cash equity pnl peak)
  have "keys_distinct a" by (rule positions_loop_keys[OF 1(1)]) (simp add: keys_distinct_def empty_account_def)
  then have "keys_distinct (a\<lparr>acc_cash := cash, acc_equity := equity,
       acc_open_assets := set (map fst (filter (\<lambda>(asset, v). 0 < v) (acc_asset_exposure a)))\<rparr>)"
    by (simp add: keys_distinct_def)
  from reserve_step_keys[OF this, of rs] show ?thesis
    unfolding 1(9) by (simp add: keys_distinct_def)
qed

lemma map_of_foldl_update:
  "distinct (map fst d) \<Longrightarrow> map_of (foldl (\<lambda>acc (k, v). AList.update k v acc) acc d) = map_of acc ++ map_of d"
proof (induction d arbitrary: acc)
  case (Cons kv d)
  obtain k v where kv: "kv = (k, v)" by (cases kv)
  have k: "map_of d k = None" using Cons.prems kv by (simp add: map_of_eq_None_iff)
  have "map_of (foldl (\<lambda>acc (k, v). AList.update k v acc) acc (kv # d)) = (map_of acc)(k \<mapsto> v) ++ map_of d"
    using Cons kv by (simp add: update_conv')
  also have "\<dots> = map_of acc ++ map_of (kv # d)"
    using k kv by (auto simp: map_add_def split: option.splits)
  finally show ?case .
qed simp

text \<open>The concentration the code computes bounds every entry, with the candidate added at its key.\<close>

lemma concentration_bound:
  assumes "distinct (map fst d)" "concentration key d x = Inr b"
  shows "get0 d key + x \<le> b" "j \<in> fst ` set d \<Longrightarrow> j \<noteq> key \<Longrightarrow> get0 d j \<le> b"
proof -
  define w where "w = with_default key d"
  define f where "f = (\<lambda>(k, v). v + (if k = key then x else (0::int)))"
  have w: "map_of w = [key \<mapsto> 0] ++ map_of d"
    using assms(1) by (simp add: w_def with_default_def map_of_foldl_update)
  obtain kv rest where split: "w = kv # rest"
    using with_default_not_Nil[of key d] unfolding w_def[symmetric] by (cases w) auto
  have "b = foldl max (f kv) (map f rest)"
    using assms(2) split unfolding concentration_def w_def[symmetric] f_def[symmetric] by simp
  then have bound: "f y \<le> b" if "y \<in> set w" for y
    using that split foldl_max_ge(1)[of "f kv" "map f rest"] foldl_max_ge(2)[of "f y" "map f rest" "f kv"]
    by (cases "y = kv") simp_all
  have "map_of w key = Some (get0 d key)"
    by (simp add: w map_add_def get0_def split: option.splits)
  from bound[OF map_of_SomeD[OF this]] show "get0 d key + x \<le> b" by (simp add: f_def)
  show "get0 d j \<le> b" if "j \<in> fst ` set d" "j \<noteq> key"
  proof -
    have "map_of d j \<noteq> None" using that(1) by (simp add: map_of_eq_None_iff)
    then have "map_of w j = Some (get0 d j)" by (auto simp: w map_add_def get0_def split: option.splits)
    from bound[OF map_of_SomeD[OF this]] that(2) show ?thesis by (simp add: f_def)
  qed
qed

section \<open>Facts of an approval\<close>

lemma sizing_context_fields:
  assumes "sizing_context_of request registration portfolio networks acc = Inr c"
  shows "units (m_amount (oi_notional (rq_intent request))) = Some (sx_requested c)"
    "sx_buying c \<longleftrightarrow> oi_side (rq_intent request) = Buy"
    "sx_policies c = sorted_policies (rr_policies registration)"
    "sx_account c = acc" "sx_equity c = m_amount (pf_equity portfolio)"
    "sx_instrument c = oi_instrument_id (rq_intent request)" "sx_networks c = networks"
    "units (xp_notional_increment_usd (rr_execution registration)) = Some (sx_increment c)"
  using assms by (auto simp: sizing_context_of_def Let_def bindE_Inr_iff split: if_splits)

lemma make_sizing_Inr:
  assumes "make_sizing intent_id c amount binding = Inr s"
  shows "sz_amount s = amount" "sz_quantity s = quantity_of c amount" "sz_cost s = fee_of c amount"
    "sz_debit s = (if sx_buying c then amount else 0) + fee_of c amount" "sz_binding s = binding"
    "\<exists>network. map_of (sx_networks c) (i_value (sx_instrument c)) = Some network \<and>
       sz_reservation s = Some \<lparr>rs_intent_id = intent_id, rs_instrument = i_value (sx_instrument c),
         rs_asset = i_base (sx_instrument c), rs_network = network,
         rs_buy_notional = (if sx_buying c then amount else 0),
         rs_sell_quantity = (if sx_buying c then 0 else quantity_of c amount),
         rs_cash_debit = sz_debit s, rs_cost = sz_cost s\<rparr>"
  using assms by (auto simp: make_sizing_def Let_def bindE_Inr_iff)

lemma make_record_sel [simp]:
  "re_decision (rd_evaluation (make_record H q g p k rs now reasons s)) = evaluation_decision reasons (sz_amount s)"
  "re_reason_codes (rd_evaluation (make_record H q g p k rs now reasons s)) = dedupe reasons"
  "re_approved_notional (rd_evaluation (make_record H q g p k rs now reasons s)) =
     \<lparr>m_amount = decimal_of (sz_amount s), m_currency = m_currency (oi_notional (rq_intent q))\<rparr>"
  "re_requested_notional (rd_evaluation (make_record H q g p k rs now reasons s)) = oi_notional (rq_intent q)"
  "re_applied_policy_ids (rd_evaluation (make_record H q g p k rs now reasons s)) =
     map rp_risk_policy_id (sorted_policies (rr_policies g))"
  "rd_expires_at (make_record H q g p k rs now reasons s) = approval_expiry (rq_intent q) k (rr_execution g) now"
  "rd_max_quantity (make_record H q g p k rs now reasons s) =
     \<lparr>q_value = decimal_of (sz_quantity s), q_asset = i_base (oi_instrument_id (rq_intent q))\<rparr>"
  "rd_max_cash_debit (make_record H q g p k rs now reasons s) = \<lparr>m_amount = decimal_of (sz_debit s), m_currency = ''USD''\<rparr>"
  "rd_request_hash (make_record H q g p k rs now reasons s) = H (HRequest q)"
  "rd_account_id (make_record H q g p k rs now reasons s) = rc_account_id k"
  "re_evaluated_at (rd_evaluation (make_record H q g p k rs now reasons s)) = now"
  "re_order_intent_id (rd_evaluation (make_record H q g p k rs now reasons s)) = oi_order_intent_id (rq_intent q)"
  by (simp_all add: make_record_def Let_def)

lemma basis_facts:
  assumes b: "approval_basis H request registration portfolio controls networks reservations now acc c original amount s"
    and reg: "registration_error H registration = None"
  shows "sizing_ok c" "0 < amount" "amount \<le> sx_requested c" "violations c amount = Inr []" "sz_amount s = amount"
    "0 < quantity_of c amount" "sx_account c = acc" "sx_instrument c = oi_instrument_id (rq_intent request)"
    "0 \<le> sx_fee c"
  using b sizing_context_ok[OF reg, of request portfolio networks acc c] search_size_accepted(1,2,4,5)[of c original amount]
    make_sizing_Inr(1) sizing_context_fields(4,6)[of request registration portfolio networks acc c]
  by (auto simp: approval_basis_def sizing_ok_def)

text \<open>Only an approved evaluation has an approval basis, and it has one.\<close>

lemma evaluate_approved:
  assumes ev: "evaluate H request registration portfolio controls networks reservations now = Inr (rec, res)"
    and reg: "registration_error H registration = None"
    and ok: "is_approved (rd_evaluation rec)"
  obtains acc c original amount s where
    "approval_basis H request registration portfolio controls networks reservations now acc c original amount s"
    "res = sz_reservation s"
    "rec = make_record H request registration portfolio controls reservations now
       (if amount < sx_requested c then R_APPROVED_RESIZED # map fst original else [R_APPROVED]) s"
  using ev
proof (cases rule: evaluate_cases)
  case (rejected reasons)
  then show ?thesis using ok by (simp add: is_approved_def evaluation_decision_def)
next
  case (approved acc c original amount s)
  then show ?thesis by (rule that)
qed

lemma evaluate_not_approved:
  assumes ev: "evaluate H request registration portfolio controls networks reservations now = Inr (rec, res)"
    and reg: "registration_error H registration = None"
    and no: "\<not> is_approved (rd_evaluation rec)"
  shows "res = None" "re_decision (rd_evaluation rec) = DRejected"
    "m_amount (re_approved_notional (rd_evaluation rec)) = decimal_of 0"
proof -
  have "res = None \<and> re_decision (rd_evaluation rec) = DRejected \<and>
    m_amount (re_approved_notional (rd_evaluation rec)) = decimal_of 0"
    using ev
  proof (cases rule: evaluate_cases)
    case (rejected reasons)
    then show ?thesis by (simp add: evaluation_decision_def)
  next
    case (approved acc c original amount s)
    with no basis_facts(2,5)[OF approved(1) reg] show ?thesis
      by (auto simp: is_approved_def evaluation_decision_def split: if_splits)
  qed
  then show "res = None" "re_decision (rd_evaluation rec) = DRejected"
    "m_amount (re_approved_notional (rd_evaluation rec)) = decimal_of 0" by simp_all
qed

lemma dedupe_length: "set xs \<subseteq> set ys \<Longrightarrow> length (dedupe xs) \<le> length ys"
proof -
  assume "set xs \<subseteq> set ys"
  then have "card (set (dedupe xs)) \<le> card (set ys)" by (simp add: card_mono)
  then show ?thesis using card_length[of ys] distinct_card[of "dedupe xs"] by simp
qed

lemma evaluation_passes_validator:
  assumes ev: "evaluate H request registration portfolio controls networks reservations now = Inr (rec, res)"
    and reg: "registration_error H registration = None"
    and intent: "order_intent_error (rq_intent request) = None"
  shows "risk_evaluation_error (rd_evaluation rec) = None"
proof -
  let ?n = "m_amount (oi_notional (rq_intent request))"
  have pos: "\<not> is_negative ?n" "\<not> is_zero ?n"
    using intent by (auto simp: order_intent_error_def split: if_splits)
  have ids: "sorted_policies (rr_policies registration) \<noteq> []" "length (sorted_policies (rr_policies registration)) \<le> 16"
    using registration_policies(2,3)[OF reg]
    by (auto simp: sorted_policies_def dest: arg_cong[of _ _ length])
  show ?thesis
    using ev
  proof (cases rule: evaluate_cases)
    case (rejected reasons)
    have "length (dedupe reasons) \<le> 30"
      using dedupe_length[OF rejected(2)] by (simp add: evaluator_codes_def)
    moreover have "\<not> ?n < decimal_of 0"
      using pos(1) by (simp add: is_negative_def dec_less_val decimal_of_def)
    moreover have "R_APPROVED \<notin> set reasons" using rejected(2) by (auto simp: in_codes)
    ultimately show ?thesis
      using rejected ids by (simp add: risk_evaluation_error_def evaluation_decision_def Let_def)
  next
    case (approved acc c original amount s)
    note f = basis_facts[OF approved(1) reg]
    have ctx: "sizing_context_of request registration portfolio networks acc = Inr c"
      and search: "search_size c = Inr (original, amount, False)"
      using approved(1) by (auto simp: approval_basis_def)
    have req: "units ?n = Some (sx_requested c)" by (rule sizing_context_fields(1)[OF ctx])
    have range: "\<bar>amount\<bar> \<le> MAX_UNITS" using f(2,3) units_value(2)[OF req] by linarith
    then have amt: "units (decimal_of amount) = Some amount" by (simp add: units_decimal_of)
    have cmp: "?n < decimal_of amount \<longleftrightarrow> sx_requested c < amount" "?n \<le> decimal_of amount \<longleftrightarrow> sx_requested c \<le> amount"
      "dec_eq (decimal_of amount) ?n \<longleftrightarrow> amount = sx_requested c"
      using units_less[OF req amt] units_le[OF req amt] units_eq[OF amt req] by simp_all
    let ?r = "if amount < sx_requested c then R_APPROVED_RESIZED # map fst original else [R_APPROVED]"
    have codes: "fst ` set original \<subseteq> set evaluator_codes"
      by (rule violation_codes[OF search_size_original[OF search]])
    then have "set ?r \<subseteq> set (R_APPROVED # evaluator_codes)" by auto
    from dedupe_length[OF this] have len: "length (dedupe ?r) \<le> 31" by (simp add: evaluator_codes_def)
    show ?thesis
      using approved(3) f(2,3,5) ids len cmp
      by (auto simp: risk_evaluation_error_def evaluation_decision_def Let_def split: if_splits)
  qed
qed

section \<open>Limits hold after the reservation\<close>

lemma policies_violationsD:
  "policies_violations c x ps = Inr [] \<Longrightarrow> p \<in> set ps \<Longrightarrow> policy_violations c x p = Inr []"
  by (induction ps) (auto simp: bindE_Inr_iff)

lemma violationsD:
  assumes "violations c x = Inr []"
  shows "account_violations c x = []" "p \<in> set (sx_policies c) \<Longrightarrow> policy_violations c x p = Inr []"
  using assms policies_violationsD[of c x "sx_policies c" p] by (auto simp: violations_def bindE_Inr_iff)

text \<open>The limits of one policy on an account, as \<open>violations\<close> reads them, in fixed-point units.\<close>

definition within_policy :: "portfolio_snapshot \<Rightarrow> string \<Rightarrow> string \<Rightarrow> risk_policy \<Rightarrow> account \<Rightarrow> bool" where
  "within_policy portfolio asset network p a \<longleftrightarrow>
     (\<exists>equity daily drawdown gross_cap asset_cap network_cap.
        units (m_amount (pf_equity portfolio)) = Some equity \<and>
        units (rl_max_daily_loss_pct (rp_limits p)) = Some daily \<and>
        units (rl_max_drawdown_pct (rp_limits p)) = Some drawdown \<and>
        units (rl_max_gross_exposure_pct (rp_limits p)) = Some gross_cap \<and>
        units (rl_max_single_asset_exposure_pct (rp_limits p)) = Some asset_cap \<and>
        units (rl_max_network_exposure_pct (rp_limits p)) = Some network_cap \<and>
        0 < acc_equity a \<and>
        acc_losses a * 100 * SCALE \<le> daily * equity \<and>
        (acc_peak a - acc_equity a) * 100 * SCALE \<le> drawdown * acc_peak a \<and>
        acc_exposure a * 100 * SCALE \<le> gross_cap * acc_equity a \<and>
        (\<forall>x \<in> insert asset (fst ` set (acc_asset_exposure a)).
           get0 (acc_asset_exposure a) x * 100 * SCALE \<le> asset_cap * acc_equity a) \<and>
        (\<forall>x \<in> insert network (fst ` set (acc_network_exposure a)).
           get0 (acc_network_exposure a) x * 100 * SCALE \<le> network_cap * acc_equity a) \<and>
        int (card (acc_open_assets a)) \<le> rl_max_open_positions (rp_limits p))"

lemma scaled_le: "(x::int) \<le> y \<Longrightarrow> y * 100 * SCALE \<le> z \<Longrightarrow> x * 100 * SCALE \<le> z"
  by (rule order_trans[of _ "y * 100 * SCALE"]) (intro mult_right_mono; simp)

lemma buy_within_policy:
  assumes viol: "policy_violations c amount p = Inr []" and buy: "sx_buying c" and pos: "0 < amount"
    and keys: "keys_distinct (sx_account c)" and equity: "sx_equity c = m_amount (pf_equity portfolio)"
    and r: "rs_asset r = i_base (sx_instrument c)" "map_of (sx_networks c) (i_value (sx_instrument c)) = Some (rs_network r)"
      "rs_buy_notional r = amount" "rs_cost r = fee_of c amount"
  shows "within_policy portfolio (rs_asset r) (rs_network r) p (with_reservation (sx_account c) r)"
proof -
  let ?l = "rp_limits p" and ?acc = "sx_account c"
  obtain mx dl eq dd a g gc ac nc where u:
    "units (rl_max_order_notional_usd ?l) = Some mx" "units (rl_max_daily_loss_pct ?l) = Some dl"
    "units (sx_equity c) = Some eq" "units (rl_max_drawdown_pct ?l) = Some dd"
    "concentration (rs_asset r) (acc_asset_exposure ?acc) amount = Inr a"
    "concentration (rs_network r) (acc_network_exposure ?acc) amount = Inr g"
    "units (rl_max_gross_exposure_pct ?l) = Some gc" "units (rl_max_single_asset_exposure_pct ?l) = Some ac"
    "units (rl_max_network_exposure_pct ?l) = Some nc"
    using viol buy r by (auto simp: policy_violations_def Let_def bindE_Inr_iff)
  let ?e = "acc_equity ?acc - fee_of c amount"
  have no: "0 < ?e" "(acc_losses ?acc + fee_of c amount) * 100 * SCALE \<le> dl * eq"
    "(acc_peak ?acc - ?e) * 100 * SCALE \<le> dd * acc_peak ?acc"
    "(acc_exposure ?acc + amount) * 100 * SCALE \<le> gc * ?e" "a * 100 * SCALE \<le> ac * ?e" "g * 100 * SCALE \<le> nc * ?e"
    "int (card (insert (rs_asset r) (acc_open_assets ?acc))) \<le> rl_max_open_positions ?l"
    using viol buy u r by (simp_all add: policy_violations_def Let_def not_less not_le)
  have asset: "get0 (add_at (rs_asset r) amount (acc_asset_exposure ?acc)) x \<le> a"
    if "x \<in> insert (rs_asset r) (fst ` set (add_at (rs_asset r) amount (acc_asset_exposure ?acc)))" for x
    using that concentration_bound[OF _ u(5)] keys
    by (cases "x = rs_asset r") (auto simp: keys_distinct_def keys_add_at)
  have network: "get0 (add_at (rs_network r) amount (acc_network_exposure ?acc)) x \<le> g"
    if "x \<in> insert (rs_network r) (fst ` set (add_at (rs_network r) amount (acc_network_exposure ?acc)))" for x
    using that concentration_bound[OF _ u(6)] keys
    by (cases "x = rs_network r") (auto simp: keys_distinct_def keys_add_at)
  have open_assets: "int (card (acc_open_assets (with_reservation ?acc r))) \<le> rl_max_open_positions ?l"
    using no(7) r(3) pos by simp
  show ?thesis
    unfolding within_policy_def
  proof (rule exI[of _ eq], rule exI[of _ dl], rule exI[of _ dd], rule exI[of _ gc], rule exI[of _ ac],
      rule exI[of _ nc], intro conjI ballI)
    show "units (m_amount (pf_equity portfolio)) = Some eq" using u(3) equity by simp
  qed (use u no(1-4) open_assets scaled_le[OF asset no(5)] scaled_le[OF network no(6)] in
        \<open>simp_all only: with_reservation_sel r(3,4)\<close>)
qed

end
