(* ===== verification/RiskSessionSteps.thy ===== *)
theory RiskSessionSteps
  imports RiskSession RiskGuarantees
begin

text \<open>
  The risk session as a state machine: every operation, whether it returns or raises, is a sequence
  of six kinds of elementary changes. Invariants of the session are proved over these by rule
  induction and so hold after any sequence of operations.
\<close>

inductive change :: "(risk_artefact \<Rightarrow> string) \<Rightarrow> risk_session \<Rightarrow> risk_session \<Rightarrow> bool" for H where
  clock: "(case ss_last_now s of None \<Rightarrow> True | Some previous \<Rightarrow> previous \<le> now) \<Longrightarrow>
     change H s (s\<lparr>ss_last_now := Some now\<rparr>)"
| audit: "ae_sequence ev = int (length (ss_audit s)) + 1 \<Longrightarrow> int (length (ss_audit s)) < ss_capacity s * 4 \<Longrightarrow>
     change H s (s\<lparr>ss_audit := ss_audit s @ [ev]\<rparr>)"
| controls: "\<not> controls_regress (ss_controls s) fresh \<Longrightarrow> change H s (s\<lparr>ss_controls := fresh\<rparr>)"
| evaluated: "map_of (ss_entries s) (case map_of (ss_keys s) (oi_idempotency_key (rq_intent request)) of
        Some existing \<Rightarrow> existing | None \<Rightarrow> oid) = None \<Longrightarrow> oid = oi_order_intent_id (rq_intent request) \<Longrightarrow>
     map_of (ss_decisions s) (oi_decision_id (rq_intent request)) = None \<Longrightarrow>
     int (length (ss_entries s)) < ss_capacity s \<Longrightarrow>
     oi_workspace_id (rq_intent request) = pf_workspace_id (ss_portfolio s) \<Longrightarrow>
     map_of (ss_registrations s) (oi_agent_version_id (rq_intent request)) = Some registration \<Longrightarrow>
     evaluate H request registration (ss_portfolio s) (ss_controls s) (ss_networks s) (held_reservations s None) now
       = Inr (result, res) \<Longrightarrow>
     change H s (s\<lparr>ss_entries := AList.update oid
              \<lparr>en_request = request, en_record = result, en_reservation = res,
               en_fencing_token = rc_fencing_token (ss_controls s), en_terminal_handoff = False,
               en_issued_permit = None\<rparr> (ss_entries s),
            ss_keys := AList.update (oi_idempotency_key (rq_intent request)) oid (ss_keys s),
            ss_decisions := AList.update (oi_decision_id (rq_intent request)) oid (ss_decisions s)\<rparr>)"
| refused: "map_of (ss_entries s) oid = Some e \<Longrightarrow> \<not> en_terminal_handoff e \<Longrightarrow>
     change H s (set_entry s oid (e\<lparr>en_terminal_handoff := True\<rparr>))"
| issued: "map_of (ss_entries s) oid = Some e \<Longrightarrow> \<not> en_terminal_handoff e \<Longrightarrow>
     change H s (set_entry s oid (e\<lparr>en_terminal_handoff := True, en_issued_permit := Some permit\<rparr>))"

abbreviation changes :: "(risk_artefact \<Rightarrow> string) \<Rightarrow> risk_session \<Rightarrow> risk_session \<Rightarrow> bool" where
  "changes H \<equiv> (change H)\<^sup>*\<^sup>*"

lemma changes_trans: "changes H s t \<Longrightarrow> changes H t u \<Longrightarrow> changes H s u"
  by (rule rtranclp_trans)

text \<open>The interface of a session invariant: kept by one change, so kept by every operation.\<close>

locale session_invariant =
  fixes H :: "risk_artefact \<Rightarrow> string" and inv :: "risk_session \<Rightarrow> bool"
  assumes change_inv: "change H s t \<Longrightarrow> inv s \<Longrightarrow> inv t"
begin

lemma changes_inv: "changes H s t \<Longrightarrow> inv s \<Longrightarrow> inv t"
  by (induction rule: rtranclp_induct) (auto intro: change_inv)

end

section \<open>Frames\<close>

definition same_core :: "risk_session \<Rightarrow> risk_session \<Rightarrow> bool" where
  "same_core s t \<longleftrightarrow> ss_portfolio t = ss_portfolio s \<and> ss_registrations t = ss_registrations s \<and>
     ss_networks t = ss_networks s \<and> ss_capacity t = ss_capacity s"

lemma set_entry_sel [simp]:
  "ss_portfolio (set_entry s oid e) = ss_portfolio s" "ss_controls (set_entry s oid e) = ss_controls s"
  "ss_registrations (set_entry s oid e) = ss_registrations s" "ss_networks (set_entry s oid e) = ss_networks s"
  "ss_capacity (set_entry s oid e) = ss_capacity s" "ss_keys (set_entry s oid e) = ss_keys s"
  "ss_decisions (set_entry s oid e) = ss_decisions s" "ss_last_now (set_entry s oid e) = ss_last_now s"
  "ss_audit (set_entry s oid e) = ss_audit s" "ss_entries (set_entry s oid e) = AList.update oid e (ss_entries s)"
  by (simp_all add: set_entry_def)

lemma change_core: "change H s t \<Longrightarrow> same_core s t"
  by (induction rule: change.induct) (simp_all add: same_core_def)

lemma changes_core: "changes H s t \<Longrightarrow> same_core s t"
  by (induction rule: rtranclp_induct) (auto dest: change_core simp: same_core_def)

text \<open>\<open>take_now\<close> and \<open>audit_event\<close> as changes, and what they leave alone.\<close>

lemma take_now_cases:
  assumes "take_now s reading = (t, r)"
  obtains (raised) e where "t = s" "r = Inl e"
  | (read) now where "reading = Some now" "t = s\<lparr>ss_last_now := Some now\<rparr>" "r = Inr now"
      "case ss_last_now s of None \<Rightarrow> True | Some previous \<Rightarrow> previous \<le> now"
  using assms by (auto simp: take_now_def not_less split: option.splits if_splits)

lemma take_now_changes: "take_now s reading = (t, r) \<Longrightarrow> changes H s t"
  by (erule take_now_cases) (auto intro: change.clock)

lemma audit_event_cases:
  assumes "audit_event H s kind out h now reasons = (t, r)"
  obtains (full) "t = s" "r = Inl AuditCapacityExhausted"
  | (recorded) ev where "t = s\<lparr>ss_audit := ss_audit s @ [ev]\<rparr>" "r = Inr ()"
      "ae_sequence ev = int (length (ss_audit s)) + 1" "int (length (ss_audit s)) < ss_capacity s * 4"
proof (cases "ss_capacity s * 4 \<le> int (length (ss_audit s))")
  case True
  then show thesis using assms full by (simp add: audit_event_def)
next
  case False
  then show thesis using assms by (intro recorded) (auto simp: audit_event_def)
qed

lemma audit_event_changes: "audit_event H s kind out h now reasons = (t, r) \<Longrightarrow> changes H s t"
  by (erule audit_event_cases) (auto intro: change.audit)

text \<open>A sequence is made of changes when its parts are.\<close>

lemma then_do_changes:
  assumes "changes H s (fst m)" "\<And>t x. m = (t, Inr x) \<Longrightarrow> changes H t (fst (f t x))"
  shows "changes H s (fst (then_do m f))"
  using assms by (cases m) (auto simp: then_do_def split: sum.splits intro: changes_trans)

lemma held_reservations_frame [simp]:
  "held_reservations (s\<lparr>ss_last_now := n\<rparr>) x = held_reservations s x"
  "held_reservations (s\<lparr>ss_audit := a\<rparr>) x = held_reservations s x"
  by (simp_all add: held_reservations_def)

lemma recheck_frame [simp]: "recheck H (s\<lparr>ss_last_now := n\<rparr>) oid e now = recheck H s oid e now"
  by (simp add: recheck_def split: option.split)

section \<open>Operations as sequences of changes\<close>

lemma update_controls_changes: "changes H s (fst (update_controls H s fresh r1 r2))"
proof (cases "controls_regress (ss_controls s) fresh")
  case False
  have set: "changes H t (t\<lparr>ss_controls := fresh\<rparr>)" if "ss_controls t = ss_controls s" for t
    using change.controls[of t fresh H] that False by auto
  have now: "changes H t (fst (take_now t r))" for t r
    by (cases "take_now t r") (auto dest: take_now_changes)
  have audit: "changes H t (fst (audit_event H t k x h n rs))" for t k x h n rs
    by (cases "audit_event H t k x h n rs") (auto dest: audit_event_changes)
  have same: "take_now t r = (u, x) \<Longrightarrow> ss_controls u = ss_controls t" for t u r x
    by (erule take_now_cases) auto
  have same': "audit_event H t k x h n rs = (u, y) \<Longrightarrow> ss_controls u = ss_controls t" for t u k x h n rs y
    by (erule audit_event_cases) auto
  show ?thesis
    unfolding update_controls_def using False
    by (auto intro!: then_do_changes now audit set dest!: same same')
qed (simp add: update_controls_def)

lemma session_evaluate_changes: "changes H s (fst (session_evaluate H fits s request reading))"
proof -
  let ?intent = "rq_intent request"
  let ?oid = "oi_order_intent_id ?intent"
  let ?found = "map_of (ss_entries s) (case map_of (ss_keys s) (oi_idempotency_key ?intent) of
        Some existing \<Rightarrow> existing | None \<Rightarrow> ?oid)"
  show ?thesis
  proof (cases "fits request \<and> oi_workspace_id ?intent = pf_workspace_id (ss_portfolio s) \<and> ?found = None \<and>
      map_of (ss_decisions s) (oi_decision_id ?intent) = None \<and> int (length (ss_entries s)) < ss_capacity s")
    case False
    then show ?thesis
      by (auto simp: session_evaluate_def Let_def not_less not_le split: option.split)
  next
    case True
    show ?thesis
    proof (cases "map_of (ss_registrations s) (oi_agent_version_id ?intent)")
      case None
      with True show ?thesis by (simp add: session_evaluate_def Let_def)
    next
      case (Some registration)
      obtain s1 r1 where now: "take_now s reading = (s1, r1)" by fastforce
      show ?thesis
        using now
      proof (cases rule: take_now_cases)
        case (raised e)
        with True Some now show ?thesis by (simp add: session_evaluate_def Let_def)
      next
        case (read n)
        show ?thesis
        proof (cases "evaluate H request registration (ss_portfolio s) (ss_controls s) (ss_networks s)
            (held_reservations s None) n")
          case (Inl e)
          with True Some now read take_now_changes[OF now] show ?thesis
            by (simp add: session_evaluate_def Let_def)
        next
          case (Inr rr)
          then obtain result res where ev: "evaluate H request registration (ss_portfolio s) (ss_controls s)
            (ss_networks s) (held_reservations s None) n = Inr (result, res)" by (cases rr) auto
          obtain s2 r2 where au: "audit_event H s1 Evaluated (outcome_of (re_decision (rd_evaluation result)))
              (H (HRecord result)) (re_evaluated_at (rd_evaluation result))
              (re_reason_codes (rd_evaluation result)) = (s2, r2)" by fastforce
          show ?thesis
            using au
          proof (cases rule: audit_event_cases)
            case full
            with True Some now read ev au take_now_changes[OF now] show ?thesis
              by (simp add: session_evaluate_def Let_def)
          next
            case (recorded av)
            define t where "t = s2\<lparr>ss_entries := AList.update ?oid
              \<lparr>en_request = request, en_record = result, en_reservation = res,
               en_fencing_token = rc_fencing_token (ss_controls s2), en_terminal_handoff = False,
               en_issued_permit = None\<rparr> (ss_entries s2),
              ss_keys := AList.update (oi_idempotency_key ?intent) ?oid (ss_keys s2),
              ss_decisions := AList.update (oi_decision_id ?intent) ?oid (ss_decisions s2)\<rparr>"
            have frame: "ss_entries s2 = ss_entries s" "ss_keys s2 = ss_keys s" "ss_decisions s2 = ss_decisions s"
              "ss_capacity s2 = ss_capacity s" "ss_registrations s2 = ss_registrations s"
              "ss_portfolio s2 = ss_portfolio s" "ss_controls s2 = ss_controls s" "ss_networks s2 = ss_networks s"
              "held_reservations s2 None = held_reservations s None"
              using read recorded by simp_all
            have "change H s2 t"
              unfolding t_def using True Some ev
              by (intro change.evaluated[where registration = registration and now = n]) (simp_all add: frame)
            moreover have "changes H s s2"
              by (rule changes_trans[OF take_now_changes[OF now] audit_event_changes[OF au]])
            moreover have "fst (session_evaluate H fits s request reading) = t"
              using True Some now read ev au recorded by (simp add: session_evaluate_def Let_def t_def)
            ultimately show ?thesis by (simp add: rtranclp.rtrancl_into_rtrancl)
          qed
        qed
      qed
    qed
  qed
qed

text \<open>Setting a flag of the entry that was looked up, after the clock and the audit log moved.\<close>

lemma audited_entry_changes:
  assumes e: "map_of (ss_entries s) oid = Some e" "\<not> en_terminal_handoff e"
    and e': "e' = e\<lparr>en_terminal_handoff := True\<rparr> \<or> (\<exists>p. e' = e\<lparr>en_terminal_handoff := True, en_issued_permit := Some p\<rparr>)"
  shows "changes H s (fst (then_do (audit_event H s k x h n rs) (\<lambda>s2 _. (set_entry s2 oid e', Inr v))))"
proof -
  obtain s2 r where au: "audit_event H s k x h n rs = (s2, r)" by fastforce
  show ?thesis
    using au
  proof (cases rule: audit_event_cases)
    case full
    with au show ?thesis by simp
  next
    case (recorded ev)
    have "change H s2 (set_entry s2 oid e')"
      using e' e recorded by (auto intro: change.refused change.issued)
    with au recorded audit_event_changes[OF au] show ?thesis by (simp add: rtranclp.rtrancl_into_rtrancl)
  qed
qed

lemma issue_permit_changes:
  assumes "map_of (ss_entries s) oid = Some e" "\<not> en_terminal_handoff e"
  shows "changes H s (fst (issue_permit H s ws oid e token now))"
  by (auto simp: issue_permit_def Let_def split: option.split intro!: audited_entry_changes[OF assms])

lemma handoff_open_changes:
  assumes "map_of (ss_entries s) oid = Some e" "\<not> en_terminal_handoff e"
  shows "changes H s (fst (handoff_open H s ws oid token e now))"
  by (auto simp: handoff_open_def split: sum.split
      intro!: audited_entry_changes[OF assms] issue_permit_changes[OF assms])

lemma take_now_entries: "take_now s reading = (t, r) \<Longrightarrow> ss_entries t = ss_entries s"
  by (erule take_now_cases) auto

lemma take_now_fst_changes: "changes H s (fst (take_now s reading))"
  by (cases "take_now s reading") (auto dest: take_now_changes)

lemma handoff_changes: "changes H s (fst (handoff H s ws oid token reading))"
  by (auto simp: handoff_def split: option.split
      intro!: then_do_changes take_now_fst_changes handoff_open_changes dest: take_now_entries)

lemma execution_allowed_changes: "changes H s (fst (execution_allowed H s ws oid token reading))"
  by (auto simp: execution_allowed_def split: option.split sum.split intro!: then_do_changes take_now_fst_changes)

lemma guard_loop_changes: "changes H s (fst (guard_loop H s ws commands))"
proof (induction commands arbitrary: s)
  case (Cons c commands)
  obtain oid token reading where c: "c = (oid, token, reading)" by (cases c)
  show ?case unfolding c
    by (auto intro!: then_do_changes execution_allowed_changes Cons.IH)
qed simp

lemma execution_guard_changes: "changes H s (fst (execution_guard H s ws commands))"
  by (simp add: execution_guard_def guard_loop_changes)

section \<open>Runs\<close>

datatype session_command =
    UpdateControls risk_controls "datetime option" "datetime option"
  | Evaluate risk_request "datetime option"
  | HandOff string string int "datetime option"
  | Allowed string string int "datetime option"
  | Guard string "(string \<times> int \<times> datetime option) list"

text \<open>One call: the session it leaves and the permits it returned.\<close>

definition session_step ::
    "(risk_artefact \<Rightarrow> string) \<Rightarrow> (risk_request \<Rightarrow> bool) \<Rightarrow> risk_session \<Rightarrow> session_command \<Rightarrow>
     risk_session \<times> paper_risk_permit list" where
  "session_step H fits s c =
     (case c of
        UpdateControls fresh r1 r2 \<Rightarrow> (fst (update_controls H s fresh r1 r2), [])
      | Evaluate request r \<Rightarrow> (fst (session_evaluate H fits s request r), [])
      | HandOff ws oid token r \<Rightarrow>
          (case handoff H s ws oid token r of (t, Inr (Some permit)) \<Rightarrow> (t, [permit]) | (t, _) \<Rightarrow> (t, []))
      | Allowed ws oid token r \<Rightarrow> (fst (execution_allowed H s ws oid token r), [])
      | Guard ws commands \<Rightarrow> (fst (execution_guard H s ws commands), []))"

fun session_run ::
    "(risk_artefact \<Rightarrow> string) \<Rightarrow> (risk_request \<Rightarrow> bool) \<Rightarrow> risk_session \<Rightarrow> session_command list \<Rightarrow>
     risk_session \<times> paper_risk_permit list" where
  "session_run H fits s [] = (s, [])"
| "session_run H fits s (c # cs) =
     (case session_step H fits s c of (t, ps) \<Rightarrow>
      (case session_run H fits t cs of (u, qs) \<Rightarrow> (u, ps @ qs)))"

lemma session_step_changes: "changes H s (fst (session_step H fits s c))"
proof (cases c)
  case (HandOff ws oid token r)
  have "fst (session_step H fits s c) = fst (handoff H s ws oid token r)"
    using HandOff by (auto simp: session_step_def split: prod.split sum.split option.split)
  then show ?thesis by (simp add: handoff_changes)
qed (simp_all add: session_step_def update_controls_changes session_evaluate_changes execution_allowed_changes
      execution_guard_changes)

lemma session_run_changes: "changes H s (fst (session_run H fits s cs))"
proof (induction cs arbitrary: s)
  case (Cons c cs)
  have "changes H s (fst (session_run H fits (fst (session_step H fits s c)) cs))"
    by (rule changes_trans[OF session_step_changes Cons.IH])
  then show ?case by (simp add: case_prod_beta)
qed simp

end
