(* ===== verification/RiskSamples.thy ===== *)
theory RiskSamples
  imports RiskGuarantees
begin

text \<open>
  A concrete account, registration and request, used to show that the hypotheses of the theorems
  about the risk service can hold together. The hash function of the samples tells the
  sample request from requests with another key and is constant otherwise.
\<close>

definition sample_hash :: "risk_artefact \<Rightarrow> string" where
  "sample_hash a = (case a of
       HRequest q \<Rightarrow> if oi_idempotency_key (rq_intent q) = ''key-0001'' \<and> oi_agent_version_id (rq_intent q) = ''av''
                     then ''first'' else ''other''
     | _ \<Rightarrow> ''h'')"

definition btc :: instrument_id where
  "btc = \<lparr>i_base = ''BTC'', i_quote = ''USD'', i_venue = ''COINBASE'', i_class = Spot\<rparr>"

definition eth :: instrument_id where
  "eth = \<lparr>i_base = ''ETH'', i_quote = ''USD'', i_venue = ''COINBASE'', i_class = Spot\<rparr>"

definition usd :: "int \<Rightarrow> money" where
  "usd n = \<lparr>m_amount = Dec n 0, m_currency = ''USD''\<rparr>"

definition sample_position :: position where
  "sample_position = \<lparr>pos_instrument_id = eth, pos_quantity = \<lparr>q_value = Dec 2 0, q_asset = ''ETH''\<rparr>,
     pos_average_entry_price = None, pos_mark_price = Some \<lparr>p_value = Dec 50 0, p_base = ''ETH'', p_quote = ''USD''\<rparr>,
     pos_realized_pnl = usd 0, pos_unrealized_pnl = usd 0, pos_opened_at = Some 0, pos_network = None\<rparr>"

definition sample_portfolio :: portfolio_snapshot where
  "sample_portfolio = \<lparr>pf_workspace_id = ''ws'', pf_mode = Paper, pf_as_of = 900000, pf_base_currency = ''USD'',
     pf_cash = usd 900, pf_reserved_cash = usd 0, pf_positions = [sample_position], pf_realized_pnl_today = usd 0,
     pf_unrealized_pnl = usd 0, pf_equity = usd 1000, pf_gross_exposure = usd 100, pf_net_exposure = usd 100,
     pf_peak_equity = usd 1000, pf_open_order_count = 0, pf_is_reconciled = True, pf_reconciled_at = Some 900000\<rparr>"

definition sample_limits :: risk_limits where
  "sample_limits = \<lparr>rl_max_gross_exposure_pct = Dec 80 0, rl_max_single_asset_exposure_pct = Dec 50 0,
     rl_max_network_exposure_pct = Dec 60 0, rl_max_open_positions = 5, rl_max_daily_loss_pct = Dec 5 0,
     rl_max_drawdown_pct = Dec 20 0, rl_min_liquidity_usd = Dec 1000 0, rl_max_spread_bps = 50,
     rl_min_order_notional_usd = Dec 10 0, rl_max_order_notional_usd = Dec 50 0, rl_min_edge_over_cost_bps = 5\<rparr>"

definition sample_policy :: "string \<Rightarrow> risk_scope \<Rightarrow> risk_policy" where
  "sample_policy pid scope = \<lparr>rp_risk_policy_id = pid, rp_workspace_id = (if scope = ScopeGlobal then None else Some ''ws''),
     rp_version = 1, rp_scope = scope, rp_limits = sample_limits,
     rp_freshness = \<lparr>fp_max_age_ms = [(FamBook, 5000)], fp_required_families = [FamBook], fp_min_data_quality = Dec 5 (-1)\<rparr>,
     rp_event_risk = \<lparr>ep_block_before_macro_minutes = 30, ep_block_after_macro_minutes = 15\<rparr>,
     rp_created_at = 0, rp_content_hash = ''h''\<rparr>"

definition sample_policies :: "risk_policy list" where
  "sample_policies = [sample_policy ''p3'' ScopeAgent, sample_policy ''p1'' ScopeGlobal, sample_policy ''p2'' ScopeWorkspace]"

definition sample_spec :: agent_spec where
  "sample_spec = \<lparr>sp_mode = Paper, sp_universe = \<lparr>un_instruments = [btc, eth], un_market_type = Spot\<rparr>,
     sp_schedule = \<lparr>sc_decision_interval_seconds = 60, sc_max_decisions_per_day = 10\<rparr>,
     sp_data_packs = [PackPriceTechnical],
     sp_analysis = \<lparr>an_market_scanner = True, an_network_context = False, an_asset_analyzer = True,
       an_portfolio_layer = True, an_horizons_minutes = [60], an_allow_abstain = True\<rparr>,
     sp_evidence = \<lparr>er_min_source_quality = Dec 1 (-1), er_require_timestamps = True,
       er_require_contradicting_evidence = False, er_min_evidence_items = 1\<rparr>,
     sp_risk_policy_ref = ''p3'', sp_execution_policy_ref = ''x1''\<rparr>"

definition sample_version :: agent_version where
  "sample_version = \<lparr>av_agent_version_id = ''av'', av_agent_id = ''ag'', av_workspace_id = ''ws'', av_spec = sample_spec,
     av_spec_hash = ''h'', av_prompt_hash = ''h'', av_feature_set_version = ''f1'', av_created_at = 0,
     av_approval_status = ApprovedStatus, av_approved_environments = [''local'']\<rparr>"

definition sample_execution :: risk_execution_policy where
  "sample_execution = \<lparr>xp_execution_policy_id = ''x1'', xp_version = ''1'', xp_fee_bps = Dec 10 0, xp_slippage_bps = Dec 5 0,
     xp_notional_increment_usd = Dec 10 0, xp_max_snapshot_age_ms = 5000, xp_max_portfolio_age_ms = 5000,
     xp_max_reconciliation_age_ms = 5000, xp_max_market_age_ms = 5000, xp_max_approval_age_ms = 2000\<rparr>"

definition sample_registration :: risk_registration where
  "sample_registration = \<lparr>rr_agent_version = sample_version, rr_policies = sample_policies,
     rr_execution = sample_execution, rr_networks = [(i_value btc, ''bitcoin''), (i_value eth, ''ethereum'')]\<rparr>"

definition sample_controls :: risk_controls where
  "sample_controls = \<lparr>rc_workspace_id = ''ws'', rc_account_id = ''acct'', rc_version = 1, rc_as_of = 900000,
     rc_valid_until = 9000000, rc_account_known = True, rc_connectivity_ok = True, rc_event_calendar_known = True,
     rc_active_kills = [], rc_blocked_agent_versions = [], rc_macro_events = [], rc_fencing_token = 1,
     rc_lease_expires_at = 8000000\<rparr>"

definition sample_intent :: "string \<Rightarrow> string \<Rightarrow> order_side \<Rightarrow> int \<Rightarrow> order_intent" where
  "sample_intent oid key side n = \<lparr>oi_order_intent_id = oid, oi_decision_id = ''d-'' @ oid, oi_workspace_id = ''ws'',
     oi_agent_version_id = ''av'', oi_instrument_id = btc, oi_mode = Paper, oi_side = side, oi_order_type = MarketOrder,
     oi_notional = usd n, oi_limit_price = None, oi_time_in_force = IOC, oi_idempotency_key = key,
     oi_created_at = 950000, oi_expires_at = 7000000\<rparr>"

definition sample_snapshot :: market_snapshot where
  "sample_snapshot = \<lparr>ms_snapshot_id = ''s1'', ms_as_of = 900000, ms_created_at = 910000, ms_instruments = [btc, eth],
     ms_features = [], ms_evidence_refs = [''e1''],
     ms_quality = \<lparr>dq_score = Dec 9 (-1), dq_freshness = \<lparr>fr_age_ms = [(FamBook, 100)], fr_stale_families = [],
       fr_missing_families = []\<rparr>, dq_provider_health_ok = True, dq_sequence_complete = True,
       dq_contains_revised_data = False\<rparr>,
     ms_content_hash = ''h''\<rparr>"

definition sample_evidence :: evidence_item where
  "sample_evidence = \<lparr>ev_evidence_id = ''e1'', ev_kind = KindPriceTechnical, ev_provider = ''p'', ev_instruments = [btc],
     ev_assets = [], ev_observed_at = 800000, ev_ingested_at = 850000, ev_quality = Dec 8 (-1), ev_news_event = None,
     ev_injection_signals = [], ev_license_ref = None\<rparr>"

definition sample_book :: book_ticker where
  "sample_book = \<lparr>bt_instrument_id = btc,
     bt_bid_price = \<lparr>p_value = Dec 999 (-1), p_base = ''BTC'', p_quote = ''USD''\<rparr>,
     bt_bid_size = \<lparr>q_value = Dec 4 0, q_asset = ''BTC''\<rparr>,
     bt_ask_price = \<lparr>p_value = Dec 100 0, p_base = ''BTC'', p_quote = ''USD''\<rparr>,
     bt_ask_size = \<lparr>q_value = Dec 4 0, q_asset = ''BTC''\<rparr>, bt_venue_time = None, bt_received_at = 950000, bt_sequence = None\<rparr>"

definition sample_request_at :: "datetime \<Rightarrow> string \<Rightarrow> string \<Rightarrow> risk_request" where
  "sample_request_at decided oid key = \<lparr>rq_intent = sample_intent oid key Buy 70,
     rq_decision = \<lparr>ad_decision_id = ''d-'' @ oid, ad_workspace_id = ''ws'', ad_agent_version_id = ''av'', ad_snapshot_id = ''s1'',
       ad_instrument_id = btc, ad_decided_at = decided, ad_state = Bullish,
       ad_prediction = \<lparr>pr_expected_return_bps = 200, pr_confidence = Dec 6 (-1), pr_uncertainty = Dec 2 (-1),
         pr_horizon_minutes = 60\<rparr>,
       ad_proposed_action = ActBuy, ad_proposed_notional = Some (usd 80), ad_evidence_refs = [''e1''],
       ad_contradicting_evidence_refs = [], ad_estimated_cost_bps = None\<rparr>,
     rq_allocation = \<lparr>al_decision_id = ''d-'' @ oid, al_instrument_id = btc, al_requested_notional = usd 80,
       al_allocated_notional = usd 70, al_reason_codes = []\<rparr>,
     rq_snapshot = sample_snapshot, rq_evidence = [sample_evidence],
     rq_market = \<lparr>rm_book = sample_book, rm_liquidity_usd = Dec 50000 0, rm_observed_at = 960000\<rparr>\<rparr>"

definition sample_request :: risk_request where
  "sample_request = sample_request_at 940000 ''o1'' ''key-0001''"

definition sample_networks :: "(string \<times> string) list" where
  "sample_networks = rr_networks sample_registration"

lemma sample_registration_ok: "registration_error sample_hash sample_registration = None"
  by code_simp

lemma sample_intent_ok: "order_intent_error (rq_intent sample_request) = None"
  by code_simp


end
