(* ===== verification/RiskProperties.thy ===== *)
theory RiskProperties
  imports RiskSamples
begin

text \<open>The properties of \<open>evaluate\<close>, each with a witness at the sample account.\<close>

definition sample_evaluate :: "risk_exn + (risk_record \<times> reservation option)" where
  "sample_evaluate = evaluate sample_hash sample_request sample_registration sample_portfolio sample_controls
     sample_networks [] 1000000"

lemma sample_evaluated:
  "(case sample_evaluate of Inr (rec, Some r) \<Rightarrow> is_approved (rd_evaluation rec) \<and> rs_buy_notional r = 50 * SCALE
    | _ \<Rightarrow> False)"
  by code_simp

lemma sample_evaluateE:
  obtains rec r where "evaluate sample_hash sample_request sample_registration sample_portfolio sample_controls
     sample_networks [] 1000000 = Inr (rec, Some r)" "is_approved (rd_evaluation rec)" "rs_buy_notional r = 50 * SCALE"
  using sample_evaluated by (auto simp: sample_evaluate_def split: sum.splits option.splits)

section \<open>Limits\<close>

lemma approved_reservation:
  assumes b: "approval_basis H request registration portfolio controls networks reservations now acc c original amount s"
    and reg: "registration_error H registration = None"
  obtains r where "sz_reservation s = Some r" "rs_asset r = i_base (oi_instrument_id (rq_intent request))"
    "rs_instrument r = i_value (oi_instrument_id (rq_intent request))"
    "map_of networks (i_value (oi_instrument_id (rq_intent request))) = Some (rs_network r)"
    "rs_buy_notional r = (if oi_side (rq_intent request) = Buy then amount else 0)"
    "rs_sell_quantity r = (if oi_side (rq_intent request) = Buy then 0 else quantity_of c amount)"
    "rs_cash_debit r = sz_debit s" "rs_cost r = fee_of c amount"
    "sz_debit s = (if oi_side (rq_intent request) = Buy then amount else 0) + fee_of c amount"
proof -
  obtain binding where ctx: "sizing_context_of request registration portfolio networks acc = Inr c"
    and s: "make_sizing (oi_order_intent_id (rq_intent request)) c amount binding = Inr s"
    using b by (auto simp: approval_basis_def)
  note m = make_sizing_Inr[OF s] and x = sizing_context_fields(2,6,7)[OF ctx]
  obtain network where n: "map_of networks (i_value (oi_instrument_id (rq_intent request))) = Some network"
    "sz_reservation s = Some \<lparr>rs_intent_id = oi_order_intent_id (rq_intent request),
         rs_instrument = i_value (oi_instrument_id (rq_intent request)),
         rs_asset = i_base (oi_instrument_id (rq_intent request)), rs_network = network,
         rs_buy_notional = (if sx_buying c then amount else 0),
         rs_sell_quantity = (if sx_buying c then 0 else quantity_of c amount),
         rs_cash_debit = sz_debit s, rs_cost = sz_cost s\<rparr>"
    using m(6) unfolding x(2,3) by blast
  show thesis by (rule that[OF n(2)]) (simp_all add: n(1) m(3,4) x(1))
qed

lemma approval_limits:
  assumes ev: "evaluate H request registration portfolio controls networks reservations now = Inr (rec, res)"
    and reg: "registration_error H registration = None"
    and ok: "is_approved (rd_evaluation rec)"
  shows "\<exists>r acc. res = Some r \<and> account_state portfolio networks (reservations @ [r]) = Some acc \<and>
    0 \<le> acc_cash acc \<and>
    (if oi_side (rq_intent request) = Buy
     then \<forall>p \<in> set (rr_policies registration). within_policy portfolio (rs_asset r) (rs_network r) p acc
     else 0 \<le> get0 (acc_quantities acc) (i_value (oi_instrument_id (rq_intent request))))"
proof -
  obtain acc c original amount s where
    b: "approval_basis H request registration portfolio controls networks reservations now acc c original amount s"
    and res: "res = sz_reservation s"
    by (rule evaluate_approved[OF ev reg ok])
  note f = basis_facts[OF b reg]
  have ctx: "sizing_context_of request registration portfolio networks acc = Inr c"
    and acc: "account_state portfolio networks reservations = Some acc"
    using b by (auto simp: approval_basis_def)
  note ctxf = sizing_context_fields[OF ctx]
  obtain r where r: "sz_reservation s = Some r" "rs_asset r = i_base (oi_instrument_id (rq_intent request))"
    "rs_instrument r = i_value (oi_instrument_id (rq_intent request))"
    "map_of networks (i_value (oi_instrument_id (rq_intent request))) = Some (rs_network r)"
    "rs_buy_notional r = (if oi_side (rq_intent request) = Buy then amount else 0)"
    "rs_sell_quantity r = (if oi_side (rq_intent request) = Buy then 0 else quantity_of c amount)"
    "rs_cash_debit r = sz_debit s" "rs_cost r = fee_of c amount"
    "sz_debit s = (if oi_side (rq_intent request) = Buy then amount else 0) + fee_of c amount"
    by (rule approved_reservation[OF b reg])
  have av: "account_violations c amount = []" by (rule violationsD(1)[OF f(4)])
  have after: "account_state portfolio networks (reservations @ [r]) = Some (with_reservation acc r)"
    by (simp add: account_state_snoc acc)
  have cash: "0 \<le> acc_cash (with_reservation acc r)"
    using av r(7,9) ctxf(2,4) by (simp add: account_violations_def not_less)
  have policies: "within_policy portfolio (rs_asset r) (rs_network r) p (with_reservation acc r)"
    if buy: "oi_side (rq_intent request) = Buy" and p: "p \<in> set (rr_policies registration)" for p
  proof -
    have "policy_violations c amount p = Inr []"
      using violationsD(2)[OF f(4)] p ctxf(3) by (simp add: sorted_policies_def)
    from buy_within_policy[OF this _ f(2) _ ctxf(5), of r] show ?thesis
      using buy r ctxf(2,4,6,7) account_state_keys[OF acc] by simp
  qed
  have sell: "0 \<le> get0 (acc_quantities (with_reservation acc r)) (i_value (oi_instrument_id (rq_intent request)))"
    if "oi_side (rq_intent request) \<noteq> Buy"
    using that av r(3,6) ctxf(2,4,6) by (simp add: account_violations_def quantity_of_def not_less)
  show ?thesis using res r(1) after cash policies sell by auto
qed



text \<open>
  C2. The size search is exact. The approved notional is the largest multiple of the notional
  increment, up to the requested notional, at which no size constraint is violated (so \<open>all sizing
  constraints are monotone\<close>, as the code says and relies on).
\<close>

theorem approved_size_is_largest:
  assumes "evaluate H request registration portfolio controls networks reservations now = Inr (rec, res)"
    and "registration_error H registration = None"
    and "is_approved (rd_evaluation rec)"
  shows "\<exists>acc c amount. account_state portfolio networks reservations = Some acc \<and>
    sizing_context_of request registration portfolio networks acc = Inr c \<and>
    m_amount (re_approved_notional (rd_evaluation rec)) = decimal_of amount \<and>
    0 < amount \<and> amount \<le> sx_requested c \<and> sx_increment c dvd amount \<and> violations c amount = Inr [] \<and>
    (\<forall>k. amount < k * sx_increment c \<and> k * sx_increment c \<le> sx_requested c \<longrightarrow>
         violations c (k * sx_increment c) \<noteq> Inr [])"
proof -
  obtain acc c original amount s where
    b: "approval_basis H request registration portfolio controls networks reservations now acc c original amount s"
    and rec: "rec = make_record H request registration portfolio controls reservations now
       (if amount < sx_requested c then R_APPROVED_RESIZED # map fst original else [R_APPROVED]) s"
    by (rule evaluate_approved[OF assms])
  note f = basis_facts[OF b assms(2)]
  have "search_size c = Inr (original, amount, False)" using b by (simp add: approval_basis_def)
  note found = search_size_accepted[OF f(1) this]
  have "account_state portfolio networks reservations = Some acc"
    "sizing_context_of request registration portfolio networks acc = Inr c"
    using b by (simp_all add: approval_basis_def)
  moreover have "m_amount (re_approved_notional (rd_evaluation rec)) = decimal_of amount"
    using f(5) unfolding rec by simp
  ultimately show ?thesis
    using f(2,3,4) found(3,6) by blast
qed

theorem approved_size_is_largest_witness:
  "\<exists>c amount. violations c amount = Inr [] \<and> 0 < amount \<and> sx_increment c dvd amount"
proof (rule sample_evaluateE)
  fix rec r
  assume e: "evaluate sample_hash sample_request sample_registration sample_portfolio sample_controls
     sample_networks [] 1000000 = Inr (rec, Some r)" "is_approved (rd_evaluation rec)"
  show ?thesis using approved_size_is_largest[OF e(1) sample_registration_ok e(2)] by blast
qed

section \<open>Failing closed\<close>

lemma no_context_reasons:
  assumes "context_reasons H request registration portfolio controls now = Inr []"
  shows "\<not> context_mismatch H request registration portfolio now"
    "authority_reasons request registration portfolio controls now = []"
    "data_reasons request (rr_execution registration) now = []"
    "\<And>p. p \<in> set (rr_policies registration) \<Longrightarrow> policy_context_reasons request controls now p = []"
    "\<not> evidence_unmet request (rr_agent_version registration)" "cycle_ok request"
  using assms by (auto simp: context_reasons_def Let_def split: if_splits)

lemma evaluate_approved_context:
  assumes "evaluate H request registration portfolio controls networks reservations now = Inr (rec, res)"
    and "registration_error H registration = None" "is_approved (rd_evaluation rec)"
  shows "context_reasons H request registration portfolio controls now = Inr []"
  by (rule evaluate_approved[OF assms]) (simp add: approval_basis_def)



section \<open>Contracts of the result\<close>

text \<open>
  C4. Every evaluation of a constructible request under a constructible registration passes the
  validator of \<open>RiskEvaluation\<close>: between 1 and 32 distinct reason codes, a rejection approves exactly zero
  and does not carry \<open>APPROVED\<close>, an approval is never above the request, a resize is strictly smaller
  and a full approval is equal to it.
\<close>

theorem evaluation_is_valid:
  assumes "evaluate H request registration portfolio controls networks reservations now = Inr (rec, res)"
    and "registration_error H registration = None"
    and "order_intent_error (rq_intent request) = None"
  shows "risk_evaluation_error (rd_evaluation rec) = None"
  using assms by (rule evaluation_passes_validator)

theorem evaluation_is_valid_witness:
  "\<exists>rec res. evaluate sample_hash sample_request sample_registration sample_portfolio sample_controls
     sample_networks [] 1000000 = Inr (rec, res) \<and> risk_evaluation_error (rd_evaluation rec) = None"
proof (rule sample_evaluateE)
  fix rec r
  assume e: "evaluate sample_hash sample_request sample_registration sample_portfolio sample_controls
     sample_networks [] 1000000 = Inr (rec, Some r)"
  show ?thesis using e evaluation_is_valid[OF e sample_registration_ok sample_intent_ok] by blast
qed

text \<open>
  C5. The two ceilings of an approved buy fit together. Any execution of at most \<open>max_quantity\<close> at a
  price up to the worst price the sizing assumed costs, fee included, at most \<open>max_cash_debit\<close>. (In
  exact fixed-point arithmetic: quantity and price carry a factor \<open>SCALE\<close> each, the fee rate a
  factor \<open>BPS_DENOMINATOR\<close>.)
\<close>

theorem approved_buy_ceilings_cover_cost:
  assumes "evaluate H request registration portfolio controls networks reservations now = Inr (rec, res)"
    and "registration_error H registration = None"
    and "is_approved (rd_evaluation rec)"
    and "oi_side (rq_intent request) = Buy"
  shows "\<exists>acc c quantity debit. account_state portfolio networks reservations = Some acc \<and>
    sizing_context_of request registration portfolio networks acc = Inr c \<and>
    q_value (rd_max_quantity rec) = decimal_of quantity \<and> m_amount (rd_max_cash_debit rec) = decimal_of debit \<and>
    debit \<le> acc_cash acc \<and>
    (\<forall>q p. 0 \<le> q \<and> q \<le> quantity \<and> 0 \<le> p \<and> p \<le> sx_worst_price c \<longrightarrow>
       q * p * (BPS_DENOMINATOR + sx_fee c) \<le> debit * SCALE * BPS_DENOMINATOR)"
proof -
  obtain acc c original amount s where
    b: "approval_basis H request registration portfolio controls networks reservations now acc c original amount s"
    and rec: "rec = make_record H request registration portfolio controls reservations now
       (if amount < sx_requested c then R_APPROVED_RESIZED # map fst original else [R_APPROVED]) s"
    by (rule evaluate_approved[OF assms(1,2,3)])
  note f = basis_facts[OF b assms(2)]
  have ctx: "sizing_context_of request registration portfolio networks acc = Inr c"
    and acc: "account_state portfolio networks reservations = Some acc"
    and mk: "\<exists>binding. make_sizing (oi_order_intent_id (rq_intent request)) c amount binding = Inr s"
    using b by (auto simp: approval_basis_def)
  have buy: "sx_buying c" using sizing_context_fields(2)[OF ctx] assms(4) by simp
  obtain binding where m: "make_sizing (oi_order_intent_id (rq_intent request)) c amount binding = Inr s"
    using mk by blast
  have s: "sz_quantity s = amount * SCALE div sx_worst_price c" "sz_debit s = amount + fee_of c amount"
    using make_sizing_Inr(2,4)[OF m] buy by (simp_all add: quantity_of_def)
  have cash: "sz_debit s \<le> acc_cash acc"
    using violationsD(1)[OF f(4)] f(7) s(2) buy by (simp add: account_violations_def not_less)
  have worst: "0 < sx_worst_price c" using f(1) by (simp add: sizing_ok_def)
  have fee: "amount * sx_fee c \<le> fee_of c amount * BPS_DENOMINATOR"
    unfolding fee_of_def by (rule ceil_div_bounds(1)) simp
  have "q * p * (BPS_DENOMINATOR + sx_fee c) \<le> sz_debit s * SCALE * BPS_DENOMINATOR"
    if "0 \<le> q" "q \<le> sz_quantity s" "0 \<le> p" "p \<le> sx_worst_price c" for q p
  proof -
    have "q * p \<le> sz_quantity s * sx_worst_price c" using that by (intro mult_mono) auto
    also have "\<dots> \<le> amount * SCALE"
      unfolding s(1) using worst by (metis div_mult_mod_eq add_increasing2 order_refl pos_mod_sign)
    finally have "q * p * (BPS_DENOMINATOR + sx_fee c) \<le> amount * SCALE * (BPS_DENOMINATOR + sx_fee c)"
      using f(9) BPS_DENOMINATOR_pos by (intro mult_right_mono) linarith+
    also have "\<dots> = SCALE * (amount * BPS_DENOMINATOR + amount * sx_fee c)" by (simp add: algebra_simps)
    also have "\<dots> \<le> SCALE * (amount * BPS_DENOMINATOR + fee_of c amount * BPS_DENOMINATOR)"
      using fee by (intro mult_left_mono add_left_mono) auto
    also have "\<dots> = sz_debit s * SCALE * BPS_DENOMINATOR" unfolding s(2) by (simp add: algebra_simps)
    finally show ?thesis .
  qed
  then show ?thesis
    using ctx acc cash unfolding rec make_record_sel by (intro exI[of _ acc] exI[of _ c] exI) auto
qed

theorem approved_buy_ceilings_cover_cost_witness:
  "\<exists>acc. account_state sample_portfolio sample_networks [] = Some acc"
proof (rule sample_evaluateE)
  fix rec r
  assume e: "evaluate sample_hash sample_request sample_registration sample_portfolio sample_controls
     sample_networks [] 1000000 = Inr (rec, Some r)" "is_approved (rd_evaluation rec)"
  have "oi_side (rq_intent sample_request) = Buy" by code_simp
  from approved_buy_ceilings_cover_cost[OF e(1) sample_registration_ok e(2) this] show ?thesis by blast
qed

section \<open>Which exceptions escape\<close>

lemma bindE_Inl_iff: "bindE m f = Inl e \<longleftrightarrow> m = Inl e \<or> (\<exists>x. m = Inr x \<and> f x = Inl e)"
  by (cases m) auto

lemma of_option_Inl_iff: "of_option e m = Inl e' \<longleftrightarrow> m = None \<and> e' = e"
  by (cases m) auto

lemma bisect_raises: "bisect test low high = Inl e \<Longrightarrow> \<exists>k. test k = Inl e"
proof (induction test low high rule: bisect.induct)
  case (1 test low high)
  show ?case
  proof (cases "low < high")
    case True
    then show ?thesis
      using "1.prems" "1.IH" by (subst (asm) bisect.simps) (auto simp: bindE_Inl_iff Let_def split: if_splits)
  next
    case False
    with "1.prems" show ?thesis by (simp add: bisect_done)
  qed
qed

lemma py_max_Inl: "py_max xs = Inl e \<Longrightarrow> e = ValueError"
  by (cases xs) auto

lemma minimum_notional_Inl: "minimum_notional ps = Inl e \<Longrightarrow> e = ValueError"
  by (induction ps) (auto simp: bindE_Inl_iff of_option_Inl_iff)

lemma concentration_not_Inl [simp]: "concentration k d x \<noteq> Inl e"
  using concentration_total[of k d x] by auto

lemma policy_violations_Inl:
  "policy_violations c x p = Inl e \<Longrightarrow> map_of (sx_networks c) (i_value (sx_instrument c)) = Some n \<Longrightarrow> e = ValueError"
  by (auto simp: policy_violations_def Let_def bindE_Inl_iff of_option_Inl_iff split: if_splits)

lemma policies_violations_Inl:
  "policies_violations c x ps = Inl e \<Longrightarrow> map_of (sx_networks c) (i_value (sx_instrument c)) = Some n \<Longrightarrow> e = ValueError"
  by (induction ps) (auto simp: bindE_Inl_iff dest: policy_violations_Inl)

lemma violations_Inl:
  "violations c x = Inl e \<Longrightarrow> map_of (sx_networks c) (i_value (sx_instrument c)) = Some n \<Longrightarrow> e = ValueError"
  by (auto simp: violations_def bindE_Inl_iff dest: policies_violations_Inl)

lemma search_size_Inl:
  assumes "search_size c = Inl e" "map_of (sx_networks c) (i_value (sx_instrument c)) = Some n"
  shows "e = ValueError"
  using assms violations_Inl[OF _ assms(2)]
  by (auto simp: search_size_def size_test_def bindE_Inl_iff Let_def split: if_splits
      dest!: bisect_raises py_max_Inl minimum_notional_Inl)

lemma choose_size_total:
  assumes n: "map_of (sx_networks c) (i_value (sx_instrument c)) = Some n"
  shows "\<exists>r. choose_size intent_id c = Inr r"
proof -
  have "choose_size intent_id c \<noteq> Inl e" for e
    using search_size_Inl[OF _ n] violations_Inl[OF _ n] n
    by (auto simp: choose_size_def make_sizing_def caught_def bindE_Inl_iff of_option_Inl_iff Let_def
        split: sum.splits if_splits)
  then show ?thesis by (cases "choose_size intent_id c") auto
qed

lemma sizing_context_of_Inl:
  assumes e: "sizing_context_of request registration portfolio networks acc = Inl e"
    and book: "book_ticker_error (rm_book (rq_market request)) = None"
  shows "e = ValueError"
proof -
  have pos: "dec_zero < p_value (bt_bid_price (rm_book (rq_market request)))"
    "dec_zero < p_value (bt_ask_price (rm_book (rq_market request)))"
    using book by (auto simp: book_ticker_error_def price_error_def Let_def dec_linear split: if_splits)
  have "units (p_value (bt_bid_price (rm_book (rq_market request)))) = Some bid \<Longrightarrow>
    units (p_value (bt_ask_price (rm_book (rq_market request)))) = Some ask \<Longrightarrow> ask + bid \<noteq> 0" for bid ask
    using pos units_sign(1) by fastforce
  then show ?thesis using e
    by (auto simp: sizing_context_of_def Let_def bindE_Inl_iff of_option_Inl_iff split: if_splits)
qed

lemma size_order_total:
  assumes "book_ticker_error (rm_book (rq_market request)) = None"
    and "map_of networks (i_value (oi_instrument_id (rq_intent request))) = Some n"
  shows "\<exists>r. size_order request registration portfolio networks acc = Inr r"
proof (cases "sizing_context_of request registration portfolio networks acc")
  case (Inl e)
  then show ?thesis using sizing_context_of_Inl[OF Inl assms(1)] by (simp add: size_order_def caught_def)
next
  case (Inr c)
  have "map_of (sx_networks c) (i_value (sx_instrument c)) = Some n"
    using sizing_context_fields(6,7)[OF Inr] assms(2) by simp
  from choose_size_total[OF this] Inr show ?thesis
    by (auto simp: size_order_def caught_def split: prod.splits bool.splits)
qed



text \<open>
  C7. A contract mismatch between two packages. \<open>OrderIntent.idempotency_key\<close> is any string of 8 to 128
  characters, but \<open>_context_reasons\<close> copies it into an \<open>EvaluationRequest\<close>, whose key is a \<open>Name\<close>
  (lower case, at most 64 characters). An intent with a valid key that is not a \<open>Name\<close> is never
  evaluated: Pydantic's \<open>ValidationError\<close> escapes, instead of a rejection with reason codes.
\<close>

theorem long_or_upper_case_key_escapes:
  assumes "\<not> gateway_name_ok (oi_idempotency_key (rq_intent request))"
  shows "evaluate H request registration portfolio controls networks reservations now = Inl RequestInvalid"
  using assms by (simp add: evaluate_def context_reasons_def cycle_ok_def)

definition upper_case_request :: risk_request where
  "upper_case_request = sample_request_at 940000 ''o1'' ''01HXKEY7''"

theorem long_or_upper_case_key_escapes_witness:
  "order_intent_error (rq_intent upper_case_request) = None \<and>
   evaluate sample_hash upper_case_request sample_registration sample_portfolio sample_controls sample_networks [] 1000000
     = Inl RequestInvalid"
proof
  show "order_intent_error (rq_intent upper_case_request) = None" by code_simp
  have "\<not> gateway_name_ok (oi_idempotency_key (rq_intent upper_case_request))" by code_simp
  then show "evaluate sample_hash upper_case_request sample_registration sample_portfolio sample_controls sample_networks [] 1000000
     = Inl RequestInvalid"
    by (rule long_or_upper_case_key_escapes)
qed

end
