(* ===== verification/RiskSessionProps.thy ===== *)
theory RiskSessionProps
  imports RiskSessionSteps RiskProperties "HOL-Library.Multiset"
begin

text \<open>
  Invariants of the risk session, over every sequence of operations, and the properties its callers
  rely on: one handoff per intent, idempotent evaluation, reservations that never exceed the account,
  a contiguous audit log, fences and kill switches that stop everything.
\<close>

section \<open>The invariant\<close>

definition registered_ok :: "(risk_artefact \<Rightarrow> string) \<Rightarrow> risk_session \<Rightarrow> bool" where
  "registered_ok H s \<longleftrightarrow> (\<forall>a r. map_of (ss_registrations s) a = Some r \<longrightarrow> registration_error H r = None)"

definition entry_ok :: "(risk_artefact \<Rightarrow> string) \<Rightarrow> risk_session \<Rightarrow> string \<Rightarrow> session_entry \<Rightarrow> bool" where
  "entry_ok H s oid e \<longleftrightarrow>
     oi_order_intent_id (rq_intent (en_request e)) = oid \<and>
     oi_workspace_id (rq_intent (en_request e)) = pf_workspace_id (ss_portfolio s) \<and>
     map_of (ss_registrations s) (oi_agent_version_id (rq_intent (en_request e))) \<noteq> None \<and>
     map_of (ss_keys s) (oi_idempotency_key (rq_intent (en_request e))) = Some oid \<and>
     map_of (ss_decisions s) (oi_decision_id (rq_intent (en_request e))) = Some oid \<and>
     rd_request_hash (en_record e) = H (HRequest (en_request e)) \<and>
     (en_issued_permit e \<noteq> None \<longrightarrow> en_terminal_handoff e)"

definition entries_ok :: "(risk_artefact \<Rightarrow> string) \<Rightarrow> risk_session \<Rightarrow> bool" where
  "entries_ok H s \<longleftrightarrow> distinct (map fst (ss_entries s)) \<and>
     (\<forall>oid e. map_of (ss_entries s) oid = Some e \<longrightarrow> entry_ok H s oid e) \<and>
     (\<forall>key oid. map_of (ss_keys s) key = Some oid \<longrightarrow> (\<exists>e. map_of (ss_entries s) oid = Some e))"

definition audit_ok :: "risk_session \<Rightarrow> bool" where
  "audit_ok s \<longleftrightarrow> map ae_sequence (ss_audit s) = map int [1..<Suc (length (ss_audit s))]"

definition debits :: "reservation list \<Rightarrow> int" where
  "debits rs = sum_list (map rs_cash_debit rs)"

definition sells :: "string \<Rightarrow> reservation list \<Rightarrow> int" where
  "sells i rs = sum_list (map (\<lambda>r. if rs_instrument r = i then rs_sell_quantity r else 0) rs)"

definition covered :: "risk_session \<Rightarrow> bool" where
  "covered s \<longleftrightarrow> (\<forall>acc. account_state (ss_portfolio s) (ss_networks s) [] = Some acc \<longrightarrow>
     debits (held_reservations s None) \<le> acc_cash acc \<and>
     (\<forall>i. sells i (held_reservations s None) \<le> get0 (acc_quantities acc) i))"

definition session_ok :: "(risk_artefact \<Rightarrow> string) \<Rightarrow> risk_session \<Rightarrow> bool" where
  "session_ok H s \<longleftrightarrow> registered_ok H s \<and> entries_ok H s \<and> audit_ok s \<and> covered s"

section \<open>The account under a list of reservations\<close>

lemma account_state_cash:
  "account_state p n rs = Some acc \<Longrightarrow> \<exists>acc0. account_state p n [] = Some acc0 \<and>
     acc_cash acc = acc_cash acc0 - debits rs \<and>
     (\<forall>i. get0 (acc_quantities acc) i = get0 (acc_quantities acc0) i - sells i rs)"
proof (induction rs arbitrary: acc rule: rev_induct)
  case Nil
  then show ?case by (simp add: debits_def sells_def)
next
  case (snoc r rs)
  then obtain acc1 where acc1: "account_state p n rs = Some acc1" "acc = with_reservation acc1 r"
    by (auto simp: account_state_snoc)
  from snoc.IH[OF acc1(1)] show ?case
    using acc1(2) by (auto simp: debits_def sells_def)
qed

lemma update_quantities_nonneg:
  "\<forall>i. 0 \<le> get0 d i \<Longrightarrow> 0 \<le> q \<Longrightarrow> 0 \<le> get0 (AList.update k q d) i"
  by (simp add: get0_def update_conv)

lemma position_step_quantities:
  "position_step n p a = Some b \<Longrightarrow> \<forall>i. 0 \<le> get0 (acc_quantities a) i \<Longrightarrow> \<forall>i. 0 \<le> get0 (acc_quantities b) i"
  by (auto simp: position_step_def Let_def bind_eq_Some_conv units_is_negative update_quantities_nonneg
      split: option.splits if_splits)

lemma positions_loop_quantities:
  "positions_loop n ps a = Some b \<Longrightarrow> \<forall>i. 0 \<le> get0 (acc_quantities a) i \<Longrightarrow> \<forall>i. 0 \<le> get0 (acc_quantities b) i"
proof (induction ps arbitrary: a)
  case (Cons p ps)
  then obtain a1 where a1: "position_step n p a = Some a1" "positions_loop n ps a1 = Some b"
    by (auto split: option.splits)
  show ?case by (rule Cons.IH[OF a1(2) position_step_quantities[OF a1(1) Cons.prems(2)]])
qed simp

lemma account_state_nonneg:
  assumes "account_state p n [] = Some acc"
  shows "0 \<le> acc_cash acc \<and> 0 \<le> get0 (acc_quantities acc) i"
  using assms
proof (cases rule: account_stateE)
  case (1 a cash equity pnl peak)
  have "\<forall>i. 0 \<le> get0 (acc_quantities a) i"
    by (rule positions_loop_quantities[OF 1(1)]) (simp add: empty_account_def)
  then show ?thesis unfolding 1(9) using 1(3) by simp
qed

section \<open>Preservation\<close>

lemma sum_sort_key: "sum_list (map f (sort_key k xs)) = sum_list (map (f :: _ \<Rightarrow> int) xs)"
proof -
  have "mset (map f (sort_key k xs)) = mset (map f xs)" by simp
  then show ?thesis by (metis sum_mset_sum_list)
qed

definition entry_reservations :: "string \<times> session_entry \<Rightarrow> reservation list" where
  "entry_reservations ke = (case en_reservation (snd ke) of None \<Rightarrow> [] | Some r \<Rightarrow> [r])"

lemma held_all: "held_reservations s None = concat (map entry_reservations (sort_key fst (ss_entries s)))"
  by (simp add: held_reservations_def entry_reservations_def case_prod_beta cong: map_cong option.case_cong)

lemma sum_concat: "sum_list (map f (concat (map g xs))) = sum_list (map (\<lambda>x. sum_list (map f (g x))) xs)"
  by (induction xs) simp_all

lemma debits_held: "debits (held_reservations s None) = sum_list (map (\<lambda>x. debits (entry_reservations x)) (ss_entries s))"
  by (simp only: debits_def held_all sum_concat sum_sort_key)

lemma sells_held: "sells i (held_reservations s None) = sum_list (map (\<lambda>x. sells i (entry_reservations x)) (ss_entries s))"
  by (simp only: sells_def held_all sum_concat sum_sort_key)

text \<open>Changing the flags of an entry keeps the sums.\<close>

lemma sum_update_same:
  "map_of d k = Some v \<Longrightarrow> f (k, v') = f (k, v) \<Longrightarrow>
   sum_list (map f (AList.update k v' d)) = sum_list (map (f :: _ \<Rightarrow> int) d)"
  by (induction d) (auto split: if_splits)

lemma covered_set_entry:
  assumes "map_of (ss_entries s) oid = Some e" "en_reservation e' = en_reservation e" "covered s"
  shows "covered (set_entry s oid e')"
proof -
  have "debits (held_reservations (set_entry s oid e') None) = debits (held_reservations s None)"
    "sells i (held_reservations (set_entry s oid e') None) = sells i (held_reservations s None)" for i
    unfolding debits_held sells_held set_entry_sel
    by (rule sum_update_same[OF assms(1)]; simp add: entry_reservations_def assms(2))+
  then show ?thesis using assms(3) by (simp add: covered_def)
qed

lemma entries_set_entry:
  assumes "map_of (ss_entries s) oid = Some e" "entries_ok H s"
    and "e' = e\<lparr>en_terminal_handoff := True\<rparr> \<or> (\<exists>p. e' = e\<lparr>en_terminal_handoff := True, en_issued_permit := Some p\<rparr>)"
  shows "entries_ok H (set_entry s oid e')"
  using assms by (auto simp: entries_ok_def entry_ok_def update_conv distinct_update)

text \<open>A new entry: its key, its intent and its decision were all unknown.\<close>

lemma fresh_entry:
  assumes "entries_ok H s"
    and "map_of (ss_entries s) (case map_of (ss_keys s) key of Some existing \<Rightarrow> existing | None \<Rightarrow> oid) = None"
  shows "map_of (ss_keys s) key = None" "map_of (ss_entries s) oid = None"
proof -
  have known: "map_of (ss_keys s) key = Some x \<Longrightarrow> \<exists>e. map_of (ss_entries s) x = Some e" for x
    using assms(1) unfolding entries_ok_def by blast
  show "map_of (ss_keys s) key = None"
  proof (cases "map_of (ss_keys s) key")
    case (Some x)
    with known[OF Some] assms(2) show ?thesis by auto
  qed
  then show "map_of (ss_entries s) oid = None" using assms(2) by simp
qed

lemma evaluated_covered:
  assumes ok: "registered_ok H s" "covered s"
    and reg: "map_of (ss_registrations s) a = Some registration"
    and ev: "evaluate H request registration (ss_portfolio s) (ss_controls s) (ss_networks s) (held_reservations s None) now
       = Inr (result, res)"
    and acc: "account_state (ss_portfolio s) (ss_networks s) [] = Some acc0"
  shows "debits (held_reservations s None @ (case res of None \<Rightarrow> [] | Some r \<Rightarrow> [r])) \<le> acc_cash acc0"
    "sells i (held_reservations s None @ (case res of None \<Rightarrow> [] | Some r \<Rightarrow> [r])) \<le> get0 (acc_quantities acc0) i"
proof -
  let ?rs = "held_reservations s None"
  have rok: "registration_error H registration = None" using ok(1) reg by (auto simp: registered_ok_def)
  have old: "debits ?rs \<le> acc_cash acc0" "sells i ?rs \<le> get0 (acc_quantities acc0) i"
    using ok(2) acc by (auto simp: covered_def)
  have "debits (?rs @ (case res of None \<Rightarrow> [] | Some r \<Rightarrow> [r])) \<le> acc_cash acc0 \<and>
    sells i (?rs @ (case res of None \<Rightarrow> [] | Some r \<Rightarrow> [r])) \<le> get0 (acc_quantities acc0) i"
  proof (cases "is_approved (rd_evaluation result)")
    case False
    from evaluate_not_approved(1)[OF ev rok this] old show ?thesis by simp
  next
    case True
    obtain acc c original amount sz where
      b: "approval_basis H request registration (ss_portfolio s) (ss_controls s) (ss_networks s) ?rs now acc c original amount sz"
      and res: "res = sz_reservation sz"
      by (rule evaluate_approved[OF ev rok True])
    obtain r where r: "sz_reservation sz = Some r" "rs_instrument r = i_value (oi_instrument_id (rq_intent request))"
      "rs_sell_quantity r = (if oi_side (rq_intent request) = Buy then 0 else quantity_of c amount)"
      by (rule approved_reservation[OF b rok])
    obtain accN where N: "account_state (ss_portfolio s) (ss_networks s) (?rs @ [r]) = Some accN" "0 \<le> acc_cash accN"
      "oi_side (rq_intent request) \<noteq> Buy \<Longrightarrow> 0 \<le> get0 (acc_quantities accN) (i_value (oi_instrument_id (rq_intent request)))"
      using approval_limits[OF ev rok True] r(1) res by (auto split: if_splits)
    from account_state_cash[OF N(1)] acc have sums: "acc_cash accN = acc_cash acc0 - debits (?rs @ [r])"
      "get0 (acc_quantities accN) j = get0 (acc_quantities acc0) j - sells j (?rs @ [r])" for j by auto
    have "sells i (?rs @ [r]) \<le> get0 (acc_quantities acc0) i"
    proof (cases "oi_side (rq_intent request) \<noteq> Buy \<and> rs_instrument r = i")
      case True
      then show ?thesis using N(3) sums(2)[of i] r(2) by simp
    next
      case False
      then have "sells i (?rs @ [r]) = sells i ?rs" using r(3) by (auto simp: sells_def)
      then show ?thesis using old(2) by simp
    qed
    then show ?thesis using sums(1) N(2) r(1) res by simp
  qed
  then show "debits (?rs @ (case res of None \<Rightarrow> [] | Some r \<Rightarrow> [r])) \<le> acc_cash acc0"
    "sells i (?rs @ (case res of None \<Rightarrow> [] | Some r \<Rightarrow> [r])) \<le> get0 (acc_quantities acc0) i" by blast+
qed

lemma change_session_ok: "change H s t \<Longrightarrow> session_ok H s \<Longrightarrow> session_ok H t"
proof (induction rule: change.induct)
  case (clock s now)
  have "session_ok H (s\<lparr>ss_last_now := Some now\<rparr>) = session_ok H s"
    unfolding session_ok_def registered_ok_def entries_ok_def entry_ok_def audit_ok_def covered_def by simp
  with clock show ?case by simp
next
  case (audit ev s)
  have "audit_ok (s\<lparr>ss_audit := ss_audit s @ [ev]\<rparr>)" if "audit_ok s"
    using that audit(1) by (simp add: audit_ok_def)
  moreover have "entries_ok H (s\<lparr>ss_audit := ss_audit s @ [ev]\<rparr>) = entries_ok H s"
    unfolding entries_ok_def entry_ok_def by simp
  ultimately show ?case using audit.prems by (simp add: session_ok_def registered_ok_def covered_def)
next
  case (controls s fresh)
  have "held_reservations (s\<lparr>ss_controls := fresh\<rparr>) None = held_reservations s None"
    by (simp add: held_reservations_def)
  moreover have "entries_ok H (s\<lparr>ss_controls := fresh\<rparr>) = entries_ok H s"
    unfolding entries_ok_def entry_ok_def by simp
  ultimately show ?case
    using controls.prems by (simp add: session_ok_def registered_ok_def audit_ok_def covered_def)
next
  case (evaluated s request oid registration now result res)
  let ?e = "\<lparr>en_request = request, en_record = result, en_reservation = res,
               en_fencing_token = rc_fencing_token (ss_controls s), en_terminal_handoff = False,
               en_issued_permit = None\<rparr>"
  let ?key = "oi_idempotency_key (rq_intent request)" and ?did = "oi_decision_id (rq_intent request)"
  let ?t = "s\<lparr>ss_entries := AList.update oid ?e (ss_entries s), ss_keys := AList.update ?key oid (ss_keys s),
            ss_decisions := AList.update ?did oid (ss_decisions s)\<rparr>"
  have ok: "registered_ok H s" "entries_ok H s" "audit_ok s" "covered s"
    using evaluated.prems by (simp_all add: session_ok_def)
  note fresh = fresh_entry[OF ok(2) evaluated(1)]
  have hash: "rd_request_hash result = H (HRequest request)"
    using evaluated(7) by (elim evaluate_cases) simp_all
  have entries: "ss_entries ?t = ss_entries s @ [(oid, ?e)]"
    using fresh(2) by (simp add: update_new_key map_of_eq_None_iff)
  have keys: "map_of (ss_keys ?t) = (map_of (ss_keys s))(?key \<mapsto> oid)"
    "map_of (ss_decisions ?t) = (map_of (ss_decisions s))(?did \<mapsto> oid)"
    "map_of (ss_entries ?t) = (map_of (ss_entries s))(oid \<mapsto> ?e)"
    by (simp_all add: update_conv')
  have old: "entry_ok H ?t k e'" if e': "map_of (ss_entries s) k = Some e'" for k e'
  proof -
    have e: "entry_ok H s k e'" using ok(2) e' by (simp add: entries_ok_def)
    then have "oi_idempotency_key (rq_intent (en_request e')) \<noteq> ?key" "oi_decision_id (rq_intent (en_request e')) \<noteq> ?did"
      using fresh(1) evaluated(3) by (auto simp: entry_ok_def)
    with e show ?thesis unfolding entry_ok_def keys by simp
  qed
  have new: "entry_ok H ?t oid ?e"
    unfolding entry_ok_def keys using evaluated(2,5,6) hash by simp
  have "distinct (map fst (ss_entries ?t))" using ok(2) by (simp add: entries_ok_def distinct_update)
  moreover have "entry_ok H ?t k e'" if "map_of (ss_entries ?t) k = Some e'" for k e'
    using that old new unfolding keys by (auto split: if_splits)
  moreover have "\<exists>e'. map_of (ss_entries ?t) x = Some e'" if "map_of (ss_keys ?t) k = Some x" for k x
    using that ok(2) unfolding keys entries_ok_def by (auto split: if_splits)
  ultimately have e1: "entries_ok H ?t" unfolding entries_ok_def by blast
  have "covered ?t"
    unfolding covered_def
  proof (intro allI impI conjI)
    fix acc0 i
    assume acc: "account_state (ss_portfolio ?t) (ss_networks ?t) [] = Some acc0"
    then have acc': "account_state (ss_portfolio s) (ss_networks s) [] = Some acc0" by simp
    have d: "debits (held_reservations ?t None) = debits (held_reservations s None @ entry_reservations (oid, ?e))"
      "sells j (held_reservations ?t None) = sells j (held_reservations s None @ entry_reservations (oid, ?e))" for j
      unfolding debits_held sells_held entries
      by (simp_all add: debits_def[of "_ @ _"] sells_def[of _ "_ @ _"] debits_held[unfolded debits_def] sells_held[unfolded sells_def])
         (simp_all add: debits_def sells_def)
    show "debits (held_reservations ?t None) \<le> acc_cash acc0"
      "sells i (held_reservations ?t None) \<le> get0 (acc_quantities acc0) i"
      unfolding d using evaluated_covered[OF ok(1,4) evaluated(6,7) acc'] by (simp_all add: entry_reservations_def)
  qed
  with e1 ok(1,3) show ?case by (simp add: session_ok_def registered_ok_def audit_ok_def)
next
  case (refused s oid e)
  have "entries_ok H (set_entry s oid (e\<lparr>en_terminal_handoff := True\<rparr>))"
    using refused by (intro entries_set_entry[of s oid e]) (auto simp: session_ok_def)
  with refused covered_set_entry[of s oid e "e\<lparr>en_terminal_handoff := True\<rparr>"] show ?case
    by (simp add: session_ok_def registered_ok_def audit_ok_def)
next
  case (issued s oid e permit)
  have "entries_ok H (set_entry s oid (e\<lparr>en_terminal_handoff := True, en_issued_permit := Some permit\<rparr>))"
    using issued by (intro entries_set_entry[of s oid e]) (auto simp: session_ok_def)
  with issued covered_set_entry[of s oid e "e\<lparr>en_terminal_handoff := True, en_issued_permit := Some permit\<rparr>"] show ?case
    by (simp add: session_ok_def registered_ok_def audit_ok_def)
qed

interpretation risk_gate: session_invariant H "session_ok H" for H
  by unfold_locales (rule change_session_ok)

section \<open>Constructed sessions\<close>

lemma with_union_ok:
  "with_union H ps rs = Inr rs' \<Longrightarrow> map_of rs' a = Some r \<Longrightarrow> registration_error H r = None"
proof (induction rs arbitrary: rs')
  case (Cons kr rs)
  obtain k r0 where kr: "kr = (k, r0)" by (cases kr)
  show ?case
  proof (cases "registration_error H (r0\<lparr>rr_policies := ps\<rparr>)")
    case None
    with Cons.prems kr obtain rest where rest: "with_union H ps rs = Inr rest" "rs' = (k, r0\<lparr>rr_policies := ps\<rparr>) # rest"
      by (auto simp: Let_def bindE_Inr_iff)
    show ?thesis using Cons.prems(2) rest(2) None Cons.IH[OF rest(1)] by (auto split: if_splits)
  next
    case (Some e)
    with Cons.prems kr show ?thesis by (simp add: Let_def)
  qed
qed simp

lemma init_session_ok: "init_session H environment portfolio controls registrations capacity = Inr s \<Longrightarrow> session_ok H s"
proof -
  assume i: "init_session H environment portfolio controls registrations capacity = Inr s"
  then obtain ps rs where w: "with_union H ps rs = Inr (ss_registrations s)"
    and s: "ss_entries s = []" "ss_keys s = []" "ss_audit s = []"
    by (auto simp: init_session_def bindE_Inr_iff)
  have "held_reservations s None = []" by (simp add: held_reservations_def s)
  then have "covered s" using account_state_nonneg by (auto simp: covered_def debits_def sells_def)
  with with_union_ok[OF w] s show ?thesis
    by (simp add: session_ok_def registered_ok_def entries_ok_def audit_ok_def)
qed

lemma run_session_ok:
  assumes "init_session H environment portfolio controls registrations capacity = Inr s"
  shows "session_ok H (fst (session_run H fits s cs))"
  by (rule risk_gate.changes_inv[OF session_run_changes init_session_ok[OF assms]])

section \<open>What a permit implies\<close>

lemma issue_permit_Some:
  assumes "issue_permit H s ws oid e token now = (t, Inr (Some p))"
  shows "pp_record p = en_record e" "pp_approval p = make_approval H ws e token now"
    "approved_intent_error (pp_approval p) = None"
    "map_of (ss_entries t) oid = Some (e\<lparr>en_terminal_handoff := True, en_issued_permit := Some p\<rparr>)"
proof -
  obtain registration permit where pp: "map_of (ss_registrations s) (oi_agent_version_id (rq_intent (en_request e))) = Some registration"
    "approved_intent_error (make_approval H ws e token now) = None"
    "permit = \<lparr>pp_account_id = rd_account_id (en_record e), pp_approval = make_approval H ws e token now,
        pp_record = en_record e, pp_execution = rr_execution registration\<rparr>"
    using assms by (auto simp: issue_permit_def Let_def split: option.splits)
  obtain s1 r where au: "audit_event H s Handoff OutHandedOff (H (HPermit permit)) now [] = (s1, r)" by fastforce
  have "r = Inr () \<and> t = set_entry s1 oid (e\<lparr>en_terminal_handoff := True, en_issued_permit := Some permit\<rparr>) \<and> p = permit"
    using assms au pp(1,2) unfolding pp(3) by (cases r) (auto simp: issue_permit_def Let_def)
  then show "pp_record p = en_record e" "pp_approval p = make_approval H ws e token now"
    "approved_intent_error (pp_approval p) = None"
    "map_of (ss_entries t) oid = Some (e\<lparr>en_terminal_handoff := True, en_issued_permit := Some p\<rparr>)"
    using pp(2,3) by (simp_all add: update_conv')
qed

lemma then_do_Some: "then_do m f = (t, Inr v) \<Longrightarrow> \<exists>s x. m = (s, Inr x) \<and> f s x = (t, Inr v)"
  by (cases m) (auto simp: then_do_def split: sum.splits)

lemma handoff_permit:
  assumes "handoff H s ws oid token reading = (t, Inr (Some p))"
  shows "\<exists>e now checked. map_of (ss_entries s) oid = Some e \<and> \<not> en_terminal_handoff e \<and> reading = Some now \<and>
    is_approved (rd_evaluation (en_record e)) \<and>
    token = rc_fencing_token (ss_controls s) \<and> token = en_fencing_token e \<and> now < rd_expires_at (en_record e) \<and>
    recheck H s oid e now = Inr checked \<and> still_approved checked (en_record e) \<and>
    pp_record p = en_record e \<and> pp_approval p = make_approval H ws e token now \<and>
    approved_intent_error (pp_approval p) = None \<and>
    map_of (ss_entries t) oid = Some (e\<lparr>en_terminal_handoff := True, en_issued_permit := Some p\<rparr>)"
proof -
  obtain e where e: "map_of (ss_entries s) oid = Some e" "\<not> en_terminal_handoff e" "is_approved (rd_evaluation (en_record e))"
    and td: "then_do (take_now s reading) (\<lambda>s1 now. handoff_open H s1 ws oid token e now) = (t, Inr (Some p))"
    using assms by (auto simp: handoff_def split: option.splits if_splits)
  obtain s1 now where now: "take_now s reading = (s1, Inr now)" and op: "handoff_open H s1 ws oid token e now = (t, Inr (Some p))"
    using then_do_Some[OF td] by blast
  have s1: "reading = Some now" "s1 = s\<lparr>ss_last_now := Some now\<rparr>"
    using now by (auto elim: take_now_cases)
  have tok: "token = rc_fencing_token (ss_controls s)" "token = en_fencing_token e"
    using op s1(2) by (auto simp: handoff_open_def split: if_splits)
  have exp: "now < rd_expires_at (en_record e)"
    using op tok s1(2) by (auto simp: handoff_open_def not_le dest!: then_do_Some split: if_splits)
  then obtain checked where rc: "recheck H s1 oid e now = Inr checked" "still_approved checked (en_record e)"
    and ip: "issue_permit H s1 ws oid e token now = (t, Inr (Some p))"
    using op tok s1(2) by (auto simp: handoff_open_def dest!: then_do_Some split: if_splits sum.splits)
  show ?thesis
    using e s1 tok exp rc issue_permit_Some[OF ip] by auto
qed

definition done_with :: "risk_session \<Rightarrow> string \<Rightarrow> bool" where
  "done_with s oid \<longleftrightarrow> (\<exists>e. map_of (ss_entries s) oid = Some e \<and> en_terminal_handoff e)"

lemma change_done: "change H s t \<Longrightarrow> entries_ok H s \<Longrightarrow> done_with s oid \<Longrightarrow> done_with t oid"
proof (induction rule: change.induct)
  case (evaluated s request oid' registration now result res)
  have "map_of (ss_entries s) oid' = None" by (rule fresh_entry(2)[OF evaluated.prems(1) evaluated(1)])
  with evaluated.prems(2) show ?case by (auto simp: done_with_def update_conv')
qed (auto simp: done_with_def update_conv')

lemma changes_done: "changes H s t \<Longrightarrow> session_ok H s \<Longrightarrow> done_with s oid \<Longrightarrow> done_with t oid"
proof (induction rule: rtranclp_induct)
  case (step t u)
  have "entries_ok H t" using risk_gate.changes_inv[OF step.hyps(1) step.prems(1)] by (simp add: session_ok_def)
  with change_done[OF step.hyps(2)] step show ?case by blast
qed

abbreviation permit_intent :: "paper_risk_permit \<Rightarrow> string" where
  "permit_intent p \<equiv> ao_order_intent_id (pp_approval p)"

lemma session_step_permits:
  assumes ok: "session_ok H s" and st: "session_step H fits s c = (t, ps)"
  shows "ps = [] \<or> (\<exists>p. ps = [p] \<and> \<not> done_with s (permit_intent p) \<and> done_with t (permit_intent p))"
proof (cases c)
  case (HandOff ws oid token r)
  show ?thesis
  proof (cases "ps = []")
    case False
    then obtain p where p: "ps = [p]" "handoff H s ws oid token r = (t, Inr (Some p))"
      using st HandOff by (auto simp: session_step_def split: prod.splits sum.splits option.splits)
    from handoff_permit[OF p(2)] obtain e now where e: "map_of (ss_entries s) oid = Some e" "\<not> en_terminal_handoff e"
      "pp_approval p = make_approval H ws e token now"
      "map_of (ss_entries t) oid = Some (e\<lparr>en_terminal_handoff := True, en_issued_permit := Some p\<rparr>)" by blast
    have "permit_intent p = oid"
      using ok e(1,3) by (auto simp: session_ok_def entries_ok_def entry_ok_def make_approval_def Let_def)
    with p e show ?thesis by (simp add: done_with_def)
  qed simp
qed (use st in \<open>simp_all add: session_step_def\<close>)

lemma session_run_permits:
  "session_ok H s \<Longrightarrow> distinct (map permit_intent (snd (session_run H fits s cs))) \<and>
     (\<forall>p \<in> set (snd (session_run H fits s cs)). \<not> done_with s (permit_intent p))"
proof (induction cs arbitrary: s)
  case (Cons c cs)
  obtain t ps where st: "session_step H fits s c = (t, ps)" by fastforce
  have ch: "changes H s t" using session_step_changes[of H s fits c] st by simp
  have okt: "session_ok H t" by (rule risk_gate.changes_inv[OF ch Cons.prems])
  note IH = Cons.IH[OF okt]
  have run: "snd (session_run H fits s (c # cs)) = ps @ snd (session_run H fits t cs)"
    by (simp add: st case_prod_beta)
  from session_step_permits[OF Cons.prems st] show ?case
  proof
    assume "ps = []"
    then show ?thesis using run IH changes_done[OF ch Cons.prems] by auto
  next
    assume "\<exists>p. ps = [p] \<and> \<not> done_with s (permit_intent p) \<and> done_with t (permit_intent p)"
    then obtain p where p: "ps = [p]" "\<not> done_with s (permit_intent p)" "done_with t (permit_intent p)" by blast
    then show ?thesis using run IH changes_done[OF ch Cons.prems] by (auto simp: image_iff)
  qed
qed simp

end
