(* ===== verification/RiskSessionTheorems.thy ===== *)
theory RiskSessionTheorems
  imports RiskSessionProps
begin

text \<open>The properties of \<open>LocalRiskSession\<close>, with witnesses on a session of the sample account.\<close>

definition sample_init :: "session_init_error + risk_session" where
  "sample_init = init_session sample_hash ''local'' sample_portfolio sample_controls [sample_registration] 10"

definition sample_session :: risk_session where
  "sample_session = (case sample_init of Inr s \<Rightarrow> s | Inl e \<Rightarrow>
     \<lparr>ss_portfolio = sample_portfolio, ss_controls = sample_controls, ss_registrations = [], ss_networks = [],
      ss_capacity = 0, ss_entries = [], ss_keys = [], ss_decisions = [], ss_last_now = None, ss_audit = []\<rparr>)"

abbreviation any_size :: "risk_request \<Rightarrow> bool" where
  "any_size \<equiv> (\<lambda>_. True)"

definition sample_commands :: "session_command list" where
  "sample_commands = [Evaluate sample_request (Some 1000000), HandOff ''ws'' ''o1'' 1 (Some 1100000),
     HandOff ''ws'' ''o1'' 1 (Some 1200000)]"

lemma sample_init_ok: "init_session sample_hash ''local'' sample_portfolio sample_controls [sample_registration] 10 = Inr sample_session"
proof -
  have "\<not> (case sample_init of Inr _ \<Rightarrow> False | Inl _ \<Rightarrow> True)" by code_simp
  then show ?thesis by (auto simp: sample_session_def sample_init_def split: sum.splits)
qed

definition killed_controls :: risk_controls where
  "killed_controls = sample_controls\<lparr>rc_version := 2, rc_active_kills := [KillAccount]\<rparr>"

definition kill_commands :: "session_command list" where
  "kill_commands = [Evaluate sample_request (Some 1000000), UpdateControls killed_controls (Some 1050000) (Some 1050000)]"

definition sample_evaluated_session :: risk_session where
  "sample_evaluated_session = fst (session_run sample_hash any_size sample_session [Evaluate sample_request (Some 1000000)])"

text \<open>The sample session, evaluated once: an approval that is handed off, again, or killed.\<close>

definition sample_session_checks :: "risk_session \<Rightarrow> bool" where
  "sample_session_checks s \<longleftrightarrow>
     (case held_reservations s None of
        [r] \<Rightarrow> rs_buy_notional r = 50 * SCALE \<and> account_state sample_portfolio sample_networks [r] \<noteq> None | _ \<Rightarrow> False) \<and>
     (case handoff sample_hash s ''ws'' ''o1'' 1 (Some 1100000) of
        (t, Inr (Some p)) \<Rightarrow> (case handoff sample_hash t ''ws'' ''o1'' 1 (Some 1200000) of (_, Inr (Some q)) \<Rightarrow> False | _ \<Rightarrow> True)
      | _ \<Rightarrow> False) \<and>
     rc_active_kills (ss_controls (fst (update_controls sample_hash s killed_controls (Some 1050000) (Some 1050000)))) \<noteq> []"

lemma sample_session_checked: "sample_session_checks (fst (session_evaluate sample_hash any_size sample_session sample_request (Some 1000000)))"
  by code_simp

lemma sample_evaluated_eq: "sample_evaluated_session = fst (session_evaluate sample_hash any_size sample_session sample_request (Some 1000000))"
  by (simp add: sample_evaluated_session_def session_step_def split: prod.splits)

lemma sample_checks: "sample_session_checks sample_evaluated_session"
  using sample_session_checked by (simp only: sample_evaluated_eq)

lemma sample_handoffs:
  obtains t p u q where "handoff sample_hash sample_evaluated_session ''ws'' ''o1'' 1 (Some 1100000) = (t, Inr (Some p))"
    "handoff sample_hash t ''ws'' ''o1'' 1 (Some 1200000) = (u, q)" "\<nexists>r. q = Inr (Some r)"
proof -
  have "case handoff sample_hash sample_evaluated_session ''ws'' ''o1'' 1 (Some 1100000) of
        (t, Inr (Some p)) \<Rightarrow> (case handoff sample_hash t ''ws'' ''o1'' 1 (Some 1200000) of (_, Inr (Some q)) \<Rightarrow> False | _ \<Rightarrow> True)
      | _ \<Rightarrow> False"
    by (rule sample_checks[unfolded sample_session_checks_def, THEN conjunct2, THEN conjunct1])
  then show thesis using that by (auto split: prod.splits sum.splits option.splits)
qed

section \<open>Handoff\<close>

text \<open>
  C8. At most one handoff per intent. In whatever order evaluations, refreshes of the controls, handoffs
  and rechecks are called on a session, and whichever of them raise, no order intent is handed to the
  broker twice.
\<close>

theorem handoff_at_most_once:
  assumes "init_session H environment portfolio controls registrations capacity = Inr s"
  shows "distinct (map permit_intent (snd (session_run H fits s commands)))"
  using session_run_permits[OF init_session_ok[OF assms]] by blast

theorem handoff_at_most_once_witness:
  "length (snd (session_run sample_hash any_size sample_session sample_commands)) = 1 \<and>
   distinct (map permit_intent (snd (session_run sample_hash any_size sample_session sample_commands)))"
proof
  obtain t p u q where "handoff sample_hash sample_evaluated_session ''ws'' ''o1'' 1 (Some 1100000) = (t, Inr (Some p))"
    "handoff sample_hash t ''ws'' ''o1'' 1 (Some 1200000) = (u, q)" "\<nexists>r. q = Inr (Some r)" by (rule sample_handoffs)
  then show "length (snd (session_run sample_hash any_size sample_session sample_commands)) = 1"
    by (auto simp: sample_commands_def sample_evaluated_eq session_step_def split: prod.splits sum.splits option.splits)
  show "distinct (map permit_intent (snd (session_run sample_hash any_size sample_session sample_commands)))"
    by (rule handoff_at_most_once[OF sample_init_ok])
qed

text \<open>
  C9. A permit is issued only on a fresh recheck under the current fence. When \<open>handoff\<close> returns a permit,
  the caller's token is the token of the current controls and the one the intent was approved under, the
  approval has not expired, the evaluation repeated now with all other reservations held approves at least the
  same notional, and the approval inside the permit carries the recorded notional and passes its validator.
\<close>

theorem permit_needs_fresh_recheck:
  assumes "handoff H s workspace_id oid token reading = (t, Inr (Some p))"
  shows "\<exists>e now checked. map_of (ss_entries s) oid = Some e \<and> \<not> en_terminal_handoff e \<and> reading = Some now \<and>
    token = rc_fencing_token (ss_controls s) \<and> token = en_fencing_token e \<and> now < rd_expires_at (en_record e) \<and>
    recheck H s oid e now = Inr checked \<and> is_approved (rd_evaluation checked) \<and>
    m_amount (re_approved_notional (rd_evaluation (en_record e))) \<le> m_amount (re_approved_notional (rd_evaluation checked)) \<and>
    ao_approved_notional (pp_approval p) = re_approved_notional (rd_evaluation (en_record e)) \<and>
    approved_intent_error (pp_approval p) = None \<and> done_with t oid"
proof -
  obtain e now checked where h: "map_of (ss_entries s) oid = Some e" "\<not> en_terminal_handoff e" "reading = Some now"
    "token = rc_fencing_token (ss_controls s)" "token = en_fencing_token e" "now < rd_expires_at (en_record e)"
    "recheck H s oid e now = Inr checked" "still_approved checked (en_record e)"
    "pp_approval p = make_approval H workspace_id e token now" "approved_intent_error (pp_approval p) = None"
    "map_of (ss_entries t) oid = Some (e\<lparr>en_terminal_handoff := True, en_issued_permit := Some p\<rparr>)"
    using handoff_permit[OF assms] by blast
  have "done_with t oid" using h(11) by (simp add: done_with_def)
  moreover have "ao_approved_notional (pp_approval p) = re_approved_notional (rd_evaluation (en_record e))"
    using h(9) by (simp add: make_approval_def Let_def)
  ultimately show ?thesis using h unfolding still_approved_def by blast
qed

theorem permit_needs_fresh_recheck_witness:
  "\<exists>t p. handoff sample_hash sample_evaluated_session ''ws'' ''o1'' 1 (Some 1100000) = (t, Inr (Some p)) \<and> done_with t ''o1''"
proof (rule sample_handoffs)
  fix t p
  assume h: "handoff sample_hash sample_evaluated_session ''ws'' ''o1'' 1 (Some 1100000) = (t, Inr (Some p))"
  show ?thesis using h permit_needs_fresh_recheck[OF h] by blast
qed

text \<open>
  C10. A kill switch stops everything. While the controls of the session carry any active kill, no handoff
  returns a permit and no execution is allowed, for buys and sells alike and whatever was approved before.
\<close>

lemma recheck_context:
  assumes "recheck H s oid e now = Inr checked" "is_approved (rd_evaluation checked)" "registered_ok H s"
  shows "rc_active_kills (ss_controls s) = []"
proof -
  obtain registration res where r: "map_of (ss_registrations s) (oi_agent_version_id (rq_intent (en_request e))) = Some registration"
    "evaluate H (en_request e) registration (ss_portfolio s) (ss_controls s) (ss_networks s)
       (held_reservations s (Some oid)) now = Inr (checked, res)"
    using assms(1) by (auto simp: recheck_def bindE_Inr_iff split: option.splits)
  have "registration_error H registration = None" using assms(3) r(1) by (auto simp: registered_ok_def)
  note ctx = evaluate_approved_context[OF r(2) this assms(2)]
  show ?thesis using no_context_reasons(2)[OF ctx] by (simp add: authority_reasons_def Let_def)
qed

lemma execution_allowed_True:
  assumes "execution_allowed H s workspace_id oid token reading = (t, Inr True)"
  shows "\<exists>e now checked. map_of (ss_entries s) oid = Some e \<and> en_issued_permit e \<noteq> None \<and> reading = Some now \<and>
    token = rc_fencing_token (ss_controls s) \<and> token = en_fencing_token e \<and> now < rd_expires_at (en_record e) \<and>
    recheck H s oid e now = Inr checked \<and> still_approved checked (en_record e)"
proof -
  obtain e where e: "map_of (ss_entries s) oid = Some e" "en_issued_permit e \<noteq> None"
    and td: "then_do (take_now s reading) (\<lambda>s1 now.
            if token \<noteq> rc_fencing_token (ss_controls s) \<or> token \<noteq> en_fencing_token e \<or>
               rd_expires_at (en_record e) \<le> now then (s1, Inr False)
            else (case recheck H s1 oid e now of
                Inl x \<Rightarrow> (s1, Inl (EvaluatorRaised x))
              | Inr checked \<Rightarrow> (s1, Inr (still_approved checked (en_record e))))) = (t, Inr True)"
    using assms by (auto simp: execution_allowed_def split: option.splits if_splits)
  obtain s1 now where now: "take_now s reading = (s1, Inr now)"
    and op: "(if token \<noteq> rc_fencing_token (ss_controls s) \<or> token \<noteq> en_fencing_token e \<or>
               rd_expires_at (en_record e) \<le> now then (s1, Inr False)
            else (case recheck H s1 oid e now of
                Inl x \<Rightarrow> (s1, Inl (EvaluatorRaised x))
              | Inr checked \<Rightarrow> (s1, Inr (still_approved checked (en_record e))))) = (t, Inr True)"
    using then_do_Some[OF td] by blast
  have s1: "reading = Some now" "s1 = s\<lparr>ss_last_now := Some now\<rparr>"
    using now by (auto elim: take_now_cases)
  show ?thesis using e s1 op by (auto simp: not_le split: if_splits sum.splits)
qed

theorem kill_switch_stops_execution:
  assumes "init_session H environment portfolio controls registrations capacity = Inr s0"
    and "s = fst (session_run H fits s0 commands)"
    and "rc_active_kills (ss_controls s) \<noteq> []"
  shows "snd (handoff H s workspace_id oid token reading) \<noteq> Inr (Some p) \<and>
    snd (execution_allowed H s workspace_id oid token reading) \<noteq> Inr True"
proof -
  have ok: "registered_ok H s" using run_session_ok[OF assms(1)] assms(2) by (simp add: session_ok_def)
  have "False" if h: "handoff H s workspace_id oid token reading = (t, Inr (Some p))" for t
    using handoff_permit[OF h] recheck_context[OF _ _ ok] assms(3) by (auto simp: still_approved_def)
  moreover have "False" if h: "execution_allowed H s workspace_id oid token reading = (t, Inr True)" for t
    using execution_allowed_True[OF h] recheck_context[OF _ _ ok] assms(3) by (auto simp: still_approved_def)
  ultimately show ?thesis by (metis prod.collapse)
qed

theorem kill_switch_stops_execution_witness:
  "snd (handoff sample_hash (fst (session_run sample_hash any_size sample_session kill_commands)) ''ws'' ''o1'' 1 (Some 1100000))
     \<noteq> Inr (Some undefined)"
proof -
  have "rc_active_kills (ss_controls (fst (session_run sample_hash any_size sample_session kill_commands))) \<noteq> []"
    using sample_checks by (simp add: sample_session_checks_def sample_evaluated_eq kill_commands_def session_step_def split: prod.splits)
  from kill_switch_stops_execution[OF sample_init_ok refl this] show ?thesis by blast
qed

section \<open>Reservations\<close>

text \<open>
  C11. Reservations never exceed the account. After any sequence of operations, the account with every held
  reservation applied has non-negative cash, and for each instrument the reserved sells do not exceed the
  quantity held.
\<close>

theorem reservations_stay_covered:
  assumes "init_session H environment portfolio controls registrations capacity = Inr s0"
    and "s = fst (session_run H fits s0 commands)"
    and "account_state (ss_portfolio s) (ss_networks s) (held_reservations s None) = Some acc"
  shows "0 \<le> acc_cash acc \<and> (\<forall>i. 0 \<le> get0 (acc_quantities acc) i)"
proof -
  have "covered s" using run_session_ok[OF assms(1)] assms(2) by (simp add: session_ok_def)
  then show ?thesis using account_state_cash[OF assms(3)] by (auto simp: covered_def)
qed

lemma sample_reservation:
  "(case held_reservations sample_evaluated_session None of
      [r] \<Rightarrow> rs_buy_notional r = 50 * SCALE \<and> account_state sample_portfolio sample_networks [r] \<noteq> None
    | _ \<Rightarrow> False)"
  by (rule sample_checks[unfolded sample_session_checks_def, THEN conjunct1])

lemma sample_evaluated_frame:
  "ss_portfolio sample_evaluated_session = sample_portfolio" "ss_networks sample_evaluated_session = sample_networks"
proof -
  have "same_core sample_session sample_evaluated_session"
    unfolding sample_evaluated_session_def by (rule changes_core[OF session_run_changes])
  moreover have "ss_portfolio sample_session = sample_portfolio" by code_simp
  moreover have "ss_networks sample_session = sample_networks" by code_simp
  ultimately show "ss_portfolio sample_evaluated_session = sample_portfolio" "ss_networks sample_evaluated_session = sample_networks"
    by (simp_all add: same_core_def)
qed

theorem reservations_stay_covered_witness:
  "\<exists>r acc. held_reservations sample_evaluated_session None = [r] \<and> rs_buy_notional r = 50 * SCALE \<and>
     account_state sample_portfolio sample_networks [r] = Some acc \<and> 0 \<le> acc_cash acc"
proof -
  obtain r acc where r: "held_reservations sample_evaluated_session None = [r]" "rs_buy_notional r = 50 * SCALE"
    "account_state sample_portfolio sample_networks [r] = Some acc"
    using sample_reservation by (auto split: list.splits)
  have "account_state (ss_portfolio sample_evaluated_session) (ss_networks sample_evaluated_session)
      (held_reservations sample_evaluated_session None) = Some acc"
    unfolding sample_evaluated_frame r(1) by (rule r(3))
  from reservations_stay_covered[OF sample_init_ok sample_evaluated_session_def this] show ?thesis using r by blast
qed

section \<open>Idempotency\<close>

lemma change_entry_persists:
  "change H s t \<Longrightarrow> entries_ok H s \<Longrightarrow> map_of (ss_entries s) oid = Some e \<Longrightarrow>
   \<exists>e'. map_of (ss_entries t) oid = Some e' \<and> en_request e' = en_request e \<and> en_record e' = en_record e"
proof (induction rule: change.induct)
  case (evaluated s request oid' registration now result res)
  have "map_of (ss_entries s) oid' = None" by (rule fresh_entry(2)[OF evaluated.prems(1) evaluated(1)])
  with evaluated.prems(2) show ?case by (auto simp: update_conv')
qed (auto simp: update_conv')

lemma changes_entry_persists:
  "changes H s t \<Longrightarrow> session_ok H s \<Longrightarrow> map_of (ss_entries s) oid = Some e \<Longrightarrow>
   \<exists>e'. map_of (ss_entries t) oid = Some e' \<and> en_request e' = en_request e \<and> en_record e' = en_record e"
proof (induction rule: rtranclp_induct)
  case (step t u)
  have "entries_ok H t" using risk_gate.changes_inv[OF step.hyps(1) step.prems(1)] by (simp add: session_ok_def)
  with step.IH[OF step.prems] change_entry_persists[OF step.hyps(2)] show ?case by metis
qed auto

text \<open>What a returned evaluation leaves behind.\<close>

lemma session_evaluate_Inr:
  assumes "session_evaluate H fits s request reading = (t, Inr rec)" "session_ok H s"
  shows "fits request \<and> oi_workspace_id (rq_intent request) = pf_workspace_id (ss_portfolio s) \<and>
    (\<exists>oid e. map_of (ss_entries t) oid = Some e \<and> en_record e = rec \<and> rd_request_hash rec = H (HRequest request))"
proof -
  let ?intent = "rq_intent request"
  let ?oid = "oi_order_intent_id ?intent"
  let ?id = "case map_of (ss_keys s) (oi_idempotency_key ?intent) of Some existing \<Rightarrow> existing | None \<Rightarrow> ?oid"
  obtain registration where base: "fits request" "oi_workspace_id ?intent = pf_workspace_id (ss_portfolio s)"
    "map_of (ss_registrations s) (oi_agent_version_id ?intent) = Some registration"
    using assms(1) by (auto simp: session_evaluate_def Let_def split: if_splits option.splits)
  show ?thesis
  proof (cases "map_of (ss_entries s) ?id")
    case (Some e)
    then have "t = s" "rec = en_record e" "rd_request_hash (en_record e) = H (HRequest request)"
      using assms(1) base by (auto simp: session_evaluate_def Let_def split: if_splits)
    with Some base show ?thesis by blast
  next
    case None
    let ?ev = "\<lambda>now. evaluate H request registration (ss_portfolio s) (ss_controls s) (ss_networks s)
        (held_reservations s None) now"
    let ?au = "\<lambda>s1 result. audit_event H s1 Evaluated (outcome_of (re_decision (rd_evaluation result)))
        (H (HRecord result)) (re_evaluated_at (rd_evaluation result)) (re_reason_codes (rd_evaluation result))"
    let ?new = "\<lambda>s2 result res. s2\<lparr>ss_entries := AList.update ?oid
        \<lparr>en_request = request, en_record = result, en_reservation = res,
         en_fencing_token = rc_fencing_token (ss_controls s), en_terminal_handoff = False,
         en_issued_permit = None\<rparr> (ss_entries s2),
        ss_keys := AList.update (oi_idempotency_key ?intent) ?oid (ss_keys s2),
        ss_decisions := AList.update (oi_decision_id ?intent) ?oid (ss_decisions s2)\<rparr>"
    have td: "then_do (take_now s reading) (\<lambda>s1 now. case ?ev now of
        Inl e \<Rightarrow> (s1, Inl (EvaluatorRaised e))
      | Inr (result, res) \<Rightarrow> then_do (?au s1 result) (\<lambda>s2 _. (?new s2 result res, Inr result))) = (t, Inr rec)"
      using assms(1) base None by (simp add: session_evaluate_def Let_def split: if_splits)
    obtain s1 now where "(case ?ev now of
        Inl e \<Rightarrow> (s1, Inl (EvaluatorRaised e))
      | Inr (result, res) \<Rightarrow> then_do (?au s1 result) (\<lambda>s2 _. (?new s2 result res, Inr result))) = (t, Inr rec)"
      using then_do_Some[OF td] by blast
    then obtain result res where ev: "?ev now = Inr (result, res)"
      and td2: "then_do (?au s1 result) (\<lambda>s2 _. (?new s2 result res, Inr result)) = (t, Inr rec)"
      by (cases "?ev now") auto
    obtain s2 where "?new s2 result res = t" "result = rec" using then_do_Some[OF td2] by auto
    then have "map_of (ss_entries t) ?oid = Some \<lparr>en_request = request, en_record = rec, en_reservation = res,
         en_fencing_token = rc_fencing_token (ss_controls s), en_terminal_handoff = False, en_issued_permit = None\<rparr>"
      by (auto simp: update_conv')
    then obtain e where r: "map_of (ss_entries t) ?oid = Some e" "en_record e = rec" "?ev now = Inr (rec, res)"
      using ev \<open>result = rec\<close> by auto
    have "rd_request_hash rec = H (HRequest request)" using r(3) by (elim evaluate_cases) simp_all
    with r base show ?thesis by blast
  qed
qed

text \<open>
  Evaluations are remembered. Once a request was evaluated, submitting it again at any later point
  returns the identical record and changes nothing, not even the clock, whatever happened to the controls, the
  reservations or the handoff in between. (Hypothesis on \<open>content_hash\<close>: requests with the hash of this one have
  its idempotency key and agent version.)
\<close>

theorem evaluation_is_remembered:
  assumes "init_session H environment portfolio controls registrations capacity = Inr s0"
    and "s = fst (session_run H fits s0 before)"
    and "session_evaluate H fits s request reading = (t, Inr rec)"
    and "u = fst (session_run H fits t after)"
    and "\<And>q. H (HRequest q) = H (HRequest request) \<Longrightarrow>
      oi_idempotency_key (rq_intent q) = oi_idempotency_key (rq_intent request) \<and>
      oi_agent_version_id (rq_intent q) = oi_agent_version_id (rq_intent request)"
  shows "session_evaluate H fits u request reading' = (u, Inr rec)"
proof -
  have ok: "session_ok H s" using run_session_ok[OF assms(1)] assms(2) by simp
  obtain oid e where e: "fits request" "oi_workspace_id (rq_intent request) = pf_workspace_id (ss_portfolio s)"
    "map_of (ss_entries t) oid = Some e" "en_record e = rec" "rd_request_hash rec = H (HRequest request)"
    using session_evaluate_Inr[OF assms(3) ok] by blast
  have st: "changes H s t" using session_evaluate_changes[of H s fits request reading] assms(3) by simp
  have tu: "changes H t u" using session_run_changes assms(4) by simp
  have okt: "session_ok H t" by (rule risk_gate.changes_inv[OF st ok])
  have oku: "session_ok H u" by (rule risk_gate.changes_inv[OF tu okt])
  obtain e' where e': "map_of (ss_entries u) oid = Some e'" "en_record e' = rec"
    using changes_entry_persists[OF tu okt e(3)] e(4) by auto
  then have "entry_ok H u oid e'" using oku by (simp add: session_ok_def entries_ok_def)
  then have f: "H (HRequest (en_request e')) = H (HRequest request)"
    "map_of (ss_keys u) (oi_idempotency_key (rq_intent (en_request e'))) = Some oid"
    "map_of (ss_registrations u) (oi_agent_version_id (rq_intent (en_request e'))) \<noteq> None"
    using e'(2) e(5) unfolding entry_ok_def by auto
  have "ss_portfolio u = ss_portfolio s"
    using changes_core[OF st] changes_core[OF tu] by (simp add: same_core_def)
  then show ?thesis
    using f(2,3) assms(5)[OF f(1)] e(1,2,5) e' by (auto simp: session_evaluate_def Let_def)
qed

text \<open>
  A reused idempotency key is a conflict. If a key was used by an evaluated request, a request with the same key
  and another content hash is refused with \<open>idempotency_conflict\<close> and nothing changes.
\<close>

theorem reused_key_conflicts:
  assumes "init_session H environment portfolio controls registrations capacity = Inr s0"
    and "s = fst (session_run H fits s0 commands)"
    and "map_of (ss_entries s) oid = Some e"
    and "oi_idempotency_key (rq_intent request) = oi_idempotency_key (rq_intent (en_request e))"
    and "H (HRequest request) \<noteq> H (HRequest (en_request e))"
    and "fits request" "oi_workspace_id (rq_intent request) = pf_workspace_id (ss_portfolio s)"
    and "map_of (ss_registrations s) (oi_agent_version_id (rq_intent request)) \<noteq> None"
  shows "session_evaluate H fits s request reading = (s, Inl IdempotencyConflict)"
proof -
  have "entry_ok H s oid e"
    using run_session_ok[OF assms(1)] assms(2,3) by (simp add: session_ok_def entries_ok_def)
  then show ?thesis
    using assms(3-8) by (auto simp: session_evaluate_def Let_def entry_ok_def)
qed

section \<open>Audit and controls\<close>

text \<open>
  The audit log is an append-only contiguous sequence: whatever is called, the events recorded before stay
  a prefix, and the events are numbered 1, 2, 3 and so on.
\<close>

lemma changes_audit: "changes H s t \<Longrightarrow> \<exists>ext. ss_audit t = ss_audit s @ ext"
proof (induction rule: rtranclp_induct)
  case (step t u)
  from step.hyps(2) have "\<exists>ext. ss_audit u = ss_audit t @ ext" by (induction rule: change.induct) auto
  with step.IH show ?case by auto
qed simp

theorem audit_is_append_only:
  assumes "init_session H environment portfolio controls registrations capacity = Inr s0"
    and "s = fst (session_run H fits s0 before)"
    and "t = fst (session_run H fits s after)"
  shows "(\<exists>ext. ss_audit t = ss_audit s @ ext) \<and>
    map ae_sequence (ss_audit t) = map int [1..<Suc (length (ss_audit t))]"
proof -
  have st: "changes H s t" using session_run_changes assms(3) by simp
  have "session_ok H s" using run_session_ok[OF assms(1)] assms(2) by simp
  then have "session_ok H t" by (rule risk_gate.changes_inv[OF st])
  then show ?thesis using changes_audit[OF st] by (simp add: session_ok_def audit_ok_def)
qed

text \<open>
  Controls only advance. Over any sequence of operations the workspace and account of the controls stay, the
  fencing token and the observation time do not go back, and controls that differ have a greater version.
\<close>

definition controls_advance :: "risk_controls \<Rightarrow> risk_controls \<Rightarrow> bool" where
  "controls_advance a b \<longleftrightarrow> rc_workspace_id b = rc_workspace_id a \<and> rc_account_id b = rc_account_id a \<and>
     rc_fencing_token a \<le> rc_fencing_token b \<and> rc_as_of a \<le> rc_as_of b \<and>
     (b = a \<or> rc_version a < rc_version b)"

lemma changes_controls: "changes H s t \<Longrightarrow> controls_advance (ss_controls s) (ss_controls t)"
proof (induction rule: rtranclp_induct)
  case base
  then show ?case by (simp add: controls_advance_def)
next
  case (step t u)
  from step.hyps(2) have "controls_advance (ss_controls t) (ss_controls u)"
    by (induction rule: change.induct) (auto simp: controls_advance_def controls_regress_def)
  with step.IH show ?case unfolding controls_advance_def by auto
qed

theorem controls_only_advance:
  "controls_advance (ss_controls s) (ss_controls (fst (session_run H fits s commands)))"
  by (rule changes_controls[OF session_run_changes])

end
