(* ===== verification/PaperContracts.thy ===== *)
theory PaperContracts
  imports RiskContracts
begin

text \<open>
  \<open>kavrigo_paper/contracts.py\<close>: configuration, synthetic order books, commands and the journal of the
  paper broker, with their validators. \<open>content_hash\<close> is again a parameter, over \<open>paper_artefact\<close>.
\<close>

record paper_instrument =
  pi_instrument_id :: instrument_id
  pi_quantity_step :: decimal
  pi_price_tick :: decimal
  pi_minimum_notional_usd :: decimal
  pi_network :: string

definition paper_instrument_error :: "paper_instrument \<Rightarrow> domain_error option" where
  "paper_instrument_error p = first_error
     [(instrument_error (pi_instrument_id p) \<noteq> None, BadPattern),
      (pi_quantity_step p \<le> dec_zero, OutOfRange), (pi_price_tick p \<le> dec_zero, OutOfRange),
      (pi_minimum_notional_usd p \<le> dec_zero, OutOfRange), (\<not> risk_name_ok (pi_network p), BadPattern),
      (i_quote (pi_instrument_id p) \<noteq> ''USD'' \<or> i_class (pi_instrument_id p) \<noteq> Spot, NotSpot),
      (case (units (pi_quantity_step p), units (pi_price_tick p)) of
         (Some step, Some tick) \<Rightarrow> product step tick = None | _ \<Rightarrow> True, UnsupportedPrecision),
      (units (pi_minimum_notional_usd p) = None, UnsupportedPrecision)]"

record paper_config =
  pc_version :: string
  pc_latency_ms :: int
  pc_max_market_age_ms :: int
  pc_instruments :: "paper_instrument list"

definition paper_config_error :: "paper_config \<Rightarrow> domain_error option" where
  "paper_config_error c = first_error
     [(\<not> risk_name_ok (pc_version c), BadPattern),
      (pc_latency_ms c < 0 \<or> 60000 < pc_latency_ms c, OutOfRange),
      (\<not> duration_ok (pc_max_market_age_ms c), OutOfRange),
      (pc_instruments c = [] \<or> 512 < length (pc_instruments c), OutOfRange),
      (list_ex (\<lambda>p. paper_instrument_error p \<noteq> None) (pc_instruments c), OutOfRange),
      (\<not> distinct (map (\<lambda>p. i_value (pi_instrument_id p)) (pc_instruments c)), DuplicateInstrument)]"

record paper_level =
  lv_price :: decimal
  lv_quantity :: decimal

record paper_book =
  bk_instrument_id :: instrument_id
  bk_sequence :: int
  bk_event_time :: datetime
  bk_received_at :: datetime
  bk_bids :: "paper_level list"
  bk_asks :: "paper_level list"
  bk_resync :: bool

definition level_error :: "paper_level \<Rightarrow> domain_error option" where
  "level_error l = first_error [(lv_price l \<le> dec_zero, OutOfRange), (lv_quantity l \<le> dec_zero, OutOfRange)]"

text \<open>
  \<open>bids != sorted(set(bids), reverse=True)\<close>: the list is not strictly decreasing by value;
  the asks strictly increase.
\<close>

definition book_error :: "paper_book \<Rightarrow> domain_error option" where
  "book_error b = (let bids = map lv_price (bk_bids b); asks = map lv_price (bk_asks b) in first_error
     [(instrument_error (bk_instrument_id b) \<noteq> None, BadPattern),
      (bk_sequence b < 1, OutOfRange),
      (bids = [] \<or> 32 < length bids \<or> asks = [] \<or> 32 < length asks, OutOfRange),
      (list_ex (\<lambda>l. level_error l \<noteq> None) (bk_bids b @ bk_asks b), OutOfRange),
      (bk_received_at b < bk_event_time b, BadTimes),
      (\<not> sorted_wrt (\<lambda>x y. y < x) bids \<or> \<not> sorted_wrt (<) asks, UnorderedLevels),
      (\<not> hd bids < hd asks, CrossedBook)])"

text \<open>
  A \<open>PaperRiskPermit\<close> has no validator of its own: it is constructible when its parts are.
\<close>

definition permit_error :: "paper_risk_permit \<Rightarrow> domain_error option" where
  "permit_error p = first_error
     [(\<not> risk_name_ok (pp_account_id p) \<or> \<not> risk_name_ok (rd_account_id (pp_record p)), BadPattern),
      (approved_intent_error (pp_approval p) \<noteq> None, OutOfRange),
      (instrument_error (ao_instrument_id (pp_approval p)) \<noteq> None, BadPattern),
      (risk_evaluation_error (rd_evaluation (pp_record p)) \<noteq> None, OutOfRange),
      (execution_policy_error (pp_execution p) \<noteq> None, OutOfRange)]"

datatype command_kind = KSubmit | KMarket | KCancel

record paper_command =
  cm_kind :: command_kind
  cm_at :: datetime
  cm_permit :: "paper_risk_permit option"
  cm_book :: "paper_book option"
  cm_client_order_id :: "string option"
  cm_blocked_intents :: "string list"

definition command_error :: "paper_command \<Rightarrow> domain_error option" where
  "command_error c = first_error
     [((cm_permit c \<noteq> None, cm_book c \<noteq> None, cm_client_order_id c \<noteq> None) \<noteq>
         (case cm_kind c of KSubmit \<Rightarrow> (True, False, False) | KMarket \<Rightarrow> (False, True, False)
          | KCancel \<Rightarrow> (False, False, True)), BadPayload),
      (cm_kind c \<noteq> KMarket \<and> cm_blocked_intents c \<noteq> [], BadPayload)]"

text \<open>A command that can be constructed: its shape and its parts pass their validators.\<close>

definition command_valid :: "paper_command \<Rightarrow> bool" where
  "command_valid c \<longleftrightarrow> command_error c = None
     \<and> (case cm_permit c of None \<Rightarrow> True | Some p \<Rightarrow> permit_error p = None)
     \<and> (case cm_book c of None \<Rightarrow> True | Some b \<Rightarrow> book_error b = None)"

definition submit_command :: "datetime \<Rightarrow> paper_risk_permit \<Rightarrow> paper_command" where
  "submit_command now permit = \<lparr>cm_kind = KSubmit, cm_at = now, cm_permit = Some permit, cm_book = None,
     cm_client_order_id = None, cm_blocked_intents = []\<rparr>"

definition market_command :: "datetime \<Rightarrow> paper_book \<Rightarrow> string list \<Rightarrow> paper_command" where
  "market_command now book blocked = \<lparr>cm_kind = KMarket, cm_at = now, cm_permit = None, cm_book = Some book,
     cm_client_order_id = None, cm_blocked_intents = blocked\<rparr>"

definition cancel_command :: "datetime \<Rightarrow> string \<Rightarrow> paper_command" where
  "cancel_command now cid = \<lparr>cm_kind = KCancel, cm_at = now, cm_permit = None, cm_book = None,
     cm_client_order_id = Some cid, cm_blocked_intents = []\<rparr>"

lemma commands_well_shaped:
  "command_error (submit_command now permit) = None" "command_error (market_command now book blocked) = None"
  "command_error (cancel_command now cid) = None"
  by (simp_all add: command_error_def submit_command_def market_command_def cancel_command_def)

record paper_account_state =
  ps_account_id :: string
  ps_portfolio :: portfolio_snapshot
  ps_orders :: "order list"
  ps_cost_basis :: "(string \<times> money) list"
  ps_mark_times :: "(string \<times> datetime) list"
  ps_fees_paid :: money
  ps_batch_sealed :: bool

record journal_entry =
  je_sequence :: int
  je_previous_hash :: string
  je_command :: paper_command
  je_state_hash :: string
  je_entry_hash :: string

record paper_replay =
  bu_account_id :: string
  bu_initial_portfolio :: portfolio_snapshot
  bu_config :: paper_config
  bu_entries :: "journal_entry list"

record paper_reconciliation =
  rn_sequence :: int
  rn_discovered_fill_ids :: "string list"
  rn_state_hash :: string
  rn_reconciled_at :: datetime

datatype paper_artefact =
    PRisk risk_artefact
  | POrder string string string
  | PFill string string int
  | PBook paper_book
  | PState paper_account_state
  | PEntry journal_entry
  | PHeader string portfolio_snapshot paper_config

text \<open>The same \<open>content_hash\<close> as the risk service sees it.\<close>

definition risk_hash :: "(paper_artefact \<Rightarrow> string) \<Rightarrow> risk_artefact \<Rightarrow> string" where
  "risk_hash H a = H (PRisk a)"

datatype (plugins only: code size) paper_error =
    InvalidInitialAccount | InvalidInitialReconciliation | UnknownInitialCostBasis | InvalidInitialCostBasis
  | InconsistentInitialPosition | InconsistentInitialUnrealizedPnl | OutOfOrderCommand | UnknownOrder
  | GenerationHasUnsettledOrders | GenerationRequiresFreshReconciliation | BatchSealed | InvalidPaperIssuance
  | InsufficientUnreservedCash | InsufficientUnreservedQuantity | InvalidMarketScopeOrTime | OutOfOrderMarket
  | InvalidMarketIncrement | CashInvariant | PositionInvariant
  | PaperSimulatorIsLocalOnly | InvalidJournalCapacity | PaperWorkspaceMismatch | PaperInvalidClock
  | PaperClockMovedBackwards | JournalCapacityExhausted | ReconciliationRequired | MarketIdempotencyConflict
  | JournalIntegrityError | JournalStateMismatch | SimulatorReconciliationMismatch | InvalidPaperArtifact
  | PaperDeliveryUnknown | JournalSizeExhausted
  | PValueError | PKeyError | PIndexError | PAssertion | PZeroDivision | PValidation domain_error

abbreviation punits :: "decimal \<Rightarrow> paper_error + int" where
  "punits d \<equiv> of_option PValueError (units d)"

definition validated :: "domain_error option \<Rightarrow> 'a \<Rightarrow> paper_error + 'a" where
  "validated e x = (case e of None \<Rightarrow> Inr x | Some err \<Rightarrow> Inl (PValidation err))"

lemma validated_Inr [simp]: "validated e x = Inr y \<longleftrightarrow> e = None \<and> x = y"
  by (simp add: validated_def split: option.split)

end
