(* ===== verification/PaperLedger.thy ===== *)
theory PaperLedger
  imports PaperContracts RiskEvaluator
begin

text \<open>
  \<open>kavrigo_paper/ledger.py\<close>: the deterministic replay kernel. A \<open>Ledger\<close> is a record; \<open>apply\<close> works on a
  deep copy in the code and returns the new ledger here. Working orders are held in a dictionary by client
  order id and updated in place, so a step reads an order by its id and writes it back. Every exception,
  including those of the domain validators, is a value of \<open>paper_error\<close>.
\<close>

section \<open>State\<close>

record holding =
  h_quantity :: int
  h_basis :: int
  h_mark :: int
  h_realized :: int
  h_opened_at :: "datetime option"

record working_order =
  wo_permit :: paper_risk_permit
  wo_order :: order
  wo_target :: int
  wo_gross :: int
  wo_debit :: int

record ledger =
  ld_account_id :: string
  ld_initial :: portfolio_snapshot
  ld_config :: paper_config
  ld_cash :: int
  ld_peak :: int
  ld_realized :: "(int \<times> int) list"
  ld_fees :: int
  ld_holdings :: "(string \<times> holding) list"
  ld_mark_times :: "(string \<times> datetime) list"
  ld_orders :: "(string \<times> working_order) list"
  ld_books :: "(string \<times> paper_book) list"
  ld_healthy :: "(string \<times> bool) list"
  ld_as_of :: datetime
  ld_sealed :: bool

definition usd_money :: "int \<Rightarrow> money" where
  "usd_money v = \<lparr>m_amount = decimal_of v, m_currency = ''USD''\<rparr>"

definition identity_of :: "(paper_artefact \<Rightarrow> string) \<Rightarrow> string \<Rightarrow> paper_artefact \<Rightarrow> string" where
  "identity_of H prefix artefact =
     (let h = H artefact; p = ''sha256:'' in
      prefix @ ''_'' @ take 32 (if take (length p) h = p then drop (length p) h else h))"

text \<open>Rounding half to even, on integers.\<close>

definition average :: "int \<Rightarrow> int \<Rightarrow> paper_error + int" where
  "average gross quantity =
     (if quantity = 0 then Inl PZeroDivision
      else let quotient = gross * SCALE div quantity; remainder = gross * SCALE mod quantity in
           Inr (quotient + (if quantity < remainder * 2 \<or> (remainder * 2 = quantity \<and> quotient mod 2 \<noteq> 0) then 1 else 0)))"

definition instruments_of :: "paper_config \<Rightarrow> (string \<times> paper_instrument) list" where
  "instruments_of config = map (\<lambda>p. (i_value (pi_instrument_id p), p)) (pc_instruments config)"

definition instrument_for :: "ledger \<Rightarrow> string \<Rightarrow> paper_error + paper_instrument" where
  "instrument_for l key = of_option PKeyError (map_of (instruments_of (ld_config l)) key)"

definition order_open :: "working_order \<Rightarrow> bool" where
  "order_open w \<longleftrightarrow> is_open (o_status (wo_order w))"

section \<open>Construction\<close>

definition initial_holding :: "paper_config \<Rightarrow> position \<Rightarrow> paper_error + (string \<times> holding \<times> int)" where
  "initial_holding config p =
     (let key = i_value (pos_instrument_id p); expected = (i_base (pos_instrument_id p), ''USD'') in
      case (pos_average_entry_price p, pos_mark_price p) of
        (Some entry, Some mark) \<Rightarrow>
          if (p_base entry, p_quote entry) \<noteq> expected then Inl InvalidInitialCostBasis
          else
            bindE (punits (q_value (pos_quantity p))) (\<lambda>q.
            bindE (punits (p_value entry)) (\<lambda>entry_units.
            bindE (of_option PValueError (product q entry_units)) (\<lambda>basis.
            bindE (punits (p_value mark)) (\<lambda>mark_units.
            bindE (of_option PValueError (product q mark_units)) (\<lambda>market_value.
            let pnl = market_value - basis in
            if m_currency (pos_realized_pnl p) \<noteq> ''USD'' \<or> m_currency (pos_unrealized_pnl p) \<noteq> ''USD''
            then Inl InconsistentInitialPosition
            else
              bindE (punits (m_amount (pos_unrealized_pnl p))) (\<lambda>unrealized.
              if unrealized \<noteq> pnl then Inl InconsistentInitialPosition
              else
                bindE (of_option PKeyError (map_of (instruments_of config) key)) (\<lambda>settings.
                if pos_network p \<notin> {None, Some (pi_network settings)} then Inl InconsistentInitialPosition
                else
                  bindE (punits (m_amount (pos_realized_pnl p))) (\<lambda>realized.
                  Inr (key, \<lparr>h_quantity = q, h_basis = basis, h_mark = mark_units, h_realized = realized,
                             h_opened_at = pos_opened_at p\<rparr>, pnl)))))))))
      | _ \<Rightarrow> Inl UnknownInitialCostBasis)"

text \<open>The holdings in order, and the sum of their unrealized profit.\<close>

fun initial_holdings ::
    "paper_config \<Rightarrow> position list \<Rightarrow> (string \<times> holding) list \<Rightarrow> int \<Rightarrow>
     paper_error + ((string \<times> holding) list \<times> int)" where
  "initial_holdings config [] hs sum_pnl = Inr (hs, sum_pnl)"
| "initial_holdings config (p # ps) hs sum_pnl =
     bindE (initial_holding config p) (\<lambda>(key, h, pnl).
     initial_holdings config ps (AList.update key h hs) (sum_pnl + pnl))"

definition ledger_init ::
    "string \<Rightarrow> portfolio_snapshot \<Rightarrow> paper_config \<Rightarrow> paper_error + ledger" where
  "ledger_init account_id initial config =
     (if pf_mode initial \<notin> {Paper, Backtest} \<or> \<not> pf_is_reconciled initial then Inl InvalidInitialAccount
      else
        bindE (of_option PValueError (account_state initial
          (map (\<lambda>(key, p). (key, pi_network p)) (instruments_of config)) [])) (\<lambda>_.
        case pf_reconciled_at initial of
          None \<Rightarrow> Inl InvalidInitialReconciliation
        | Some t \<Rightarrow>
          if pf_as_of initial < t then Inl InvalidInitialReconciliation
          else
            bindE (punits (m_amount (pf_cash initial))) (\<lambda>cash.
            bindE (punits (m_amount (pf_peak_equity initial))) (\<lambda>peak.
            bindE (punits (m_amount (pf_realized_pnl_today initial))) (\<lambda>realized.
            bindE (initial_holdings config (pf_positions initial) [] 0) (\<lambda>(hs, total).
            bindE (punits (m_amount (pf_unrealized_pnl initial))) (\<lambda>unrealized.
            if unrealized \<noteq> total then Inl InconsistentInitialUnrealizedPnl
            else Inr \<lparr>ld_account_id = account_id, ld_initial = initial, ld_config = config, ld_cash = cash,
                   ld_peak = peak, ld_realized = [(date_of (pf_as_of initial), realized)], ld_fees = 0,
                   ld_holdings = hs, ld_mark_times = map (\<lambda>(key, h). (key, pf_as_of initial)) hs,
                   ld_orders = [], ld_books = [], ld_healthy = [], ld_as_of = pf_as_of initial,
                   ld_sealed = False\<rparr>)))))))"

section \<open>Snapshot\<close>

fun reserved_sum :: "(string \<times> working_order) list \<Rightarrow> paper_error + int" where
  "reserved_sum [] = Inr 0"
| "reserved_sum ((cid, w) # rest) =
     (if order_open w
      then bindE (punits (m_amount (rd_max_cash_debit (pp_record (wo_permit w))))) (\<lambda>limit.
           bindE (reserved_sum rest) (\<lambda>total. Inr (limit - wo_debit w + total)))
      else reserved_sum rest)"

definition reserved_cash :: "ledger \<Rightarrow> paper_error + int" where
  "reserved_cash l = reserved_sum (ld_orders l)"

definition price_of :: "paper_instrument \<Rightarrow> int \<Rightarrow> paper_error + price" where
  "price_of settings v =
     (let p = \<lparr>p_value = decimal_of v, p_base = i_base (pi_instrument_id settings), p_quote = ''USD''\<rparr>
      in validated (price_error p) p)"

definition quantity_for :: "paper_instrument \<Rightarrow> int \<Rightarrow> quantity" where
  "quantity_for settings v = \<lparr>q_value = decimal_of v, q_asset = i_base (pi_instrument_id settings)\<rparr>"

text \<open>One position of \<open>_snapshot\<close>, with its market value.\<close>

definition snapshot_position :: "ledger \<Rightarrow> string \<Rightarrow> holding \<Rightarrow> paper_error + (position \<times> int)" where
  "snapshot_position l key h =
     bindE (of_option PValueError (product (h_quantity h) (h_mark h))) (\<lambda>v.
     bindE (instrument_for l key) (\<lambda>settings.
     bindE (average (h_basis h) (h_quantity h)) (\<lambda>avg.
     bindE (price_of settings avg) (\<lambda>entry.
     bindE (price_of settings (h_mark h)) (\<lambda>mark.
     let p = \<lparr>pos_instrument_id = pi_instrument_id settings, pos_quantity = quantity_for settings (h_quantity h),
              pos_average_entry_price = Some entry, pos_mark_price = Some mark,
              pos_realized_pnl = usd_money (h_realized h), pos_unrealized_pnl = usd_money (v - h_basis h),
              pos_opened_at = h_opened_at h, pos_network = Some (pi_network settings)\<rparr>
     in bindE (validated (position_error p) p) (\<lambda>p. Inr (p, v)))))))"

fun snapshot_positions ::
    "ledger \<Rightarrow> (string \<times> holding) list \<Rightarrow> paper_error + (position list \<times> int \<times> int)" where
  "snapshot_positions l [] = Inr ([], 0, 0)"
| "snapshot_positions l ((key, h) # rest) =
     (if h_quantity h = 0 then snapshot_positions l rest
      else bindE (snapshot_position l key h) (\<lambda>(p, v).
           bindE (snapshot_positions l rest) (\<lambda>(ps, exposure, unrealized).
           Inr (p # ps, v + exposure, v - h_basis h + unrealized))))"

text \<open>The \<open>all(...)\<close> over the holdings; a missing mark time is a \<open>KeyError\<close>.\<close>

fun marks_fresh :: "ledger \<Rightarrow> (string \<times> holding) list \<Rightarrow> paper_error + bool" where
  "marks_fresh l [] = Inr True"
| "marks_fresh l ((key, h) # rest) =
     (if h_quantity h = 0 then marks_fresh l rest
      else bindE (of_option PKeyError (map_of (ld_mark_times l) key)) (\<lambda>t.
           if age_ms (ld_as_of l) t \<le> pc_max_market_age_ms (ld_config l) then marks_fresh l rest else Inr False))"

definition snapshot_portfolio :: "ledger \<Rightarrow> paper_error + portfolio_snapshot" where
  "snapshot_portfolio l =
     bindE (snapshot_positions l (sort_key fst (ld_holdings l))) (\<lambda>(positions, exposure, unrealized).
     bindE (reserved_cash l) (\<lambda>reserved.
     bindE (if list_all snd (ld_healthy l) then marks_fresh l (ld_holdings l) else Inr False) (\<lambda>reconciled.
     let equity = ld_cash l + exposure;
         p = \<lparr>pf_workspace_id = pf_workspace_id (ld_initial l), pf_mode = pf_mode (ld_initial l),
              pf_as_of = ld_as_of l, pf_base_currency = ''USD'', pf_cash = usd_money (ld_cash l),
              pf_reserved_cash = usd_money reserved, pf_positions = positions,
              pf_realized_pnl_today = usd_money (get0 (ld_realized l) (date_of (ld_as_of l))),
              pf_unrealized_pnl = usd_money unrealized, pf_equity = usd_money equity,
              pf_gross_exposure = usd_money exposure, pf_net_exposure = usd_money exposure,
              pf_peak_equity = usd_money (max equity (ld_peak l)),
              pf_open_order_count = int (length (filter (\<lambda>(cid, w). order_open w) (ld_orders l))),
              pf_is_reconciled = reconciled, pf_reconciled_at = Some (ld_as_of l)\<rparr>
     in validated (portfolio_error p) p)))"

definition snapshot :: "ledger \<Rightarrow> paper_error + paper_account_state" where
  "snapshot l =
     bindE (snapshot_portfolio l) (\<lambda>portfolio.
     bindE (validated (if risk_name_ok (ld_account_id l) then None else Some BadPattern) ()) (\<lambda>_.
     Inr \<lparr>ps_account_id = ld_account_id l, ps_portfolio = portfolio,
          ps_orders = map (\<lambda>(cid, w). wo_order w) (ld_orders l),
          ps_cost_basis = map (\<lambda>(key, h). (key, usd_money (h_basis h))) (sort_key fst (ld_holdings l)),
          ps_mark_times = sort_key fst (ld_mark_times l), ps_fees_paid = usd_money (ld_fees l),
          ps_batch_sealed = ld_sealed l\<rparr>))"

section \<open>Status changes and submission\<close>

definition put_order :: "ledger \<Rightarrow> string \<Rightarrow> working_order \<Rightarrow> ledger" where
  "put_order l cid w = l\<lparr>ld_orders := AList.update cid w (ld_orders l)\<rparr>"

definition with_status ::
    "working_order \<Rightarrow> order_status \<Rightarrow> datetime \<Rightarrow> string option \<Rightarrow> paper_error + working_order" where
  "with_status w status now reason =
     (let o' = (wo_order w)\<lparr>o_status := status, o_last_updated_at := now, o_reject_reason := reason,
                 o_reconciled_at := Some now\<rparr>
      in bindE (validated (order_error o') o') (\<lambda>o'. Inr (w\<lparr>wo_order := o'\<rparr>)))"

definition issuance_invalid ::
    "(paper_artefact \<Rightarrow> string) \<Rightarrow> ledger \<Rightarrow> paper_risk_permit \<Rightarrow> datetime \<Rightarrow> bool" where
  "issuance_invalid H l permit now \<longleftrightarrow>
     (let approval = pp_approval permit; record = pp_record permit; evaluation = rd_evaluation record;
          initial = ld_initial l in
      map_of (instruments_of (ld_config l)) (i_value (ao_instrument_id approval)) = None
      \<or> pp_account_id permit \<noteq> ld_account_id l
      \<or> rd_account_id record \<noteq> ld_account_id l
      \<or> ao_workspace_id approval \<noteq> pf_workspace_id initial
      \<or> ao_mode approval \<noteq> pf_mode initial
      \<or> rd_portfolio_hash record \<noteq> risk_hash H (HPortfolio initial)
      \<or> re_workspace_id evaluation \<noteq> pf_workspace_id initial
      \<or> re_order_intent_id evaluation \<noteq> ao_order_intent_id approval
      \<or> re_risk_evaluation_id evaluation \<noteq> ao_risk_evaluation_id approval
      \<or> \<not> is_approved evaluation
      \<or> \<not> money_eq (re_approved_notional evaluation) (ao_approved_notional approval)
      \<or> now < ao_approved_at approval
      \<or> min (ao_expires_at approval) (rd_expires_at record) \<le> now
      \<or> ao_order_type approval \<noteq> MarketOrder
      \<or> ao_time_in_force approval \<noteq> IOC
      \<or> ao_limit_price approval \<noteq> None
      \<or> q_asset (rd_max_quantity record) \<noteq> i_base (ao_instrument_id approval)
      \<or> m_currency (rd_max_cash_debit record) \<noteq> ''USD''
      \<or> m_currency (ao_approved_notional approval) \<noteq> ''USD''
      \<or> map_of (ld_orders l) (ao_client_order_id approval) \<noteq> None
      \<or> list_ex (\<lambda>(cid, w). o_order_intent_id (wo_order w) = ao_order_intent_id approval) (ld_orders l))"

definition reserved_sells :: "ledger \<Rightarrow> instrument_id \<Rightarrow> int" where
  "reserved_sells l i = sum_list (map (\<lambda>(cid, w). wo_target w)
     (filter (\<lambda>(cid, w). order_open w \<and> o_side (wo_order w) = Sell \<and> o_instrument_id (wo_order w) = i) (ld_orders l)))"

definition new_order ::
    "(paper_artefact \<Rightarrow> string) \<Rightarrow> ledger \<Rightarrow> approved_order_intent \<Rightarrow> paper_instrument \<Rightarrow> datetime \<Rightarrow> order" where
  "new_order H l approval settings now =
     \<lparr>o_order_id = identity_of H ''ord'' (POrder (ld_account_id l) (pf_workspace_id (ld_initial l)) (ao_client_order_id approval)),
      o_client_order_id = ao_client_order_id approval, o_order_intent_id = ao_order_intent_id approval,
      o_workspace_id = ao_workspace_id approval, o_instrument_id = ao_instrument_id approval,
      o_mode = ao_mode approval, o_side = ao_side approval, o_order_type = ao_order_type approval,
      o_status = Submitted, o_requested_notional = ao_approved_notional approval,
      o_filled_quantity = quantity_for settings 0, o_average_fill_price = None, o_fees_paid = usd_money 0,
      o_fills = [], o_submitted_at = Some now, o_last_updated_at = now, o_reject_reason = None, o_reconciled_at = Some now\<rparr>"

text \<open>Lines 290-300: a sell needs holdings that no open sell has claimed.\<close>

definition sell_uncovered :: "ledger \<Rightarrow> approved_order_intent \<Rightarrow> int \<Rightarrow> bool" where
  "sell_uncovered l approval target \<longleftrightarrow> ao_side approval = Sell \<and>
     (case map_of (ld_holdings l) (i_value (ao_instrument_id approval)) of None \<Rightarrow> True
      | Some h \<Rightarrow> h_quantity h - reserved_sells l (ao_instrument_id approval) < target)"

definition below_minimum :: "paper_instrument \<Rightarrow> approved_order_intent \<Rightarrow> int \<Rightarrow> paper_error + bool" where
  "below_minimum settings approval target =
     (if target \<le> 0 then Inr True
      else bindE (punits (m_amount (ao_approved_notional approval))) (\<lambda>approved.
           bindE (punits (pi_minimum_notional_usd settings)) (\<lambda>minimum. Inr (approved < minimum))))"

text \<open>Lines 301-330: the order, rejected at once when it is too small.\<close>

definition place_order ::
    "(paper_artefact \<Rightarrow> string) \<Rightarrow> ledger \<Rightarrow> paper_risk_permit \<Rightarrow> paper_instrument \<Rightarrow> int \<Rightarrow> datetime \<Rightarrow> paper_error + ledger" where
  "place_order H l permit settings target now =
     (let approval = pp_approval permit; o' = new_order H l approval settings now in
      bindE (validated (order_error o') o') (\<lambda>o'.
      let w = \<lparr>wo_permit = permit, wo_order = o', wo_target = target, wo_gross = 0, wo_debit = 0\<rparr> in
      bindE (below_minimum settings approval target) (\<lambda>small.
      bindE (if small then with_status w Rejected now (Some ''below_simulator_minimum'') else Inr w) (\<lambda>w.
      Inr (put_order l (ao_client_order_id approval) w)))))"

definition submit ::
    "(paper_artefact \<Rightarrow> string) \<Rightarrow> ledger \<Rightarrow> paper_risk_permit \<Rightarrow> datetime \<Rightarrow> paper_error + ledger" where
  "submit H l permit now =
     (let approval = pp_approval permit; record = pp_record permit in
      if ld_sealed l then Inl BatchSealed
      else if issuance_invalid H l permit now then Inl InvalidPaperIssuance
      else
        bindE (instrument_for l (i_value (ao_instrument_id approval))) (\<lambda>settings.
        bindE (punits (pi_quantity_step settings)) (\<lambda>lot.
        bindE (punits (q_value (rd_max_quantity record))) (\<lambda>max_quantity.
        if lot = 0 then Inl PZeroDivision else
        let target = max_quantity div lot * lot in
        bindE (punits (m_amount (rd_max_cash_debit record))) (\<lambda>debit.
        if debit < 0 then Inl InsufficientUnreservedCash else
        bindE (reserved_cash l) (\<lambda>reserved.
        if ld_cash l - reserved < debit then Inl InsufficientUnreservedCash
        else if sell_uncovered l approval target then Inl InsufficientUnreservedQuantity
        else place_order H l permit settings target now))))))"

section \<open>Matching\<close>

text \<open>The execution price of a level: slippage against the order, then to the tick, away from the order.\<close>

definition fill_price :: "order_side \<Rightarrow> int \<Rightarrow> int \<Rightarrow> int \<Rightarrow> int" where
  "fill_price side raw_price slip tick =
     (if side = Buy then ceil_div (raw_price * (BPS_DENOMINATOR + slip)) (BPS_DENOMINATOR * tick)
      else raw_price * (BPS_DENOMINATOR - slip) div (BPS_DENOMINATOR * tick)) * tick"

definition fill_fee :: "int \<Rightarrow> int \<Rightarrow> int" where
  "fill_fee gross fee_bps = ceil_div (gross * fee_bps) BPS_DENOMINATOR"

definition fill_debit :: "order_side \<Rightarrow> int \<Rightarrow> int \<Rightarrow> int" where
  "fill_debit side gross fee = (if side = Buy then gross else 0) + fee"

text \<open>What \<open>allowed\<close> closes over.\<close>

record fill_context =
  fc_side :: order_side
  fc_lot :: int
  fc_price :: int
  fc_fee_bps :: int
  fc_budget :: int
  fc_cash_limit :: int

definition fill_allowed :: "fill_context \<Rightarrow> int \<Rightarrow> paper_error + bool" where
  "fill_allowed c lots =
     bindE (of_option PValueError (product (lots * fc_lot c) (fc_price c))) (\<lambda>gross.
     Inr (gross \<le> fc_budget c \<and> fill_debit (fc_side c) gross (fill_fee gross (fc_fee_bps c)) \<le> fc_cash_limit c))"

text \<open>The effect of a fill on the holding and the cash, with the profit it realizes.\<close>

definition trade ::
    "order_side \<Rightarrow> holding \<Rightarrow> int \<Rightarrow> int \<Rightarrow> int \<Rightarrow> int \<Rightarrow> paper_error + (holding \<times> int \<times> int)" where
  "trade side h cash quantity gross fee =
     (if side = Buy then
        (if cash < gross + fee then Inl CashInvariant
         else Inr (h\<lparr>h_quantity := h_quantity h + quantity, h_basis := h_basis h + gross\<rparr>,
                   cash - (gross + fee), - fee))
      else if h_quantity h < quantity \<or> cash < fee then Inl PositionInvariant
      else if h_quantity h = 0 then Inl PZeroDivision
      else let basis = h_basis h * quantity div h_quantity h in
           Inr (h\<lparr>h_quantity := h_quantity h - quantity, h_basis := h_basis h - basis\<rparr>,
                cash + (gross - fee), gross - basis - fee))"

text \<open>\<open>str\<close> of a natural number, for \<open>venue_fill_id\<close>.\<close>

fun digits_of :: "nat \<Rightarrow> string" where
  "digits_of n = (if n < 10 then [''0123456789'' ! n] else digits_of (n div 10) @ [''0123456789'' ! (n mod 10)])"

declare digits_of.simps [simp del]

definition venue_fill_id_of :: "int \<Rightarrow> nat \<Rightarrow> string" where
  "venue_fill_id_of sequence index = ''paper-'' @ digits_of (nat sequence) @ ''-'' @ digits_of index"

definition book_fill ::
    "(paper_artefact \<Rightarrow> string) \<Rightarrow> ledger \<Rightarrow> order \<Rightarrow> paper_book \<Rightarrow> nat \<Rightarrow> paper_instrument \<Rightarrow> int \<Rightarrow> price \<Rightarrow> int \<Rightarrow>
     datetime \<Rightarrow> fill" where
  "book_fill H l o' book index settings quantity price fee now =
     \<lparr>f_fill_id = identity_of H ''fill'' (PFill (o_order_id o') (H (PBook book)) (int index)),
      f_order_id = o_order_id o', f_workspace_id = pf_workspace_id (ld_initial l),
      f_instrument_id = bk_instrument_id book, f_side = o_side o', f_quantity = quantity_for settings quantity,
      f_price = price, f_fee = usd_money fee, f_liquidity = Taker,
      f_venue_fill_id = Some (venue_fill_id_of (bk_sequence book) index), f_venue_timestamp = bk_event_time book,
      f_recorded_at = now, f_sequence = Some (bk_sequence book)\<rparr>"

text \<open>Lines 440-478: the trade is booked on holding, cash, realized profit, fees and mark time.\<close>

definition settle ::
    "ledger \<Rightarrow> paper_book \<Rightarrow> order_side \<Rightarrow> int \<Rightarrow> int \<Rightarrow> int \<Rightarrow> datetime \<Rightarrow> paper_error + ledger" where
  "settle l book side quantity gross fee now =
     (let key = i_value (bk_instrument_id book) in
      case bk_bids book of [] \<Rightarrow> Inl PIndexError | best # rest \<Rightarrow>
      bindE (punits (lv_price best)) (\<lambda>best_bid.
      let h = (case map_of (ld_holdings l) key of Some h \<Rightarrow> h
               | None \<Rightarrow> \<lparr>h_quantity = 0, h_basis = 0, h_mark = best_bid, h_realized = 0, h_opened_at = Some now\<rparr>) in
      bindE (trade side h (ld_cash l) quantity gross fee) (\<lambda>(h', cash, realized).
      Inr (l\<lparr>ld_cash := cash,
             ld_holdings := AList.update key (h'\<lparr>h_realized := h_realized h' + realized\<rparr>) (ld_holdings l),
             ld_mark_times := AList.update key (bk_event_time book) (ld_mark_times l),
             ld_realized := add_at (date_of now) realized (ld_realized l),
             ld_fees := ld_fees l + fee\<rparr>))))"

text \<open>Lines 460-491: the fill is recorded on the order.\<close>

definition record_fill ::
    "(paper_artefact \<Rightarrow> string) \<Rightarrow> ledger \<Rightarrow> working_order \<Rightarrow> paper_book \<Rightarrow> nat \<Rightarrow> paper_instrument \<Rightarrow> int \<Rightarrow> int \<Rightarrow> int \<Rightarrow>
     int \<Rightarrow> datetime \<Rightarrow> paper_error + working_order" where
  "record_fill H l w book index settings quantity price gross fee now =
     (let o' = wo_order w; debit = fill_debit (o_side o') gross fee in
      bindE (price_of settings price) (\<lambda>fill_price.
      let f = book_fill H l o' book index settings quantity fill_price fee now in
      bindE (validated (fill_error f) f) (\<lambda>f.
      bindE (punits (q_value (o_filled_quantity o'))) (\<lambda>so_far.
      let filled = so_far + quantity in
      bindE (punits (m_amount (o_fees_paid o'))) (\<lambda>fees.
      bindE (average (wo_gross w + gross) filled) (\<lambda>avg.
      bindE (price_of settings avg) (\<lambda>avg_price.
      let o'' = o'\<lparr>o_fills := o_fills o' @ [f], o_filled_quantity := quantity_for settings filled,
                   o_fees_paid := usd_money (fees + fee), o_average_fill_price := Some avg_price,
                   o_status := PartiallyFilled, o_last_updated_at := now\<rparr> in
      bindE (validated (order_error o'') o'') (\<lambda>o''.
      Inr (w\<lparr>wo_order := o'', wo_gross := wo_gross w + gross, wo_debit := wo_debit w + debit\<rparr>)))))))))"

text \<open>
  Lines 417-433: the lots that may be filled at the price, from the remaining target, the displayed
  depth and the two ceilings of the permit.
\<close>

definition fill_context_of ::
    "working_order \<Rightarrow> int \<Rightarrow> int \<Rightarrow> int \<Rightarrow> int \<Rightarrow> int \<Rightarrow> fill_context" where
  "fill_context_of w lot price fee_bps approved max_debit =
     \<lparr>fc_side = o_side (wo_order w), fc_lot = lot, fc_price = price, fc_fee_bps = fee_bps,
      fc_budget = approved - wo_gross w, fc_cash_limit = max_debit - wo_debit w\<rparr>"

definition fill_lots :: "working_order \<Rightarrow> int \<Rightarrow> int \<Rightarrow> int \<Rightarrow> int \<Rightarrow> paper_error + int" where
  "fill_lots w lot price fee_bps available =
     bindE (punits (q_value (o_filled_quantity (wo_order w)))) (\<lambda>filled.
     if lot = 0 then Inl PZeroDivision else
     bindE (punits (m_amount (ao_approved_notional (pp_approval (wo_permit w))))) (\<lambda>approved.
     bindE (punits (m_amount (rd_max_cash_debit (pp_record (wo_permit w))))) (\<lambda>max_debit.
     bisect (fill_allowed (fill_context_of w lot price fee_bps approved max_debit)) 0
       (min (wo_target w - filled) available div lot))))"

text \<open>Lines 437-491: a fill of \<open>quantity\<close> at \<open>price\<close>.\<close>

definition execute_fill ::
    "(paper_artefact \<Rightarrow> string) \<Rightarrow> ledger \<Rightarrow> string \<Rightarrow> working_order \<Rightarrow> paper_book \<Rightarrow> nat \<Rightarrow> paper_instrument \<Rightarrow> int \<Rightarrow> int \<Rightarrow> int \<Rightarrow>
     datetime \<Rightarrow> paper_error + ledger" where
  "execute_fill H l cid w book index settings quantity price fee_bps now =
     bindE (of_option PValueError (product quantity price)) (\<lambda>gross.
     let fee = fill_fee gross fee_bps in
     bindE (settle l book (o_side (wo_order w)) quantity gross fee now) (\<lambda>l'.
     bindE (record_fill H l w book index settings quantity price gross fee now) (\<lambda>w'.
     Inr (put_order l' cid w'))))"

definition fill_level ::
    "(paper_artefact \<Rightarrow> string) \<Rightarrow> ledger \<Rightarrow> string \<Rightarrow> paper_book \<Rightarrow> nat \<Rightarrow> int \<Rightarrow> int list \<Rightarrow> datetime \<Rightarrow>
     paper_error + (ledger \<times> int list)" where
  "fill_level H l cid book index raw_price depth now =
     (case map_of (ld_orders l) cid of None \<Rightarrow> Inl PKeyError | Some w \<Rightarrow>
      let side = o_side (wo_order w); execution = pp_execution (wo_permit w) in
      bindE (instrument_for l (i_value (bk_instrument_id book))) (\<lambda>settings.
      bindE (punits (pi_quantity_step settings)) (\<lambda>lot.
      bindE (punits (pi_price_tick settings)) (\<lambda>tick.
      bindE (punits (xp_slippage_bps execution)) (\<lambda>slip.
      bindE (punits (xp_fee_bps execution)) (\<lambda>fee_bps.
      if tick = 0 then Inl PZeroDivision else
      let price = fill_price side raw_price slip tick in
      if price \<le> 0 then Inr (l, depth)
      else if length depth \<le> index then Inl PIndexError
      else
        bindE (fill_lots w lot price fee_bps (depth ! index)) (\<lambda>lots.
        let quantity = lots * lot in
        if quantity = 0 then Inr (l, depth)
        else
          bindE (execute_fill H l cid w book index settings quantity price fee_bps now) (\<lambda>l'.
          Inr (l', depth[index := depth ! index - quantity])))))))))"

text \<open>The loop over the levels stops when the order has its target.\<close>

fun fill_levels ::
    "(paper_artefact \<Rightarrow> string) \<Rightarrow> ledger \<Rightarrow> string \<Rightarrow> paper_book \<Rightarrow> nat \<Rightarrow> paper_level list \<Rightarrow> int list \<Rightarrow> datetime \<Rightarrow>
     paper_error + (ledger \<times> int list)" where
  "fill_levels H l cid book index [] depth now = Inr (l, depth)"
| "fill_levels H l cid book index (level # levels) depth now =
     bindE (punits (lv_price level)) (\<lambda>raw_price.
     bindE (fill_level H l cid book index raw_price depth now) (\<lambda>(l', depth').
     case map_of (ld_orders l') cid of None \<Rightarrow> Inl PKeyError | Some w \<Rightarrow>
     bindE (punits (q_value (o_filled_quantity (wo_order w)))) (\<lambda>filled.
     if filled = wo_target w then Inr (l', depth')
     else fill_levels H l' cid book (Suc index) levels depth' now)))"

definition set_status ::
    "ledger \<Rightarrow> string \<Rightarrow> order_status \<Rightarrow> datetime \<Rightarrow> string option \<Rightarrow> paper_error + ledger" where
  "set_status l cid status now reason =
     (case map_of (ld_orders l) cid of None \<Rightarrow> Inl PKeyError
      | Some w \<Rightarrow> bindE (with_status w status now reason) (\<lambda>w'. Inr (put_order l cid w')))"

text \<open>Lines 380-389: an order that is ready is accepted, filled and closed.\<close>

definition execute_order ::
    "(paper_artefact \<Rightarrow> string) \<Rightarrow> ledger \<Rightarrow> string \<Rightarrow> paper_book \<Rightarrow> paper_level list \<Rightarrow> int list \<Rightarrow> datetime \<Rightarrow>
     paper_error + (ledger \<times> int list)" where
  "execute_order H l cid book levels depth now =
     bindE (set_status l cid Accepted now None) (\<lambda>l1.
     bindE (fill_levels H l1 cid book 0 levels depth now) (\<lambda>(l2, depth').
     case map_of (ld_orders l2) cid of None \<Rightarrow> Inl PKeyError | Some w \<Rightarrow>
     bindE (punits (q_value (o_filled_quantity (wo_order w)))) (\<lambda>filled.
     bindE (if filled = wo_target w then set_status l2 cid Filled now None
            else set_status l2 cid Cancelled now (Some ''ioc_remainder_cancelled'')) (\<lambda>l3.
     Inr (l3, depth')))))"

text \<open>The remaining depth of the two sides: what buys take from the asks, and sells from the bids.\<close>

type_synonym depths = "int list \<times> int list"

definition match_order ::
    "(paper_artefact \<Rightarrow> string) \<Rightarrow> paper_book \<Rightarrow> datetime \<Rightarrow> bool \<Rightarrow> string list \<Rightarrow> ledger \<times> depths \<Rightarrow> string \<Rightarrow>
     paper_error + (ledger \<times> depths)" where
  "match_order H book now healthy blocked st cid =
     (case st of (l, (asks, bids)) \<Rightarrow>
      case map_of (ld_orders l) cid of None \<Rightarrow> Inl PKeyError | Some w \<Rightarrow>
      let o' = wo_order w; approval = pp_approval (wo_permit w) in
      if \<not> order_open w \<or> o_instrument_id o' \<noteq> bk_instrument_id book then Inr st
      else (case o_submitted_at o' of None \<Rightarrow> Inl PAssertion | Some submitted \<Rightarrow>
        let ready_at = submitted + ms (pc_latency_ms (ld_config l)) in
        if ao_expires_at approval \<le> now then
          bindE (set_status l cid Expired now (Some ''approval_expired'')) (\<lambda>l'. Inr (l', (asks, bids)))
        else if bk_event_time book < ready_at \<or> bk_received_at book < ready_at then Inr st
        else
          let l1 = l\<lparr>ld_sealed := True\<rparr> in
          if ao_order_intent_id approval \<in> set blocked then
            bindE (set_status l1 cid Cancelled now (Some ''risk_recheck_rejected'')) (\<lambda>l'. Inr (l', (asks, bids)))
          else if \<not> healthy \<or> xp_max_market_age_ms (pp_execution (wo_permit w)) < age_ms now (bk_event_time book) then
            bindE (set_status l1 cid Cancelled now (Some ''market_unhealthy'')) (\<lambda>l'. Inr (l', (asks, bids)))
          else if o_side o' = Buy then
            bindE (execute_order H l1 cid book (bk_asks book) asks now) (\<lambda>(l', asks'). Inr (l', (asks', bids)))
          else
            bindE (execute_order H l1 cid book (bk_bids book) bids now) (\<lambda>(l', bids'). Inr (l', (asks, bids')))))"

fun match_orders ::
    "(paper_artefact \<Rightarrow> string) \<Rightarrow> paper_book \<Rightarrow> datetime \<Rightarrow> bool \<Rightarrow> string list \<Rightarrow> string list \<Rightarrow> ledger \<times> depths \<Rightarrow>
     paper_error + (ledger \<times> depths)" where
  "match_orders H book now healthy blocked [] st = Inr st"
| "match_orders H book now healthy blocked (cid # cids) st =
     bindE (match_order H book now healthy blocked st cid) (match_orders H book now healthy blocked cids)"

fun check_levels :: "int \<Rightarrow> int \<Rightarrow> paper_level list \<Rightarrow> paper_error + unit" where
  "check_levels lot tick [] = Inr ()"
| "check_levels lot tick (level # levels) =
     bindE (punits (lv_price level)) (\<lambda>p.
     if tick = 0 then Inl PZeroDivision else
     if p mod tick \<noteq> 0 then Inl InvalidMarketIncrement else
     bindE (punits (lv_quantity level)) (\<lambda>q.
     if lot = 0 then Inl PZeroDivision else
     if q mod lot \<noteq> 0 then Inl InvalidMarketIncrement else check_levels lot tick levels))"

fun quantities_of :: "paper_level list \<Rightarrow> paper_error + int list" where
  "quantities_of [] = Inr []"
| "quantities_of (level # levels) =
     bindE (punits (lv_quantity level)) (\<lambda>q. bindE (quantities_of levels) (\<lambda>qs. Inr (q # qs)))"

definition book_regresses :: "paper_book \<Rightarrow> paper_book \<Rightarrow> bool" where
  "book_regresses previous book \<longleftrightarrow> bk_sequence book \<le> bk_sequence previous \<or>
     bk_received_at book < bk_received_at previous \<or> bk_event_time book < bk_event_time previous"

definition book_healthy :: "ledger \<Rightarrow> paper_book \<Rightarrow> datetime \<Rightarrow> bool" where
  "book_healthy l book now \<longleftrightarrow>
     (let key = i_value (bk_instrument_id book);
          expected = (case map_of (ld_books l) key of Some previous \<Rightarrow> bk_sequence previous + 1 | None \<Rightarrow> 1);
          so_far = (case map_of (ld_healthy l) key of Some b \<Rightarrow> b | None \<Rightarrow> True) in
      (bk_resync book \<or> (bk_sequence book = expected \<and> so_far)) \<and>
      age_ms now (bk_event_time book) \<le> pc_max_market_age_ms (ld_config l) \<and>
      age_ms now (bk_received_at book) \<le> pc_max_market_age_ms (ld_config l))"

text \<open>Lines 354-357: the book is stored and marks the holding when it is healthy.\<close>

definition store_book :: "ledger \<Rightarrow> paper_book \<Rightarrow> bool \<Rightarrow> paper_error + ledger" where
  "store_book l book healthy =
     (let key = i_value (bk_instrument_id book);
          l1 = l\<lparr>ld_books := AList.update key book (ld_books l), ld_healthy := AList.update key healthy (ld_healthy l)\<rparr> in
      case (healthy, map_of (ld_holdings l) key) of
        (True, Some h) \<Rightarrow>
          (case bk_bids book of [] \<Rightarrow> Inl PIndexError | best # rest \<Rightarrow>
           bindE (punits (lv_price best)) (\<lambda>mark.
           Inr (l1\<lparr>ld_holdings := AList.update key (h\<lparr>h_mark := mark\<rparr>) (ld_holdings l),
                   ld_mark_times := AList.update key (bk_event_time book) (ld_mark_times l)\<rparr>)))
      | _ \<Rightarrow> Inr l1)"

definition market ::
    "(paper_artefact \<Rightarrow> string) \<Rightarrow> ledger \<Rightarrow> paper_book \<Rightarrow> datetime \<Rightarrow> string list \<Rightarrow> paper_error + ledger" where
  "market H l book now blocked =
     (let key = i_value (bk_instrument_id book) in
      case map_of (instruments_of (ld_config l)) key of None \<Rightarrow> Inl InvalidMarketScopeOrTime
      | Some settings \<Rightarrow>
        if now < bk_received_at book then Inl InvalidMarketScopeOrTime
        else if (case map_of (ld_books l) key of Some previous \<Rightarrow> book_regresses previous book | None \<Rightarrow> False)
        then Inl OutOfOrderMarket
        else
          bindE (punits (pi_quantity_step settings)) (\<lambda>lot.
          bindE (punits (pi_price_tick settings)) (\<lambda>tick.
          bindE (check_levels lot tick (bk_bids book @ bk_asks book)) (\<lambda>_.
          let healthy = book_healthy l book now in
          bindE (store_book l book healthy) (\<lambda>l1.
          bindE (quantities_of (bk_asks book)) (\<lambda>asks.
          bindE (quantities_of (bk_bids book)) (\<lambda>bids.
          bindE (match_orders H book now healthy blocked (map fst (ld_orders l1)) (l1, (asks, bids))) (\<lambda>(l2, _).
          Inr l2))))))))"

section \<open>apply and begin\_generation\<close>

definition apply_body ::
    "(paper_artefact \<Rightarrow> string) \<Rightarrow> ledger \<Rightarrow> paper_command \<Rightarrow> paper_error + ledger" where
  "apply_body H l c =
     (case cm_kind c of
        KSubmit \<Rightarrow> (case cm_permit c of None \<Rightarrow> Inl PAssertion | Some permit \<Rightarrow> submit H l permit (cm_at c))
      | KMarket \<Rightarrow> (case cm_book c of None \<Rightarrow> Inl PAssertion
          | Some book \<Rightarrow> market H l book (cm_at c) (cm_blocked_intents c))
      | KCancel \<Rightarrow> (case cm_client_order_id c of None \<Rightarrow> Inl PAssertion
          | Some cid \<Rightarrow> (case map_of (ld_orders l) cid of None \<Rightarrow> Inl UnknownOrder
              | Some w \<Rightarrow> if order_open w then set_status l cid Cancelled (cm_at c) (Some ''cancelled_by_coordinator'')
                          else Inr l)))"

definition apply_command ::
    "(paper_artefact \<Rightarrow> string) \<Rightarrow> ledger \<Rightarrow> paper_command \<Rightarrow> paper_error + ledger" where
  "apply_command H l c =
     (if cm_at c < ld_as_of l then Inl OutOfOrderCommand
      else
        bindE (apply_body H l c) (\<lambda>l1.
        let l2 = l1\<lparr>ld_as_of := cm_at c\<rparr> in
        bindE (snapshot l2) (\<lambda>state.
        bindE (punits (m_amount (pf_peak_equity (ps_portfolio state)))) (\<lambda>peak.
        Inr (l2\<lparr>ld_peak := peak\<rparr>)))))"

definition begin_generation :: "ledger \<Rightarrow> datetime \<Rightarrow> paper_error + ledger" where
  "begin_generation l now =
     (if now < ld_as_of l \<or> list_ex (\<lambda>(cid, w). order_open w) (ld_orders l) then Inl GenerationHasUnsettledOrders
      else
        let l1 = l\<lparr>ld_as_of := now\<rparr> in
        bindE (snapshot l1) (\<lambda>state.
        if \<not> pf_is_reconciled (ps_portfolio state) then Inl GenerationRequiresFreshReconciliation
        else Inr (l1\<lparr>ld_initial := ps_portfolio state, ld_orders := [], ld_sealed := False\<rparr>)))"

end
