(* ===== verification/PaperSteps.thy ===== *)
theory PaperSteps
  imports PaperLedger
begin

text \<open>
  What one step of the matching loop does to a ledger, and the interface through which a fact about
  these steps becomes a fact about whole commands. \<open>fill_step\<close> is one executed fill, with everything
  \<open>_fill_level\<close> checked before it; \<open>ledger_steps\<close> is the contract of a relation that holds across a
  status change, a fill, a stored book and the sealing flag.
\<close>

declare map_of_eq_Some_iff [simp del] Some_eq_map_of_iff [simp del]

section \<open>Inversion of the operations\<close>

lemma with_statusE:
  assumes "with_status w status now reason = Inr w'"
  obtains "w' = w\<lparr>wo_order := (wo_order w)\<lparr>o_status := status, o_last_updated_at := now,
      o_reject_reason := reason, o_reconciled_at := Some now\<rparr>\<rparr>"
    "order_error (wo_order w') = None"
  using assms by (auto simp: with_status_def Let_def bindE_Inr_iff)

lemma set_statusE:
  assumes "set_status l cid status now reason = Inr l'"
  obtains w w' where "map_of (ld_orders l) cid = Some w" "with_status w status now reason = Inr w'"
    "l' = put_order l cid w'"
  using assms by (auto simp: set_status_def bindE_Inr_iff split: option.splits)

lemma put_order_simps [simp]:
  "ld_orders (put_order l cid w) = AList.update cid w (ld_orders l)"
  "ld_cash (put_order l cid w) = ld_cash l" "ld_holdings (put_order l cid w) = ld_holdings l"
  "ld_config (put_order l cid w) = ld_config l" "ld_realized (put_order l cid w) = ld_realized l"
  "ld_fees (put_order l cid w) = ld_fees l" "ld_sealed (put_order l cid w) = ld_sealed l"
  "ld_as_of (put_order l cid w) = ld_as_of l" "ld_initial (put_order l cid w) = ld_initial l"
  "ld_account_id (put_order l cid w) = ld_account_id l" "ld_peak (put_order l cid w) = ld_peak l"
  by (simp_all add: put_order_def)

lemma settleE:
  assumes "settle l book side quantity gross fee now = Inr l'"
  obtains h h' cash realized best where
    "h = (case map_of (ld_holdings l) (i_value (bk_instrument_id book)) of Some h \<Rightarrow> h
      | None \<Rightarrow> \<lparr>h_quantity = 0, h_basis = 0, h_mark = best, h_realized = 0, h_opened_at = Some now\<rparr>)"
    "trade side h (ld_cash l) quantity gross fee = Inr (h', cash, realized)"
    "l' = l\<lparr>ld_cash := cash,
       ld_holdings := AList.update (i_value (bk_instrument_id book)) (h'\<lparr>h_realized := h_realized h' + realized\<rparr>) (ld_holdings l),
       ld_mark_times := AList.update (i_value (bk_instrument_id book)) (bk_event_time book) (ld_mark_times l),
       ld_realized := add_at (date_of now) realized (ld_realized l), ld_fees := ld_fees l + fee\<rparr>"
  using assms by (auto simp: settle_def Let_def bindE_Inr_iff split: list.splits)

lemma record_fillE:
  assumes "record_fill H l w book index settings quantity price gross fee now = Inr w'"
  obtains fill_price f so_far fees avg avg_price where
    "price_of settings price = Inr fill_price"
    "f = book_fill H l (wo_order w) book index settings quantity fill_price fee now" "fill_error f = None"
    "units (q_value (o_filled_quantity (wo_order w))) = Some so_far"
    "units (m_amount (o_fees_paid (wo_order w))) = Some fees"
    "average (wo_gross w + gross) (so_far + quantity) = Inr avg" "price_of settings avg = Inr avg_price"
    "order_error (wo_order w') = None"
    "w' = w\<lparr>wo_order := (wo_order w)\<lparr>o_fills := o_fills (wo_order w) @ [f],
              o_filled_quantity := quantity_for settings (so_far + quantity),
              o_fees_paid := usd_money (fees + fee), o_average_fill_price := Some avg_price,
              o_status := PartiallyFilled, o_last_updated_at := now\<rparr>,
            wo_gross := wo_gross w + gross, wo_debit := wo_debit w + fill_debit (o_side (wo_order w)) gross fee\<rparr>"
  using assms by (auto simp: record_fill_def Let_def bindE_Inr_iff)

lemma store_bookE:
  assumes "store_book l book healthy = Inr l'"
  obtains (unmarked) "l' = l\<lparr>ld_books := AList.update (i_value (bk_instrument_id book)) book (ld_books l),
      ld_healthy := AList.update (i_value (bk_instrument_id book)) healthy (ld_healthy l)\<rparr>"
  | (marked) h mark where "healthy" "map_of (ld_holdings l) (i_value (bk_instrument_id book)) = Some h"
      "l' = l\<lparr>ld_books := AList.update (i_value (bk_instrument_id book)) book (ld_books l),
      ld_healthy := AList.update (i_value (bk_instrument_id book)) healthy (ld_healthy l),
      ld_holdings := AList.update (i_value (bk_instrument_id book)) (h\<lparr>h_mark := mark\<rparr>) (ld_holdings l),
      ld_mark_times := AList.update (i_value (bk_instrument_id book)) (bk_event_time book) (ld_mark_times l)\<rparr>"
  using assms by (auto simp: store_book_def Let_def elim!: bindE_InrE split: bool.splits option.splits list.splits)

lemma place_orderE:
  assumes "place_order H l permit settings target now = Inr l'"
  obtains w w' small where "order_error (new_order H l (pp_approval permit) settings now) = None"
    "w = \<lparr>wo_permit = permit, wo_order = new_order H l (pp_approval permit) settings now, wo_target = target,
      wo_gross = 0, wo_debit = 0\<rparr>"
    "below_minimum settings (pp_approval permit) target = Inr small"
    "if small then with_status w Rejected now (Some ''below_simulator_minimum'') = Inr w' else w' = w"
    "l' = put_order l (ao_client_order_id (pp_approval permit)) w'"
  using assms by (auto simp: place_order_def Let_def elim!: bindE_InrE split: if_split_asm)

lemma submitE:
  assumes "submit H l permit now = Inr l'"
  obtains settings lot max_quantity debit reserved where
    "\<not> ld_sealed l" "\<not> issuance_invalid H l permit now"
    "instrument_for l (i_value (ao_instrument_id (pp_approval permit))) = Inr settings"
    "units (pi_quantity_step settings) = Some lot" "lot \<noteq> 0"
    "units (q_value (rd_max_quantity (pp_record permit))) = Some max_quantity"
    "units (m_amount (rd_max_cash_debit (pp_record permit))) = Some debit"
    "reserved_cash l = Inr reserved" "0 \<le> debit" "debit \<le> ld_cash l - reserved"
    "\<not> sell_uncovered l (pp_approval permit) (max_quantity div lot * lot)"
    "place_order H l permit settings (max_quantity div lot * lot) now = Inr l'"
  using assms by (auto simp: submit_def Let_def not_le not_less elim!: bindE_InrE split: if_split_asm)

section \<open>One fill\<close>

inductive fill_step ::
    "(paper_artefact \<Rightarrow> string) \<Rightarrow> ledger \<Rightarrow> string \<Rightarrow> paper_book \<Rightarrow> datetime \<Rightarrow> int \<Rightarrow> ledger \<Rightarrow> bool"
    for H l cid book now where
  step: "fill_step H l cid book now quantity (put_order l1 cid w')"
    if "map_of (ld_orders l) cid = Some w" "order_open w" "o_instrument_id (wo_order w) = bk_instrument_id book"
      "instrument_for l (i_value (bk_instrument_id book)) = Inr settings"
      "0 < quantity" "0 < price" "0 \<le> fee" "product quantity price = Some gross"
      "units (q_value (o_filled_quantity (wo_order w))) = Some filled"
      "units (m_amount (ao_approved_notional (pp_approval (wo_permit w)))) = Some approved"
      "units (m_amount (rd_max_cash_debit (pp_record (wo_permit w)))) = Some max_debit"
      "quantity \<le> wo_target w - filled" "gross \<le> approved - wo_gross w"
      "fill_debit (o_side (wo_order w)) gross fee \<le> max_debit - wo_debit w"
      "settle l book (o_side (wo_order w)) quantity gross fee now = Inr l1"
      "record_fill H l w book index settings quantity price gross fee now = Inr w'"

inductive_cases fill_stepE: "fill_step H l cid book now quantity l'"

text \<open>The order being filled is open and on the instrument of the book.\<close>

definition active :: "ledger \<Rightarrow> string \<Rightarrow> paper_book \<Rightarrow> bool" where
  "active l cid book \<longleftrightarrow> (\<exists>w. map_of (ld_orders l) cid = Some w \<and> order_open w \<and>
     o_instrument_id (wo_order w) = bk_instrument_id book)"

lemma record_fill_active:
  assumes "record_fill H l w book index settings quantity price gross fee now = Inr w'"
  shows "order_open w'" "o_instrument_id (wo_order w') = o_instrument_id (wo_order w)"
    "o_side (wo_order w') = o_side (wo_order w)" "wo_permit w' = wo_permit w" "wo_target w' = wo_target w"
  using assms by (auto elim!: record_fillE simp: order_open_def)

lemma fill_step_active: "fill_step H l cid book now quantity l' \<Longrightarrow> active l' cid book"
  by (erule fill_stepE) (auto simp: active_def update_Some_unfold dest: record_fill_active)

lemma record_fill_positive:
  assumes "record_fill H l w book index settings quantity price gross fee now = Inr w'"
  shows "0 < quantity" "0 \<le> fee"
proof -
  obtain fill_price where "fill_error (book_fill H l (wo_order w) book index settings quantity fill_price fee now) = None"
    using assms by (auto elim!: record_fillE)
  then show "0 < quantity" "0 \<le> fee"
    by (auto simp: fill_error_def book_fill_def quantity_for_def usd_money_def split: if_splits)
      (simp add: decimal_of_def dec_linear dec_zero_less)
qed

lemma fill_lots_le:
  assumes "fill_lots w lot price fee_bps available = Inr lots" "0 < lots * lot"
  obtains filled approved max_debit gross where
    "units (q_value (o_filled_quantity (wo_order w))) = Some filled"
    "units (m_amount (ao_approved_notional (pp_approval (wo_permit w)))) = Some approved"
    "units (m_amount (rd_max_cash_debit (pp_record (wo_permit w)))) = Some max_debit"
    "lots * lot \<le> wo_target w - filled" "lots * lot \<le> available" "product (lots * lot) price = Some gross"
    "gross \<le> approved - wo_gross w"
    "fill_debit (o_side (wo_order w)) gross (fill_fee gross fee_bps) \<le> max_debit - wo_debit w"
proof -
  obtain filled approved max_debit where u:
      "units (q_value (o_filled_quantity (wo_order w))) = Some filled"
      "units (m_amount (ao_approved_notional (pp_approval (wo_permit w)))) = Some approved"
      "units (m_amount (rd_max_cash_debit (pp_record (wo_permit w)))) = Some max_debit"
      and b: "bisect (fill_allowed (fill_context_of w lot price fee_bps approved max_debit)) 0
       (min (wo_target w - filled) available div lot) = Inr lots"
    using assms(1) by (auto simp: fill_lots_def bindE_Inr_iff split: if_split_asm)
  define high where "high = min (wo_target w - filled) available div lot"
  let ?test = "fill_allowed (fill_context_of w lot price fee_bps approved max_debit)"
  have b': "bisect ?test 0 high = Inr lots" using b by (simp add: high_def)
  have "0 < high"
  proof (rule ccontr)
    assume "\<not> 0 < high"
    then have "lots = 0" using bisect_done[of 0 high ?test] b' by simp
    then show False using assms(2) by simp
  qed
  then have r: "lots \<le> high" "0 \<le> lots" "lots = 0 \<or> ?test lots = Inr True"
    using bisect_result[OF b'] by auto
  then have pos: "0 < lots" "0 < lot" "?test lots = Inr True"
    using assms(2) by (auto simp: zero_less_mult_iff)
  have "lots * lot \<le> high * lot" using r(1) pos by (simp add: mult_right_mono)
  also have "\<dots> \<le> min (wo_target w - filled) available"
    using pos(2) pos_mod_sign[of lot "min (wo_target w - filled) available"] unfolding high_def
    by (metis add.commute div_mult_mod_eq le_add_same_cancel2)
  finally have "lots * lot \<le> wo_target w - filled" "lots * lot \<le> available" by simp_all
  then show ?thesis using pos(3) u that by (auto simp: fill_allowed_def fill_context_of_def bindE_Inr_iff)
qed

lemma fill_level_step:
  assumes f: "fill_level H l cid book index raw_price depth now = Inr (l', depth')" and a: "active l cid book"
  shows "(l' = l \<and> depth' = depth) \<or> (\<exists>q. fill_step H l cid book now q l' \<and> index < length depth \<and>
    q \<le> depth ! index \<and> depth' = depth[index := depth ! index - q])"
proof (cases "l' = l \<and> depth' = depth")
  case False
  obtain w where w: "map_of (ld_orders l) cid = Some w" "order_open w"
      "o_instrument_id (wo_order w) = bk_instrument_id book"
    using a by (auto simp: active_def)
  obtain settings lot price fee_bps lots where p: "0 < price" "index < length depth" "instrument_for l (i_value (bk_instrument_id book)) = Inr settings"
      and lots: "fill_lots w lot price fee_bps (depth ! index) = Inr lots"
      and ex: "execute_fill H l cid w book index settings (lots * lot) price fee_bps now = Inr l'"
      and depth': "depth' = depth[index := depth ! index - lots * lot]"
    using f False w(1)
    by (auto simp: fill_level_def Let_def not_le elim!: bindE_InrE split: if_split_asm)
  obtain gross l1 w' where e: "product (lots * lot) price = Some gross"
      "settle l book (o_side (wo_order w)) (lots * lot) gross (fill_fee gross fee_bps) now = Inr l1"
      "record_fill H l w book index settings (lots * lot) price gross (fill_fee gross fee_bps) now = Inr w'"
      "l' = put_order l1 cid w'"
    using ex by (auto simp: execute_fill_def Let_def elim!: bindE_InrE)
  note q = record_fill_positive[OF e(3)]
  obtain filled approved max_debit gross' where le:
      "units (q_value (o_filled_quantity (wo_order w))) = Some filled"
      "units (m_amount (ao_approved_notional (pp_approval (wo_permit w)))) = Some approved"
      "units (m_amount (rd_max_cash_debit (pp_record (wo_permit w)))) = Some max_debit"
      "lots * lot \<le> wo_target w - filled" "lots * lot \<le> depth ! index" "product (lots * lot) price = Some gross'"
      "gross' \<le> approved - wo_gross w"
      "fill_debit (o_side (wo_order w)) gross' (fill_fee gross' fee_bps) \<le> max_debit - wo_debit w"
    by (rule fill_lots_le[OF lots q(1)])
  have "gross' = gross" using le(6) e(1) by simp
  then have "fill_step H l cid book now (lots * lot) l'"
    unfolding e(4) using fill_step.step[OF w p(3) q(1) p(1) q(2) e(1) le(1-3) le(4)] le(7,8) e(2,3) by blast
  then show ?thesis using p(2) le(5) depth' by blast
qed simp

text \<open>What every fill of an order keeps, together with the depth it takes, the loop over the levels keeps.\<close>

lemma levels_rel:
  fixes Q :: "ledger \<times> int list \<Rightarrow> ledger \<times> int list \<Rightarrow> bool"
  assumes refl: "\<And>s. Q s s" and trans: "\<And>s t u. Q s t \<Longrightarrow> Q t u \<Longrightarrow> Q s u"
    and fill: "\<And>l d q l' index. active l cid book \<Longrightarrow> fill_step H l cid book now q l' \<Longrightarrow> index < length d \<Longrightarrow>
      q \<le> d ! index \<Longrightarrow> Q (l, d) (l', d[index := d ! index - q])"
  shows "fill_levels H l cid book index levels depth now = Inr (l', depth') \<Longrightarrow> active l cid book \<Longrightarrow>
    Q (l, depth) (l', depth') \<and> active l' cid book"
proof (induction levels arbitrary: l index depth)
  case (Cons level levels l index depth)
  obtain raw_price l1 depth1 where s: "fill_level H l cid book index raw_price depth now = Inr (l1, depth1)"
      "(l', depth') = (l1, depth1) \<or> fill_levels H l1 cid book (Suc index) levels depth1 now = Inr (l', depth')"
    using Cons.prems(1) by (auto elim!: bindE_InrE split: option.splits if_split_asm)
  have "Q (l, depth) (l1, depth1) \<and> active l1 cid book"
    using fill_level_step[OF s(1) Cons.prems(2)] refl fill fill_step_active Cons.prems(2) by blast
  then show ?case using s(2) Cons.IH trans by blast
qed (simp add: refl)

section \<open>The interface of a relation that every step keeps\<close>

locale ledger_steps =
  fixes H :: "paper_artefact \<Rightarrow> string"
    and R :: "ledger \<Rightarrow> ledger \<Rightarrow> bool"
  assumes R_refl: "R l l"
    and R_trans: "R l l1 \<Longrightarrow> R l1 l2 \<Longrightarrow> R l l2"
    and R_status: "map_of (ld_orders l) cid = Some w \<Longrightarrow> order_open w \<Longrightarrow> status \<noteq> UnknownStatus \<Longrightarrow>
      status \<noteq> PendingSubmit \<Longrightarrow> with_status w status now reason = Inr w' \<Longrightarrow> R l (put_order l cid w')"
    and R_fill: "fill_step H l cid book now quantity l' \<Longrightarrow> R l l'"
    and R_store: "store_book l book healthy = Inr l' \<Longrightarrow> R l l'"
    and R_seal: "R l (l\<lparr>ld_sealed := True\<rparr>)"
begin

lemma status_R:
  assumes "set_status l cid status now reason = Inr l'" "active l cid book" "status \<noteq> UnknownStatus"
    "status \<noteq> PendingSubmit"
  shows "R l l'"
  using assms by (auto elim!: set_statusE simp: active_def intro: R_status)

lemma level_R:
  assumes "fill_level H l cid book index raw_price depth now = Inr (l', depth')" "active l cid book"
  shows "R l l' \<and> active l' cid book"
  using fill_level_step[OF assms] assms(2) by (auto intro: R_refl R_fill fill_step_active)

lemma levels_R:
  "fill_levels H l cid book index levels depth now = Inr (l', depth') \<Longrightarrow> active l cid book \<Longrightarrow>
   R l l' \<and> active l' cid book"
  using levels_rel[of "\<lambda>s t. R (fst s) (fst t)" cid book H now l index levels depth l' depth'] R_refl R_trans R_fill
  by auto

lemma execute_order_R:
  assumes e: "execute_order H l cid book levels depth now = Inr (l', depth')" and a: "active l cid book"
  shows "R l l'"
proof -
  obtain l1 l2 status reason where
      s: "set_status l cid Accepted now None = Inr l1" "fill_levels H l1 cid book 0 levels depth now = Inr (l2, depth')"
      "set_status l2 cid status now reason = Inr l'" "status = Filled \<or> status = Cancelled"
    using e by (auto simp: execute_order_def elim!: bindE_InrE split: option.splits if_split_asm)
  have "active l1 cid book"
    using s(1) a by (auto elim!: set_statusE with_statusE simp: active_def order_open_def update_Some_unfold)
  note levels = levels_R[OF s(2) this]
  have "R l l1" "R l2 l'" using status_R[OF s(1) a] status_R[OF s(3)] levels s(4) by auto
  then show ?thesis using levels R_trans by blast
qed

lemma match_order_R:
  assumes m: "match_order H book now healthy blocked (l, (asks, bids)) cid = Inr (l', depths)"
  shows "R l l'"
proof (cases "active l cid book")
  case False
  then show ?thesis using m by (auto simp: match_order_def active_def R_refl split: option.splits)
next
  case True
  then obtain w where w: "map_of (ld_orders l) cid = Some w" "order_open w"
      "o_instrument_id (wo_order w) = bk_instrument_id book"
    by (auto simp: active_def)
  have sealed: "active (l\<lparr>ld_sealed := True\<rparr>) cid book" using True by (simp add: active_def)
  note seal = R_trans[OF R_seal[of l]]
  show ?thesis
    using m w
    by (auto simp: match_order_def Let_def elim!: bindE_InrE split: option.splits if_split_asm
        intro: R_refl status_R[OF _ True] seal status_R[OF _ sealed] execute_order_R[OF _ sealed])
qed

lemma match_orders_R: "match_orders H book now healthy blocked cids (l, depths) = Inr (l', depths') \<Longrightarrow> R l l'"
proof (induction cids arbitrary: l depths)
  case (Cons cid cids)
  obtain l1 asks bids where "match_order H book now healthy blocked (l, (fst depths, snd depths)) cid = Inr (l1, (asks, bids))"
      "match_orders H book now healthy blocked cids (l1, (asks, bids)) = Inr (l', depths')"
    using Cons.prems by (auto elim!: bindE_InrE)
  then show ?case using match_order_R Cons.IH R_trans by blast
qed (simp add: R_refl)

lemma market_R: "market H l book now blocked = Inr l' \<Longrightarrow> R l l'"
  by (auto simp: market_def Let_def elim!: bindE_InrE split: option.splits if_split_asm
      intro: R_trans[OF R_store match_orders_R])

lemma cancel_R:
  assumes "map_of (ld_orders l) cid = Some w"
    "(if order_open w then set_status l cid Cancelled now reason else Inr l) = Inr l'"
  shows "R l l'"
  using assms by (auto elim!: set_statusE intro: R_status R_refl split: if_split_asm)

text \<open>A command, when its submission and the two assignments at the end of \<open>apply\<close> keep the relation.\<close>

lemma apply_R:
  assumes a: "apply_command H l c = Inr l'"
    and submit: "\<And>permit l1. cm_permit c = Some permit \<Longrightarrow> submit H l permit (cm_at c) = Inr l1 \<Longrightarrow> R l l1"
    and finish: "\<And>l1 peak. ld_as_of l \<le> cm_at c \<Longrightarrow> R l1 (l1\<lparr>ld_as_of := cm_at c, ld_peak := peak\<rparr>)"
  shows "R l l'"
proof -
  obtain l1 peak where b: "apply_body H l c = Inr l1" "l' = l1\<lparr>ld_as_of := cm_at c, ld_peak := peak\<rparr>" "ld_as_of l \<le> cm_at c"
    using a by (auto simp: apply_command_def Let_def elim!: bindE_InrE split: if_split_asm)
  have "R l l1"
    using b(1) by (auto simp: apply_body_def split: command_kind.splits option.splits
        intro: submit market_R cancel_R)
  then show ?thesis using finish[OF b(3), of l1 peak] b(2) R_trans by blast
qed

end

end
