(* ===== verification/PaperInvariant.thy ===== *)
theory PaperInvariant
  imports PaperSteps
begin

text \<open>
  The invariant of the paper ledger: the cash covers what the open orders may still spend, the
  holdings cover what the open sells may still deliver, and every order is inside the ceilings of its
  permit. The invariant errors of \<open>_fill_level\<close> are unreachable under it.
\<close>

section \<open>What an order may still use\<close>

definition units0 :: "decimal \<Rightarrow> int" where
  "units0 d = (case units d of None \<Rightarrow> 0 | Some v \<Rightarrow> v)"

definition filled_units :: "working_order \<Rightarrow> int" where
  "filled_units w = units0 (q_value (o_filled_quantity (wo_order w)))"

definition cash_ceiling :: "working_order \<Rightarrow> int" where
  "cash_ceiling w = units0 (m_amount (rd_max_cash_debit (pp_record (wo_permit w))))"

definition approved_units :: "working_order \<Rightarrow> int" where
  "approved_units w = units0 (m_amount (ao_approved_notional (pp_approval (wo_permit w))))"

definition order_key :: "working_order \<Rightarrow> string" where
  "order_key w = i_value (o_instrument_id (wo_order w))"

definition reserve_of :: "working_order \<Rightarrow> int" where
  "reserve_of w = (if order_open w then cash_ceiling w - wo_debit w else 0)"

definition sell_of :: "string \<Rightarrow> working_order \<Rightarrow> int" where
  "sell_of key w = (if order_open w \<and> o_side (wo_order w) = Sell \<and> order_key w = key
     then wo_target w - filled_units w else 0)"

definition total_of :: "(working_order \<Rightarrow> int) \<Rightarrow> ledger \<Rightarrow> int" where
  "total_of f l = sum_list (map (\<lambda>(cid, w). f w) (ld_orders l))"

definition held :: "ledger \<Rightarrow> string \<Rightarrow> int" where
  "held l key = (case map_of (ld_holdings l) key of None \<Rightarrow> 0 | Some h \<Rightarrow> h_quantity h)"

definition worder_ok :: "string \<Rightarrow> working_order \<Rightarrow> bool" where
  "worder_ok cid w \<longleftrightarrow>
     (let o' = wo_order w; approval = pp_approval (wo_permit w) in
      o_client_order_id o' = cid \<and> o_side o' = ao_side approval \<and> o_instrument_id o' = ao_instrument_id approval
      \<and> instrument_error (o_instrument_id o') = None \<and> o_status o' \<notin> {PendingSubmit, UnknownStatus}
      \<and> units (q_value (o_filled_quantity o')) = Some (filled_units w)
      \<and> units (m_amount (rd_max_cash_debit (pp_record (wo_permit w)))) = Some (cash_ceiling w)
      \<and> 0 \<le> filled_units w \<and> filled_units w \<le> max 0 (wo_target w)
      \<and> (order_open w \<longrightarrow> 0 \<le> wo_target w)
      \<and> wo_target w \<le> max 0 (units0 (q_value (rd_max_quantity (pp_record (wo_permit w)))))
      \<and> 0 \<le> wo_gross w \<and> wo_gross w \<le> approved_units w
      \<and> 0 \<le> wo_debit w \<and> wo_debit w \<le> cash_ceiling w
      \<and> o_fees_paid o' = usd_money (wo_debit w - fill_debit (o_side o') (wo_gross w) 0))"

definition ledger_ok :: "ledger \<Rightarrow> bool" where
  "ledger_ok l \<longleftrightarrow> paper_config_error (ld_config l) = None
     \<and> distinct (map fst (ld_orders l))
     \<and> (\<forall>cid w. map_of (ld_orders l) cid = Some w \<longrightarrow> worder_ok cid w)
     \<and> total_of reserve_of l \<le> ld_cash l
     \<and> (\<forall>key h. map_of (ld_holdings l) key = Some h \<longrightarrow> 0 \<le> h_quantity h \<and> 0 \<le> h_basis h)
     \<and> (\<forall>key. total_of (sell_of key) l \<le> held l key)"

lemma units0_abs: "\<bar>units0 d\<bar> \<le> MAX_UNITS"
  using units_value(2)[of d] by (auto simp: units0_def split: option.split)

lemma units0_eq [simp]: "units d = Some v \<Longrightarrow> units0 d = v"
  by (simp add: units0_def)

lemma fill_debit_split: "fill_debit side gross fee = fill_debit side gross 0 + fee"
  by (simp add: fill_debit_def)

section \<open>Sums over the orders\<close>

lemma sum_update:
  "sum_list (map (\<lambda>(cid, w). f w) (AList.update cid w d)) =
   sum_list (map (\<lambda>(cid, w). f w) d) - (case map_of d cid of None \<Rightarrow> 0 | Some v \<Rightarrow> f v) + (f w :: int)"
  by (induction d) auto

lemma total_put [simp]:
  "map_of (ld_orders l) cid = Some w \<Longrightarrow> total_of f (put_order l cid w') = total_of f l - f w + f w'"
  by (simp add: total_of_def sum_update)

lemma total_put_new:
  "map_of (ld_orders l) cid = None \<Longrightarrow> total_of f (put_order l cid w') = total_of f l + f w'"
  by (simp add: total_of_def sum_update)

lemma total_cong: "ld_orders l' = ld_orders l \<Longrightarrow> total_of f l' = total_of f l"
  by (simp add: total_of_def)

lemma sum_ge_member:
  "\<forall>x \<in> set xs. (0::int) \<le> f x \<Longrightarrow> y \<in> set xs \<Longrightarrow> f y \<le> sum_list (map f xs)"
  by (rule member_le_sum_list) auto

lemma total_ge_member:
  assumes "map_of (ld_orders l) cid = Some w" "distinct (map fst (ld_orders l))"
    "\<And>c v. map_of (ld_orders l) c = Some v \<Longrightarrow> 0 \<le> f v"
  shows "f w \<le> total_of f l" "0 \<le> total_of f l"
proof -
  have all: "\<forall>x \<in> set (ld_orders l). 0 \<le> (\<lambda>(c, v). f v) x" using assms(2,3) by (auto simp: map_of_eq_Some_iff)
  show "f w \<le> total_of f l"
    using sum_ge_member[OF all, of "(cid, w)"] map_of_SomeD[OF assms(1)] by (simp add: total_of_def)
  then show "0 \<le> total_of f l" using assms(3)[OF assms(1)] by simp
qed

lemma worder_reserve: "worder_ok cid w \<Longrightarrow> 0 \<le> reserve_of w"
  by (simp add: worder_ok_def reserve_of_def Let_def)

lemma worder_sell: "worder_ok cid w \<Longrightarrow> 0 \<le> sell_of key w"
  by (auto simp: worder_ok_def sell_of_def Let_def)

lemma total_nonneg:
  assumes "distinct (map fst (ld_orders l))" "\<And>c v. map_of (ld_orders l) c = Some v \<Longrightarrow> 0 \<le> f v"
  shows "0 \<le> total_of f l"
  unfolding total_of_def using assms by (auto intro!: sum_list_nonneg simp: map_of_eq_Some_iff)

lemma ledger_ok_cash:
  assumes "ledger_ok l"
  shows "0 \<le> total_of reserve_of l" "0 \<le> ld_cash l"
proof -
  show "0 \<le> total_of reserve_of l"
    using assms worder_reserve by (intro total_nonneg) (auto simp: ledger_ok_def)
  then show "0 \<le> ld_cash l" using assms by (simp add: ledger_ok_def)
qed

lemma reserved_cash_total:
  assumes "ledger_ok l"
  shows "reserved_cash l = Inr (total_of reserve_of l)"
proof -
  have "reserved_sum os = Inr (sum_list (map (\<lambda>(cid, w). reserve_of w) os))"
    if "\<forall>(cid, w) \<in> set os. units (m_amount (rd_max_cash_debit (pp_record (wo_permit w)))) = Some (cash_ceiling w)" for os
    using that by (induction os rule: reserved_sum.induct) (auto simp: reserve_of_def)
  moreover have "\<forall>(cid, w) \<in> set (ld_orders l). units (m_amount (rd_max_cash_debit (pp_record (wo_permit w)))) = Some (cash_ceiling w)"
    using assms by (auto simp: ledger_ok_def worder_ok_def Let_def map_of_eq_Some_iff)
  ultimately show ?thesis by (simp add: reserved_cash_def total_of_def)
qed

section \<open>The invariant across a change of one order\<close>

lemma ledger_ok_change:
  assumes ok: "ledger_ok l" and w: "map_of (ld_orders l) cid = Some w" and ok': "worder_ok cid w'"
    and l': "ld_orders l' = AList.update cid w' (ld_orders l)" "ld_config l' = ld_config l"
    and cash: "ld_cash l - (reserve_of w - reserve_of w') \<le> ld_cash l'"
    and hold: "\<And>key h. map_of (ld_holdings l') key = Some h \<Longrightarrow> 0 \<le> h_quantity h \<and> 0 \<le> h_basis h"
    and sells: "\<And>key. held l key - (sell_of key w - sell_of key w') \<le> held l' key"
  shows "ledger_ok l'"
proof -
  have total: "total_of f l' = total_of f l - f w + f w'" for f
    using w l'(1) by (simp add: total_of_def sum_update)
  show ?thesis
    unfolding ledger_ok_def total
  proof (intro conjI allI impI)
    show "paper_config_error (ld_config l') = None" "distinct (map fst (ld_orders l'))"
      using ok l' by (simp_all add: ledger_ok_def distinct_update)
    show "worder_ok c v" if "map_of (ld_orders l') c = Some v" for c v
      using that ok ok' l'(1) by (auto simp: update_Some_unfold ledger_ok_def)
    show "total_of reserve_of l - reserve_of w + reserve_of w' \<le> ld_cash l'"
      using ok cash by (simp add: ledger_ok_def)
    show "total_of (sell_of key) l - sell_of key w + sell_of key w' \<le> held l' key" for key
      using ok sells[of key] unfolding ledger_ok_def by (smt (verit))
    show "0 \<le> h_quantity h" "0 \<le> h_basis h" if "map_of (ld_holdings l') key = Some h" for key h
      using hold[OF that] by simp_all
  qed
qed

lemma status_worder:
  assumes ok: "worder_ok cid w" "order_open w" and s: "status \<notin> {UnknownStatus, PendingSubmit}"
    and w': "with_status w status now reason = Inr w'"
  shows "worder_ok cid w'" "reserve_of w' \<le> reserve_of w" "sell_of key w' \<le> sell_of key w"
proof -
  let ?w = "w\<lparr>wo_order := (wo_order w)\<lparr>o_status := status, o_last_updated_at := now, o_reject_reason := reason,
    o_reconciled_at := Some now\<rparr>\<rparr>"
  have e: "w' = ?w" using w' by (rule with_statusE)
  have same: "filled_units ?w = filled_units w" "cash_ceiling ?w = cash_ceiling w" "approved_units ?w = approved_units w"
      "order_key ?w = order_key w"
    by (simp_all add: filled_units_def cash_ceiling_def approved_units_def order_key_def)
  show "worder_ok cid w'" using ok s unfolding e worder_ok_def Let_def same by auto
  show "reserve_of w' \<le> reserve_of w"
    using ok unfolding e reserve_of_def same by (simp add: worder_ok_def Let_def)
  show "sell_of key w' \<le> sell_of key w"
    using ok unfolding e sell_of_def same by (auto simp: worder_ok_def Let_def)
qed

lemma ledger_ok_status:
  assumes ok: "ledger_ok l" and w: "map_of (ld_orders l) cid = Some w" "order_open w"
    and s: "status \<notin> {UnknownStatus, PendingSubmit}" and w': "with_status w status now reason = Inr w'"
  shows "ledger_ok (put_order l cid w')"
proof -
  have wok: "worder_ok cid w" using ok w by (simp add: ledger_ok_def)
  note st = status_worder[OF wok w(2) s w']
  show ?thesis
  proof (rule ledger_ok_change[OF ok w(1) st(1)])
    show "held l key - (sell_of key w - sell_of key w') \<le> held (put_order l cid w') key" for key
      using st(3)[of key] by (simp add: held_def)
    show "0 \<le> h_quantity h \<and> 0 \<le> h_basis h" if "map_of (ld_holdings (put_order l cid w')) key = Some h" for key h
      using ok that by (simp add: ledger_ok_def)
  qed (use st(2) in simp_all)
qed

section \<open>Across a fill\<close>

lemma tradeE:
  assumes t: "trade side h cash quantity gross fee = Inr (h', cash', realized)"
    and pre: "0 \<le> h_quantity h" "0 \<le> h_basis h" "0 < quantity" "0 \<le> gross"
  shows "0 \<le> h_quantity h'" "0 \<le> h_basis h'"
    "h_quantity h' = h_quantity h + (if side = Buy then quantity else - quantity)"
    "cash - fill_debit side gross fee \<le> cash'"
proof -
  have part: "h_basis h * quantity div h_quantity h \<le> h_basis h" if "quantity \<le> h_quantity h" "0 < h_quantity h"
  proof -
    have "h_basis h * quantity \<le> h_basis h * h_quantity h" using that pre by (intro mult_left_mono)
    from zdiv_mono1[OF this that(2)] show ?thesis using that by simp
  qed
  show "0 \<le> h_quantity h'" "0 \<le> h_basis h'"
    "h_quantity h' = h_quantity h + (if side = Buy then quantity else - quantity)"
    "cash - fill_debit side gross fee \<le> cash'"
    using t pre part by (auto simp: trade_def Let_def fill_debit_def split: if_split_asm)
qed

lemma trade_books:
  "trade side h cash quantity gross fee = Inr (h', cash', realized) \<Longrightarrow>
   cash' + h_basis h' - realized = cash + h_basis h \<and> h_realized h' = h_realized h"
  by (auto simp: trade_def Let_def split: if_split_asm)

lemma trade_total:
  assumes "0 < quantity" "side = Buy \<Longrightarrow> gross + fee \<le> cash" "side = Sell \<Longrightarrow> quantity \<le> h_quantity h \<and> fee \<le> cash"
  shows "\<exists>r. trade side h cash quantity gross fee = Inr r"
  using assms by (cases side) (auto simp: trade_def Let_def)

lemma product_nonneg: "product q p = Some g \<Longrightarrow> 0 \<le> q \<Longrightarrow> 0 \<le> p \<Longrightarrow> 0 \<le> g"
proof -
  assume a: "product q p = Some g" "0 \<le> q" "0 \<le> p"
  then have "0 \<le> g * SCALE" using product_Some[of q p g] by (metis mult_nonneg_nonneg)
  then show "0 \<le> g" using SCALE_pos(1) by (auto simp: zero_le_mult_iff)
qed

lemma fill_worder:
  assumes ok: "worder_ok cid w" "order_open w"
    and r: "record_fill H l w book index settings quantity price gross fee now = Inr w'"
    and le: "quantity \<le> wo_target w - filled_units w" "gross \<le> approved_units w - wo_gross w"
      "fill_debit (o_side (wo_order w)) gross fee \<le> cash_ceiling w - wo_debit w" "0 \<le> gross"
  shows "worder_ok cid w'" "filled_units w' = filled_units w + quantity"
    "reserve_of w - reserve_of w' = fill_debit (o_side (wo_order w)) gross fee"
    "sell_of key w - sell_of key w' = (if o_side (wo_order w) = Sell \<and> order_key w = key then quantity else 0)"
    "wo_gross w' = wo_gross w + gross" "order_open w'"
proof -
  note pos = record_fill_positive[OF r]
  obtain fill_price f so_far fees avg_price where
    u: "units (q_value (o_filled_quantity (wo_order w))) = Some so_far"
    "units (m_amount (o_fees_paid (wo_order w))) = Some fees" and
    e: "w' = w\<lparr>wo_order := (wo_order w)\<lparr>o_fills := o_fills (wo_order w) @ [f],
              o_filled_quantity := quantity_for settings (so_far + quantity),
              o_fees_paid := usd_money (fees + fee), o_average_fill_price := Some avg_price,
              o_status := PartiallyFilled, o_last_updated_at := now\<rparr>,
            wo_gross := wo_gross w + gross, wo_debit := wo_debit w + fill_debit (o_side (wo_order w)) gross fee\<rparr>"
    by (rule record_fillE[OF r])
  have so_far: "so_far = filled_units w" using u by (simp add: filled_units_def)
  have range: "0 \<le> filled_units w" "wo_target w \<le> MAX_UNITS"
    using ok units0_abs[of "q_value (rd_max_quantity (pp_record (wo_permit w)))"]
    by (auto simp: worder_ok_def Let_def)
  then have fit: "units (decimal_of (filled_units w + quantity)) = Some (filled_units w + quantity)"
    using le(1) pos by (simp add: units_decimal_of)
  then show filled: "filled_units w' = filled_units w + quantity"
    by (simp add: e so_far filled_units_def[of "_\<lparr>wo_order := _\<rparr>"] filled_units_def[of "_\<lparr>wo_debit := _\<rparr>"] quantity_for_def)
  show open': "order_open w'" by (simp add: e order_open_def)
  show "wo_gross w' = wo_gross w + gross" by (simp add: e)
  have same: "cash_ceiling w' = cash_ceiling w" "approved_units w' = approved_units w" "order_key w' = order_key w"
    "o_side (wo_order w') = o_side (wo_order w)" "wo_target w' = wo_target w"
    "wo_debit w' = wo_debit w + fill_debit (o_side (wo_order w)) gross fee"
    by (simp_all add: e cash_ceiling_def approved_units_def order_key_def)
  show "reserve_of w - reserve_of w' = fill_debit (o_side (wo_order w)) gross fee"
    using ok(2) open' by (simp add: reserve_of_def same)
  show "sell_of key w - sell_of key w' = (if o_side (wo_order w) = Sell \<and> order_key w = key then quantity else 0)"
    using ok(2) open' by (simp add: sell_of_def same filled)
  have fees: "fees = wo_debit w - fill_debit (o_side (wo_order w)) (wo_gross w) 0"
    using ok(1) u(2) by (auto simp: worder_ok_def Let_def usd_money_def units_decimal_of split: if_split_asm)
  have fees': "o_fees_paid (wo_order w') = usd_money (wo_debit w' - fill_debit (o_side (wo_order w)) (wo_gross w + gross) 0)"
    by (simp add: e fees fill_debit_def algebra_simps)
  have fill': "units (q_value (o_filled_quantity (wo_order w'))) = Some (filled_units w + quantity)"
    using fit by (simp add: e so_far quantity_for_def)
  have rest: "o_client_order_id (wo_order w') = o_client_order_id (wo_order w)" "wo_permit w' = wo_permit w"
    "o_instrument_id (wo_order w') = o_instrument_id (wo_order w)" "o_status (wo_order w') = PartiallyFilled"
    "wo_gross w' = wo_gross w + gross"
    by (simp_all add: e)
  have debit: "0 \<le> fill_debit (o_side (wo_order w)) gross fee" using le(4) pos(2) by (simp add: fill_debit_def)
  show "worder_ok cid w'"
    unfolding worder_ok_def Let_def filled same rest fees' fill'
    using ok debit le pos by (auto simp: worder_ok_def Let_def)
qed

text \<open>The trade of a fill: what the new ledger holds, and that it cannot run into either invariant error.\<close>

lemma settle_facts:
  assumes s: "settle l book side quantity gross fee now = Inr l'" and ok: "ledger_ok l"
    and pos: "0 < quantity" "0 \<le> gross"
  shows "ld_orders l' = ld_orders l" "ld_config l' = ld_config l"
    "ld_cash l - fill_debit side gross fee \<le> ld_cash l'"
    "held l' key = held l key + (if key = i_value (bk_instrument_id book) then if side = Buy then quantity else - quantity else 0)"
    "map_of (ld_holdings l') key = Some h \<Longrightarrow> 0 \<le> h_quantity h \<and> 0 \<le> h_basis h"
proof -
  let ?key = "i_value (bk_instrument_id book)"
  obtain h0 h' cash realized best where
    h0: "h0 = (case map_of (ld_holdings l) ?key of Some h \<Rightarrow> h
      | None \<Rightarrow> \<lparr>h_quantity = 0, h_basis = 0, h_mark = best, h_realized = 0, h_opened_at = Some now\<rparr>)"
    and t: "trade side h0 (ld_cash l) quantity gross fee = Inr (h', cash, realized)"
    and l': "l' = l\<lparr>ld_cash := cash,
       ld_holdings := AList.update ?key (h'\<lparr>h_realized := h_realized h' + realized\<rparr>) (ld_holdings l),
       ld_mark_times := AList.update ?key (bk_event_time book) (ld_mark_times l),
       ld_realized := add_at (date_of now) realized (ld_realized l), ld_fees := ld_fees l + fee\<rparr>"
    by (rule settleE[OF s])
  have pre: "0 \<le> h_quantity h0" "0 \<le> h_basis h0" "h_quantity h0 = held l ?key"
    using ok by (auto simp: h0 held_def ledger_ok_def split: option.split)
  note t' = tradeE[OF t pre(1,2) pos]
  show "ld_orders l' = ld_orders l" "ld_config l' = ld_config l" by (simp_all add: l')
  show "ld_cash l - fill_debit side gross fee \<le> ld_cash l'" using t'(4) by (simp add: l')
  show "held l' key = held l key + (if key = ?key then if side = Buy then quantity else - quantity else 0)"
    using t'(3) pre(3) by (auto simp: l' held_def update_conv)
  show "0 \<le> h_quantity h \<and> 0 \<le> h_basis h" if "map_of (ld_holdings l') key = Some h"
    using that t'(1,2) ok by (auto simp: l' update_Some_unfold ledger_ok_def)
qed

lemma ledger_ok_fill:
  assumes ok: "ledger_ok l" and f: "fill_step H l cid book now quantity l'"
  shows "ledger_ok l'"
  using f
proof cases
  case (step w settings price fee gross filled approved max_debit l1 index w')
  have wok: "worder_ok cid w" using ok step(2) by (simp add: ledger_ok_def)
  have caps: "filled = filled_units w" "approved = approved_units w" "max_debit = cash_ceiling w"
    using step by (simp_all add: filled_units_def approved_units_def cash_ceiling_def)
  have gross: "0 \<le> gross" using step(6,7,9) product_nonneg by fastforce
  note w' = fill_worder[OF wok step(3) step(17) step(13-15)[unfolded caps] gross]
  note s = settle_facts[OF step(16) ok step(6) gross]
  have key: "i_value (bk_instrument_id book) = order_key w" using step(4) by (simp add: order_key_def)
  show ?thesis
    unfolding step(1)
  proof (rule ledger_ok_change[OF ok step(2) w'(1)])
    show "ld_orders (put_order l1 cid w') = AList.update cid w' (ld_orders l)"
      "ld_config (put_order l1 cid w') = ld_config l"
      using s by simp_all
    show "ld_cash l - (reserve_of w - reserve_of w') \<le> ld_cash (put_order l1 cid w')"
      using s(3) by (simp add: w'(3))
    show "held l k - (sell_of k w - sell_of k w') \<le> held (put_order l1 cid w') k" for k
      using s(4)[of k] step(6) unfolding w'(4) key
      by (cases "o_side (wo_order w)") (auto simp: held_def split: if_splits)
    show "0 \<le> h_quantity h \<and> 0 \<le> h_basis h" if "map_of (ld_holdings (put_order l1 cid w')) k = Some h" for k h
      using s(5)[of k h] that by simp
  qed
qed

section \<open>Across a stored book\<close>

lemma ledger_ok_frame:
  assumes "ld_orders l' = ld_orders l" "ld_config l' = ld_config l" "ld_cash l' = ld_cash l"
    "\<And>key. held l' key = held l key"
    "\<And>key h. map_of (ld_holdings l') key = Some h \<Longrightarrow> \<exists>h0. map_of (ld_holdings l) key = Some h0 \<and>
       h_quantity h0 = h_quantity h \<and> h_basis h0 = h_basis h"
  shows "ledger_ok l \<Longrightarrow> ledger_ok l'"
  using assms unfolding ledger_ok_def total_cong[OF assms(1)] by (metis (no_types))

lemma ledger_ok_store:
  assumes ok: "ledger_ok l" and s: "store_book l book healthy = Inr l'"
  shows "ledger_ok l'"
  using s
proof (cases rule: store_bookE)
  case unmarked
  then show ?thesis using ok by (auto intro: ledger_ok_frame[OF _ _ _ _ _ ok] simp: held_def)
next
  case (marked h mark)
  show ?thesis
  proof (rule ledger_ok_frame[OF _ _ _ _ _ ok])
    show "held l' key = held l key" for key
      using marked(2) by (auto simp: marked(3) held_def update_conv)
    show "\<exists>h0. map_of (ld_holdings l) key = Some h0 \<and> h_quantity h0 = h_quantity h' \<and> h_basis h0 = h_basis h'"
      if "map_of (ld_holdings l') key = Some h'" for key h'
      using that marked(2) by (auto simp: marked(3) update_Some_unfold)
  qed (simp_all add: marked(3))
qed

interpretation keeps_ok: ledger_steps H "\<lambda>l l'. ledger_ok l \<longrightarrow> ledger_ok l'" for H
proof
  show "ledger_ok l \<longrightarrow> ledger_ok (put_order l cid w')"
    if "map_of (ld_orders l) cid = Some w" "order_open w" "status \<noteq> UnknownStatus" "status \<noteq> PendingSubmit"
      "with_status w status now reason = Inr w'" for l cid w status now reason w'
    using that ledger_ok_status by blast
  show "ledger_ok l \<longrightarrow> ledger_ok (l\<lparr>ld_sealed := True\<rparr>)" for l
    by (auto intro: ledger_ok_frame[of _ l] simp: held_def)
qed (blast intro: ledger_ok_fill ledger_ok_store)+

section \<open>Submission\<close>

lemma new_order_simps [simp]:
  "o_client_order_id (new_order H l a settings now) = ao_client_order_id a" "o_side (new_order H l a settings now) = ao_side a"
  "o_instrument_id (new_order H l a settings now) = ao_instrument_id a" "o_status (new_order H l a settings now) = Submitted"
  "o_filled_quantity (new_order H l a settings now) = quantity_for settings 0"
  "o_fees_paid (new_order H l a settings now) = usd_money 0" "o_fills (new_order H l a settings now) = []"
  by (simp_all add: new_order_def)

lemma instrument_for_valid:
  assumes "paper_config_error (ld_config l) = None" "instrument_for l key = Inr settings"
  shows "paper_instrument_error settings = None" "i_value (pi_instrument_id settings) = key"
proof -
  have "map_of (instruments_of (ld_config l)) key = Some settings" using assms(2) by (simp add: instrument_for_def)
  then have m: "(key, settings) \<in> set (instruments_of (ld_config l))" by (rule map_of_SomeD)
  then show "i_value (pi_instrument_id settings) = key" by (auto simp: instruments_of_def)
  show "paper_instrument_error settings = None"
    using assms(1) m by (auto simp: paper_config_error_def instruments_of_def list_ex_iff split: if_split_asm)
qed

lemma instrument_step_pos:
  assumes "paper_instrument_error settings = None" "units (pi_quantity_step settings) = Some lot"
  shows "0 < lot"
  using assms units_sign(1)[OF assms(2)] by (auto simp: paper_instrument_error_def dec_linear split: if_split_asm)

lemma floor_multiple_le: "0 < lot \<Longrightarrow> m div lot * lot \<le> (m::int)"
  using pos_mod_sign[of lot m] div_mult_mod_eq[of m lot] by linarith

lemma reserved_sells_cover:
  assumes ok: "ledger_ok l" and i: "instrument_error i = None"
  shows "total_of (sell_of (i_value i)) l \<le> reserved_sells l i"
proof -
  have step: "(\<forall>(cid, w) \<in> set os. \<exists>c. worder_ok c w) \<Longrightarrow>
    sum_list (map (\<lambda>(cid, w). sell_of (i_value i) w) os) \<le>
    sum_list (map (\<lambda>(cid, w). wo_target w)
     (filter (\<lambda>(cid, w). order_open w \<and> o_side (wo_order w) = Sell \<and> o_instrument_id (wo_order w) = i) os))" for os
  proof (induction os)
    case (Cons x os)
    obtain cid w where x: "x = (cid, w)" by (cases x)
    obtain c where c: "worder_ok c w" using Cons.prems x by auto
    then have "order_key w = i_value i \<longleftrightarrow> o_instrument_id (wo_order w) = i"
      using i_value_inject[OF _ i] by (auto simp: order_key_def worder_ok_def Let_def)
    then have "sell_of (i_value i) w \<le>
        (if order_open w \<and> o_side (wo_order w) = Sell \<and> o_instrument_id (wo_order w) = i then wo_target w else 0)"
      using c by (auto simp: sell_of_def worder_ok_def Let_def)
    then show ?case using Cons x by (auto split: if_split_asm)
  qed simp
  have "\<forall>(cid, w) \<in> set (ld_orders l). \<exists>c. worder_ok c w"
    using ok by (fastforce simp: ledger_ok_def map_of_eq_Some_iff)
  from step[OF this] show ?thesis by (simp add: total_of_def reserved_sells_def)
qed

definition permit_sound :: "paper_risk_permit \<Rightarrow> bool" where
  "permit_sound p \<longleftrightarrow> approved_intent_error (pp_approval p) = None \<and> instrument_error (ao_instrument_id (pp_approval p)) = None"

lemma permit_error_sound: "permit_error p = None \<Longrightarrow> permit_sound p"
  by (auto simp: permit_error_def permit_sound_def split: if_split_asm)

lemma approved_units_nonneg: "permit_sound permit \<Longrightarrow> 0 \<le> units0 (m_amount (ao_approved_notional (pp_approval permit)))"
  using units_is_negative
  by (auto simp: permit_sound_def approved_intent_error_def units0_def split: if_split_asm option.split)

lemma ledger_ok_add:
  assumes ok: "ledger_ok l" and new: "map_of (ld_orders l) cid = None" and w: "worder_ok cid w"
    and cash: "total_of reserve_of l + reserve_of w \<le> ld_cash l"
    and sells: "\<And>key. total_of (sell_of key) l + sell_of key w \<le> held l key"
  shows "ledger_ok (put_order l cid w)"
  unfolding ledger_ok_def total_put_new[OF new]
proof (intro conjI allI impI)
  show "worder_ok c v" if "map_of (ld_orders (put_order l cid w)) c = Some v" for c v
    using that ok w by (auto simp: update_Some_unfold ledger_ok_def)
  show "total_of (sell_of key) l + sell_of key w \<le> held (put_order l cid w) key" for key
    using sells[of key] by (simp add: held_def)
qed (use ok cash in \<open>auto simp: ledger_ok_def distinct_update\<close>)

lemma ledger_ok_submit:
  assumes ok: "ledger_ok l" and s: "submit H l permit now = Inr l'" and p: "permit_sound permit"
  shows "ledger_ok l'"
proof -
  let ?a = "pp_approval permit" and ?cid = "ao_client_order_id (pp_approval permit)"
  obtain settings lot max_quantity debit reserved where s1:
    "\<not> issuance_invalid H l permit now" "instrument_for l (i_value (ao_instrument_id ?a)) = Inr settings"
    "units (pi_quantity_step settings) = Some lot" "units (q_value (rd_max_quantity (pp_record permit))) = Some max_quantity"
    "units (m_amount (rd_max_cash_debit (pp_record permit))) = Some debit" "reserved_cash l = Inr reserved"
    "0 \<le> debit" "debit \<le> ld_cash l - reserved" "\<not> sell_uncovered l ?a (max_quantity div lot * lot)"
    "place_order H l permit settings (max_quantity div lot * lot) now = Inr l'"
    by (rule submitE[OF s])
  define target where "target = max_quantity div lot * lot"
  obtain w w' small where w: "w = \<lparr>wo_permit = permit, wo_order = new_order H l ?a settings now, wo_target = target,
      wo_gross = 0, wo_debit = 0\<rparr>" and
    small: "below_minimum settings ?a target = Inr small"
      "if small then with_status w Rejected now (Some ''below_simulator_minimum'') = Inr w' else w' = w"
    and l': "l' = put_order l ?cid w'"
    using place_orderE[OF s1(10)[folded target_def]] by metis
  have conf: "paper_config_error (ld_config l) = None" using ok by (simp add: ledger_ok_def)
  have lot: "0 < lot" using instrument_step_pos instrument_for_valid(1)[OF conf s1(2)] s1(3) by blast
  have inst: "instrument_error (ao_instrument_id ?a) = None"
    using p by (simp add: permit_sound_def)
  have target: "target \<le> max 0 max_quantity" "\<not> small \<Longrightarrow> 0 < target"
    using floor_multiple_le[OF lot, of max_quantity] small(1)
    by (auto simp: target_def below_minimum_def split: if_split_asm)
  have filled: "filled_units w = 0" "cash_ceiling w = debit" "units (decimal_of 0) = Some 0"
    by (simp_all add: w filled_units_def cash_ceiling_def quantity_for_def units_decimal_of s1)
  have new: "map_of (ld_orders l) ?cid = None"
    using s1(1) by (auto simp: issuance_invalid_def Let_def)
  have reserved: "reserved = total_of reserve_of l" using reserved_cash_total[OF ok] s1(6) by simp
  have base: "worder_ok ?cid v" if "v = w \<and> (order_open w \<longrightarrow> 0 \<le> target) \<or> with_status w Rejected now (Some ''below_simulator_minimum'') = Inr v" for v
    using that filled inst target(1) s1(4,5,7) approved_units_nonneg[OF p]
    by (auto elim!: with_statusE simp: worder_ok_def Let_def w quantity_for_def approved_units_def fill_debit_def
        filled_units_def cash_ceiling_def order_open_def units_decimal_of)
  have w': "worder_ok ?cid w'" "small \<Longrightarrow> \<not> order_open w'" "\<not> small \<Longrightarrow> w' = w"
    using small(2) target(2) base[of w'] by (auto elim!: with_statusE simp: order_open_def split: if_split_asm)
  show ?thesis unfolding l'
  proof (rule ledger_ok_add[OF ok new w'(1)])
    have "reserve_of w' \<le> debit" using w' s1(7) filled by (cases small) (auto simp: reserve_of_def w)
    then show "total_of reserve_of l + reserve_of w' \<le> ld_cash l" using s1(8) reserved by simp
    fix key
    show "total_of (sell_of key) l + sell_of key w' \<le> held l key"
    proof (cases "sell_of key w' = 0")
      case True
      then show ?thesis using ok by (simp add: ledger_ok_def)
    next
      case False
      then have here: "order_open w'" "o_side (wo_order w') = Sell" "order_key w' = key"
        by (auto simp: sell_of_def split: if_split_asm)
      then have w'w: "w' = w" using w'(2,3) by blast
      have sell: "w' = w" "ao_side ?a = Sell" "key = i_value (ao_instrument_id ?a)"
        using here unfolding w'w by (simp_all add: w order_key_def)
      then have "sell_of key w' \<le> target" using filled w'(1) by (auto simp: sell_of_def w worder_ok_def Let_def order_open_def)
      moreover have "target + reserved_sells l (ao_instrument_id ?a) \<le> held l key"
        using s1(9) sell by (auto simp: sell_uncovered_def held_def target_def split: option.splits)
      ultimately show ?thesis using reserved_sells_cover[OF ok inst] sell(3) by simp
    qed
  qed
qed

lemma ledger_ok_apply_sound:
  assumes ok: "ledger_ok l" and a: "apply_command H l c = Inr l'"
    and p: "\<And>permit. cm_permit c = Some permit \<Longrightarrow> permit_sound permit"
  shows "ledger_ok l'"
proof -
  have "ledger_ok l \<longrightarrow> ledger_ok l'"
  proof (rule keeps_ok.apply_R[OF a])
    show "ledger_ok l \<longrightarrow> ledger_ok l1" if "cm_permit c = Some permit" "submit H l permit (cm_at c) = Inr l1" for permit l1
      using ledger_ok_submit[OF _ that(2) p[OF that(1)]] by blast
    show "ledger_ok l1 \<longrightarrow> ledger_ok (l1\<lparr>ld_as_of := cm_at c, ld_peak := peak\<rparr>)" for l1 peak
      by (auto intro: ledger_ok_frame[of _ l1] simp: held_def)
  qed
  then show ?thesis using ok by blast
qed

lemma command_valid_sound: "command_valid c \<Longrightarrow> cm_permit c = Some permit \<Longrightarrow> permit_sound permit"
  by (simp add: command_valid_def permit_error_sound)

lemma ledger_ok_apply:
  assumes "ledger_ok l" "command_valid c" "apply_command H l c = Inr l'"
  shows "ledger_ok l'"
  using ledger_ok_apply_sound[OF assms(1,3)] command_valid_sound[OF assms(2)] by blast

interpretation ledger_runs: invariant_step "apply_command H" ledger_ok command_valid for H
  by unfold_locales (rule ledger_ok_apply)

section \<open>Construction and generations\<close>

lemma positions_loop_nonneg:
  "positions_loop networks ps a = Some b \<Longrightarrow> p \<in> set ps \<Longrightarrow> \<not> is_negative (q_value (pos_quantity p))"
  by (induction ps arbitrary: a) (auto simp: position_step_def Let_def split: option.splits if_split_asm)

definition holdings_nonneg :: "(string \<times> holding) list \<Rightarrow> bool" where
  "holdings_nonneg hs \<longleftrightarrow> (\<forall>key h. map_of hs key = Some h \<longrightarrow> 0 \<le> h_quantity h \<and> 0 \<le> h_basis h)"

lemma initial_holding_nonneg:
  assumes h: "initial_holding config p = Inr (key, h, pnl)"
    and p: "position_error p = None" "\<not> is_negative (q_value (pos_quantity p))"
  shows "0 \<le> h_quantity h \<and> 0 \<le> h_basis h"
proof -
  obtain entry mark q e where m: "pos_average_entry_price p = Some entry" "pos_mark_price p = Some mark"
      "units (q_value (pos_quantity p)) = Some q" "units (p_value entry) = Some e" "product q e = Some (h_basis h)" "h_quantity h = q"
    using h by (auto simp: initial_holding_def Let_def elim!: bindE_InrE split: option.splits if_split_asm)
  have "dec_zero < p_value entry"
    using p(1) m(1,2) by (auto simp: position_error_def option_list_def price_error_def dec_linear split: if_split_asm)
  then have "0 \<le> e" "0 \<le> q"
    using m p(2) units_sign(1)[OF m(4)] units_is_negative[OF m(3)] by auto
  then show ?thesis using m product_nonneg by blast
qed

lemma initial_holdings_nonneg:
  "initial_holdings config ps hs s = Inr (hs', s') \<Longrightarrow> holdings_nonneg hs \<Longrightarrow>
   \<forall>p \<in> set ps. position_error p = None \<and> \<not> is_negative (q_value (pos_quantity p)) \<Longrightarrow> holdings_nonneg hs'"
proof (induction ps arbitrary: hs s)
  case (Cons p ps)
  obtain key h pnl where h: "initial_holding config p = Inr (key, h, pnl)"
      "initial_holdings config ps (AList.update key h hs) (s + pnl) = Inr (hs', s')"
    using Cons.prems(1) by (auto elim!: bindE_InrE)
  have "holdings_nonneg (AList.update key h hs)"
    using initial_holding_nonneg[OF h(1)] Cons.prems(2,3) by (auto simp: holdings_nonneg_def update_Some_unfold)
  then show ?case using Cons.IH[OF h(2)] Cons.prems(3) by simp
qed simp

lemma ledger_initE:
  assumes "ledger_init account_id initial config = Inr l"
  obtains a cash hs total where
    "account_state initial (map (\<lambda>(key, p). (key, pi_network p)) (instruments_of config)) [] = Some a"
    "units (m_amount (pf_cash initial)) = Some cash" "initial_holdings config (pf_positions initial) [] 0 = Inr (hs, total)"
    "ld_orders l = []" "ld_cash l = cash" "ld_holdings l = hs" "ld_config l = config" "ld_sealed l = False"
    "ld_initial l = initial" "ld_account_id l = account_id" "ld_as_of l = pf_as_of initial" "ld_books l = []" "ld_healthy l = []"
  using assms by (auto simp: ledger_init_def Let_def elim!: bindE_InrE split: if_split_asm option.splits)

lemma ledger_ok_init:
  assumes i: "ledger_init account_id initial config = Inr l"
    and valid: "portfolio_error initial = None" "paper_config_error config = None"
  shows "ledger_ok l"
proof -
  obtain a cash hs total where l:
    "account_state initial (map (\<lambda>(key, p). (key, pi_network p)) (instruments_of config)) [] = Some a"
    "units (m_amount (pf_cash initial)) = Some cash" "initial_holdings config (pf_positions initial) [] 0 = Inr (hs, total)"
    "ld_orders l = []" "ld_cash l = cash" "ld_holdings l = hs" "ld_config l = config"
    by (rule ledger_initE[OF i])
  have cash: "0 \<le> cash" using l(1,2) by (auto simp: account_state_def Let_def split: Option.bind_splits if_split_asm)
  have "\<forall>p \<in> set (pf_positions initial). \<not> is_negative (q_value (pos_quantity p))"
    using l(1) positions_loop_nonneg by (fastforce simp: account_state_def split: Option.bind_splits)
  moreover have "\<forall>p \<in> set (pf_positions initial). position_error p = None"
    using valid(1) by (auto simp: portfolio_error_def list_ex_iff split: if_split_asm)
  ultimately have "holdings_nonneg hs"
    using initial_holdings_nonneg[OF l(3)] by (auto simp: holdings_nonneg_def)
  then show ?thesis
    using cash valid(2) by (auto simp: ledger_ok_def holdings_nonneg_def total_of_def held_def l(4-7) split: option.split)
qed

lemma begin_generationE:
  assumes "begin_generation l now = Inr l'"
  obtains state where "ld_as_of l \<le> now" "\<forall>(cid, w) \<in> set (ld_orders l). \<not> order_open w"
    "snapshot (l\<lparr>ld_as_of := now\<rparr>) = Inr state" "pf_is_reconciled (ps_portfolio state)"
    "l' = l\<lparr>ld_as_of := now, ld_initial := ps_portfolio state, ld_orders := [], ld_sealed := False\<rparr>"
  using assms by (fastforce simp: begin_generation_def Let_def list_ex_iff elim!: bindE_InrE split: if_split_asm)

lemma ledger_ok_generation:
  assumes ok: "ledger_ok l" and g: "begin_generation l now = Inr l'"
  shows "ledger_ok l'"
proof -
  have l': "ld_orders l' = []" "ld_cash l' = ld_cash l" "ld_holdings l' = ld_holdings l" "ld_config l' = ld_config l"
    using g by (auto elim!: begin_generationE)
  have h: "\<forall>key h. map_of (ld_holdings l) key = Some h \<longrightarrow> 0 \<le> h_quantity h \<and> 0 \<le> h_basis h"
    using ok by (simp add: ledger_ok_def)
  then show ?thesis
    using ok ledger_ok_cash(2)[OF ok] by (auto simp: ledger_ok_def total_of_def held_def l' split: option.split)
qed

end
