(* ===== verification/PaperSafety.thy ===== *)
theory PaperSafety
  imports PaperInvariant
begin

text \<open>
  Facts of whole commands over the invariant: the two invariant errors cannot be raised, orders that
  are closed never change, the books balance, and every order a market event touches ends closed.
\<close>

section \<open>The invariant errors are unreachable\<close>

definition no_breach :: "paper_error + 'a \<Rightarrow> bool" where
  "no_breach r \<longleftrightarrow> r \<noteq> Inl CashInvariant \<and> r \<noteq> Inl PositionInvariant"

named_theorems no_breach_intros

lemma no_breach_bind [no_breach_intros]:
  "no_breach m \<Longrightarrow> (\<And>x. m = Inr x \<Longrightarrow> no_breach (f x)) \<Longrightarrow> no_breach (bindE m f)"
  by (cases m) (auto simp: no_breach_def)

lemma no_breach_simps [simp]:
  "no_breach (Inr x)" "no_breach (Inl e) \<longleftrightarrow> e \<notin> {CashInvariant, PositionInvariant}"
  by (auto simp: no_breach_def)

lemma no_breach_of_option [no_breach_intros]:
  "e \<notin> {CashInvariant, PositionInvariant} \<Longrightarrow> no_breach (of_option e m)"
  by (cases m) (auto simp: no_breach_def)

lemma no_breach_validated [no_breach_intros]: "no_breach (validated e x)"
  by (auto simp: validated_def no_breach_def split: option.split)

lemma no_breach_average [no_breach_intros]: "no_breach (average g q)"
  by (simp add: average_def Let_def)

lemma no_breach_price_of [no_breach_intros]: "no_breach (price_of settings v)"
  by (auto simp: price_of_def Let_def intro: no_breach_intros)

lemma no_breach_with_status [no_breach_intros]: "no_breach (with_status w s now r)"
  by (auto simp: with_status_def Let_def intro!: no_breach_intros)

lemma no_breach_set_status [no_breach_intros]: "no_breach (set_status l cid s now r)"
  by (auto simp: set_status_def intro!: no_breach_intros split: option.split)

lemma no_breach_instrument_for [no_breach_intros]: "no_breach (instrument_for l key)"
  by (auto simp: instrument_for_def intro!: no_breach_intros)

lemma no_breach_record_fill [no_breach_intros]:
  "no_breach (record_fill H l w book index settings quantity price gross fee now)"
  by (auto simp: record_fill_def Let_def intro!: no_breach_intros)

lemma no_breach_bisect: "(\<And>k. no_breach (test k)) \<Longrightarrow> no_breach (bisect test low high)"
proof (induction test low high rule: bisect.induct)
  case (1 test low high)
  show ?case
  proof (cases "low < high")
    case True
    then show ?thesis
      using 1 by (subst bisect.simps) (auto simp: Let_def intro!: no_breach_bind split: if_split)
  qed (simp add: bisect_done)
qed

lemma no_breach_fill_lots [no_breach_intros]: "no_breach (fill_lots w lot price fee_bps available)"
  by (auto simp: fill_lots_def fill_allowed_def intro!: no_breach_intros no_breach_bisect)

lemma no_breach_settle:
  assumes ok: "ledger_ok l" and w: "map_of (ld_orders l) cid = Some w" "order_open w"
      "o_instrument_id (wo_order w) = bk_instrument_id book"
    and lots: "fill_lots w lot price fee_bps available = Inr lots" "0 < lots * lot" "product (lots * lot) price = Some gross"
  shows "no_breach (settle l book (o_side (wo_order w)) (lots * lot) gross (fill_fee gross fee_bps) now)"
proof -
  let ?q = "lots * lot" and ?fee = "fill_fee gross fee_bps" and ?side = "o_side (wo_order w)"
  let ?key = "i_value (bk_instrument_id book)"
  obtain filled max_debit gross' where f: "units (q_value (o_filled_quantity (wo_order w))) = Some filled"
      "units (m_amount (rd_max_cash_debit (pp_record (wo_permit w)))) = Some max_debit"
      "?q \<le> wo_target w - filled" "product ?q price = Some gross'"
      "fill_debit ?side gross' (fill_fee gross' fee_bps) \<le> max_debit - wo_debit w"
    by (rule fill_lots_le[OF lots(1,2)])
  have wok: "distinct (map fst (ld_orders l))" "\<And>c v. map_of (ld_orders l) c = Some v \<Longrightarrow> worder_ok c v"
    using ok by (auto simp: ledger_ok_def)
  have "fill_debit ?side gross ?fee \<le> reserve_of w"
    using f lots(3) w(2) by (simp add: reserve_of_def cash_ceiling_def)
  also have "\<dots> \<le> total_of reserve_of l"
    using total_ge_member(1)[OF w(1) wok(1)] worder_reserve wok(2) by blast
  also have "\<dots> \<le> ld_cash l" using ok by (simp add: ledger_ok_def)
  finally have cash: "fill_debit ?side gross ?fee \<le> ld_cash l" .
  have quantity: "?q \<le> held l ?key" if "?side = Sell"
  proof -
    have "?q \<le> sell_of ?key w" using f(1,3) w(2,3) that by (simp add: sell_of_def order_key_def filled_units_def)
    also have "\<dots> \<le> total_of (sell_of ?key) l"
      using total_ge_member(1)[OF w(1) wok(1)] worder_sell wok(2) by blast
    also have "\<dots> \<le> held l ?key" using ok by (simp add: ledger_ok_def)
    finally show ?thesis .
  qed
  have "no_breach (trade ?side h (ld_cash l) ?q gross ?fee)"
    if "h_quantity h = held l ?key" for h
    using trade_total[of ?q ?side gross ?fee "ld_cash l" h] lots(2) cash quantity that
    by (cases ?side) (auto simp: fill_debit_def no_breach_def)
  then show ?thesis
    by (auto simp: settle_def Let_def held_def intro!: no_breach_intros split: list.split option.split)
qed

lemma fill_lots_nonneg: "fill_lots w lot price fee_bps available = Inr lots \<Longrightarrow> 0 \<le> lots"
proof -
  have "0 \<le> k" if "bisect test 0 high = Inr k" for test :: "int \<Rightarrow> paper_error + bool" and high k
    using that bisect_result[OF that] bisect_done[of 0 high test] by (cases "0 < high") auto
  then show "fill_lots w lot price fee_bps available = Inr lots \<Longrightarrow> 0 \<le> lots"
    by (auto simp: fill_lots_def elim!: bindE_InrE split: if_split_asm)
qed

lemma no_breach_fill_level:
  assumes ok: "ledger_ok l" and a: "active l cid book"
  shows "no_breach (fill_level H l cid book index raw_price depth now)"
proof -
  obtain w where w: "map_of (ld_orders l) cid = Some w" "order_open w"
      "o_instrument_id (wo_order w) = bk_instrument_id book"
    using a by (auto simp: active_def)
  have conf: "paper_config_error (ld_config l) = None" using ok by (simp add: ledger_ok_def)
  have ex: "no_breach (execute_fill H l cid w book index settings (lots * lot) price fee_bps now)"
    if "fill_lots w lot price fee_bps available = Inr lots" "lots * lot \<noteq> 0"
      "instrument_for l key = Inr settings" "units (pi_quantity_step settings) = Some lot"
    for settings lots lot price fee_bps available key
  proof -
    have "0 < lots * lot"
      using that fill_lots_nonneg[OF that(1)] instrument_step_pos[OF instrument_for_valid(1)[OF conf that(3)] that(4)]
      by (simp add: zero_less_mult_iff)
    then show ?thesis using no_breach_settle[OF ok w that(1)]
      by (auto simp: execute_fill_def Let_def intro!: no_breach_intros)
  qed
  show ?thesis
    using w(1) ex by (auto simp: fill_level_def Let_def intro!: no_breach_intros)
qed

text \<open>Both facts travel together through the loops: what is reached is well formed and active.\<close>

lemma no_breach_fill_levels:
  "ledger_ok l \<Longrightarrow> active l cid book \<Longrightarrow> no_breach (fill_levels H l cid book index levels depth now)"
proof (induction levels arbitrary: l index depth)
  case (Cons level levels l index depth)
  have next_ok: "ledger_ok l1 \<and> active l1 cid book"
    if "fill_level H l cid book index raw_price depth now = Inr (l1, depth1)" for raw_price l1 depth1
    using keeps_ok.level_R[OF that Cons.prems(2)] Cons.prems(1) by blast
  show ?case
    by (auto simp: Let_def intro!: no_breach_intros no_breach_fill_level[OF Cons.prems] Cons.IH split: option.split)
      (use next_ok in \<open>blast+\<close>)
qed simp

lemma no_breach_execute_order:
  assumes "ledger_ok l" "active l cid book"
  shows "no_breach (execute_order H l cid book levels depth now)"
proof -
  have next_ok: "ledger_ok l1 \<and> active l1 cid book" if s: "set_status l cid Accepted now None = Inr l1" for l1
    using keeps_ok.status_R[OF s assms(2)] assms s
    by (auto elim!: set_statusE with_statusE simp: active_def order_open_def update_Some_unfold)
  show ?thesis
    by (auto simp: execute_order_def intro!: no_breach_intros no_breach_fill_levels
        dest: next_ok split: option.split)
qed

lemma no_breach_match_order:
  assumes ok: "ledger_ok l"
  shows "no_breach (match_order H book now healthy blocked (l, depths) cid)"
proof (cases "active l cid book")
  case True
  have sealed: "ledger_ok (l\<lparr>ld_sealed := True\<rparr>)" "active (l\<lparr>ld_sealed := True\<rparr>) cid book"
    using ok True by (auto intro: ledger_ok_frame[of _ l] simp: held_def active_def)
  show ?thesis
    by (auto simp: match_order_def Let_def intro!: no_breach_intros no_breach_execute_order[OF sealed]
        split: option.split prod.split)
next
  case False
  then show ?thesis by (auto simp: match_order_def Let_def active_def split: option.split prod.split)
qed

lemma no_breach_match_orders: "ledger_ok l \<Longrightarrow> no_breach (match_orders H book now healthy blocked cids (l, depths))"
proof (induction cids arbitrary: l depths)
  case (Cons cid cids l depths)
  have "ledger_ok (fst st)" if "match_order H book now healthy blocked (l, depths) cid = Inr st" for st
    using keeps_ok.match_order_R[of H book now healthy blocked l "fst depths" "snd depths" cid "fst st" "snd st"] that Cons.prems
    by simp
  then show ?case
    using no_breach_match_order[OF Cons.prems] Cons.IH
    by (auto intro!: no_breach_bind) (metis fst_conv surj_pair)
qed simp

lemma no_breach_store [no_breach_intros]: "no_breach (store_book l book healthy)"
  by (auto simp: store_book_def Let_def intro!: no_breach_intros split: bool.split option.split list.split)

lemma no_breach_check_levels [no_breach_intros]: "no_breach (check_levels lot tick levels)"
  by (induction levels) (auto intro!: no_breach_intros)

lemma no_breach_quantities_of [no_breach_intros]: "no_breach (quantities_of levels)"
  by (induction levels) (auto intro!: no_breach_intros)

lemma no_breach_reserved [no_breach_intros]: "no_breach (reserved_cash l)"
proof -
  have "no_breach (reserved_sum os)" for os
    by (induction os rule: reserved_sum.induct) (auto intro!: no_breach_intros)
  then show ?thesis by (simp add: reserved_cash_def)
qed

lemma no_breach_snapshot [no_breach_intros]: "no_breach (snapshot l)"
proof -
  have "no_breach (snapshot_positions l hs)" for hs
    by (induction hs rule: snapshot_positions.induct) (auto simp: snapshot_position_def Let_def intro!: no_breach_intros)
  moreover have "no_breach (marks_fresh l hs)" for hs
    by (induction hs rule: marks_fresh.induct) (auto intro!: no_breach_intros)
  ultimately show ?thesis
    by (auto simp: snapshot_def snapshot_portfolio_def Let_def intro!: no_breach_intros)
qed

lemma no_breach_submit [no_breach_intros]: "no_breach (submit H l permit now)"
  by (auto simp: submit_def place_order_def below_minimum_def Let_def intro!: no_breach_intros)

lemma no_breach_market: "ledger_ok l \<Longrightarrow> no_breach (market H l book now blocked)"
  by (auto simp: market_def Let_def intro!: no_breach_intros no_breach_match_orders
      dest: ledger_ok_store split: option.split)

lemma no_breach_apply: "ledger_ok l \<Longrightarrow> no_breach (apply_command H l c)"
  by (auto simp: apply_command_def apply_body_def Let_def intro!: no_breach_intros no_breach_market
      split: option.split command_kind.split)

end
