(* ===== verification/PaperAccounts.thy ===== *)
theory PaperAccounts
  imports PaperSafety
begin

text \<open>
  What whole commands of the ledger conserve: the books (cash plus cost basis less realized profit),
  the match between holdings and fills, between fees and orders, and between fills and displayed
  depth. Closed orders never change, and an order between two commands is untouched or closed.
\<close>

section \<open>Closed orders\<close>

definition closed_kept :: "ledger \<Rightarrow> ledger \<Rightarrow> bool" where
  "closed_kept l l' \<longleftrightarrow> (\<forall>cid w. map_of (ld_orders l) cid = Some w \<longrightarrow> \<not> order_open w \<longrightarrow> map_of (ld_orders l') cid = Some w)"

lemma closed_kept_frame: "ld_orders l' = ld_orders l \<Longrightarrow> closed_kept l l'"
  by (simp add: closed_kept_def)

lemma closed_kept_put: "map_of (ld_orders l) cid = Some w \<Longrightarrow> order_open w \<Longrightarrow> closed_kept l (put_order l cid w')"
  by (auto simp: closed_kept_def update_conv)

lemma settle_orders: "settle l book side q g fee now = Inr l' \<Longrightarrow> ld_orders l' = ld_orders l"
  by (auto elim!: settleE)

lemma store_orders: "store_book l book healthy = Inr l' \<Longrightarrow> ld_orders l' = ld_orders l"
  by (auto elim!: store_bookE)

interpretation keeps_closed: ledger_steps H closed_kept for H
proof
  show "closed_kept l l'" if "fill_step H l cid book now quantity l'" for l cid book now quantity l'
    using that by (auto elim!: fill_stepE simp: closed_kept_def update_conv settle_orders)
  show "closed_kept l l2" if "closed_kept l l1" "closed_kept l1 l2" for l l1 l2
    using that by (auto simp: closed_kept_def)
qed (simp_all add: closed_kept_frame closed_kept_put store_orders)

lemma place_order_new:
  assumes "submit H l permit now = Inr l'"
  obtains w where "map_of (ld_orders l) (ao_client_order_id (pp_approval permit)) = None"
    "l' = put_order l (ao_client_order_id (pp_approval permit)) w"
  using assms by (auto elim!: submitE place_orderE simp: issuance_invalid_def Let_def)

lemma apply_closed_kept:
  assumes "apply_command H l c = Inr l'"
  shows "closed_kept l l'"
proof (rule keeps_closed.apply_R[OF assms])
  show "closed_kept l l1" if "submit H l permit (cm_at c) = Inr l1" for permit l1
    using that by (auto elim!: place_order_new simp: closed_kept_def update_conv)
qed (simp add: closed_kept_frame)

section \<open>The books\<close>

definition sum_basis :: "ledger \<Rightarrow> int" where
  "sum_basis l = sum_list (map (\<lambda>(key, h). h_basis h) (ld_holdings l))"

definition sum_position_pnl :: "ledger \<Rightarrow> int" where
  "sum_position_pnl l = sum_list (map (\<lambda>(key, h). h_realized h) (ld_holdings l))"

definition sum_realized :: "ledger \<Rightarrow> int" where
  "sum_realized l = sum_list (map snd (ld_realized l))"

definition books :: "ledger \<Rightarrow> int \<times> int" where
  "books l = (ld_cash l + sum_basis l - sum_realized l, sum_position_pnl l - sum_realized l)"

lemma books_simps [simp]:
  "books (put_order l cid w) = books l" "books (l\<lparr>ld_sealed := b\<rparr>) = books l"
  "books (l\<lparr>ld_as_of := t, ld_peak := p\<rparr>) = books l"
  "books (l\<lparr>ld_as_of := t, ld_initial := p', ld_orders := os\<rparr>) = books l"
  by (simp_all add: books_def sum_basis_def sum_position_pnl_def sum_realized_def)

lemma books_settle:
  assumes "settle l book side quantity gross fee now = Inr l'"
  shows "books l' = books l"
proof -
  let ?key = "i_value (bk_instrument_id book)"
  obtain h h' cash realized best where
    h: "h = (case map_of (ld_holdings l) ?key of Some h \<Rightarrow> h
      | None \<Rightarrow> \<lparr>h_quantity = 0, h_basis = 0, h_mark = best, h_realized = 0, h_opened_at = Some now\<rparr>)"
    and t: "trade side h (ld_cash l) quantity gross fee = Inr (h', cash, realized)"
    and l': "l' = l\<lparr>ld_cash := cash,
       ld_holdings := AList.update ?key (h'\<lparr>h_realized := h_realized h' + realized\<rparr>) (ld_holdings l),
       ld_mark_times := AList.update ?key (bk_event_time book) (ld_mark_times l),
       ld_realized := add_at (date_of now) realized (ld_realized l), ld_fees := ld_fees l + fee\<rparr>"
    by (rule settleE[OF assms])
  have old: "(case map_of (ld_holdings l) ?key of None \<Rightarrow> 0 | Some v \<Rightarrow> h_basis v) = h_basis h"
    "(case map_of (ld_holdings l) ?key of None \<Rightarrow> 0 | Some v \<Rightarrow> h_realized v) = h_realized h"
    by (simp_all add: h split: option.split)
  show ?thesis
    using trade_books[OF t]
    by (simp add: books_def sum_basis_def sum_position_pnl_def sum_realized_def l' sum_update old dict_values_add_at)
qed

lemma books_store: "store_book l book healthy = Inr l' \<Longrightarrow> books l' = books l"
  by (erule store_bookE)
    (auto simp: books_def sum_basis_def sum_position_pnl_def sum_realized_def sum_update)

interpretation keeps_books: ledger_steps H "\<lambda>l l'. books l' = books l" for H
proof
  show "books l' = books l" if "fill_step H l cid book now quantity l'" for l cid book now quantity l'
    using that by (auto elim!: fill_stepE dest: books_settle)
qed (simp_all add: books_store)

lemma books_apply: "apply_command H l c = Inr l' \<Longrightarrow> books l' = books l"
  by (erule keeps_books.apply_R) (auto elim!: place_order_new)

interpretation ledger_books: conserved_step "apply_command H" books for H
  by unfold_locales (rule books_apply)

lemma books_generation: "begin_generation l now = Inr l' \<Longrightarrow> books l' = books l"
  by (erule begin_generationE) simp

section \<open>Fills against holdings and fees\<close>

definition net_of :: "string \<Rightarrow> working_order \<Rightarrow> int" where
  "net_of key w = (if order_key w = key then if o_side (wo_order w) = Buy then filled_units w else - filled_units w else 0)"

definition order_fees :: "working_order \<Rightarrow> int" where
  "order_fees w = wo_debit w - fill_debit (o_side (wo_order w)) (wo_gross w) 0"

definition reconciled_from :: "ledger \<Rightarrow> ledger \<Rightarrow> bool" where
  "reconciled_from l l' \<longleftrightarrow> (ledger_ok l \<longrightarrow> ledger_ok l' \<and>
     (\<forall>key. held l' key - total_of (net_of key) l' = held l key - total_of (net_of key) l) \<and>
     ld_fees l' - total_of order_fees l' = ld_fees l - total_of order_fees l)"

lemma reconciled_frame:
  assumes "ld_orders l' = ld_orders l" "ld_fees l' = ld_fees l" "\<And>key. held l' key = held l key" "ledger_ok l \<Longrightarrow> ledger_ok l'"
  shows "reconciled_from l l'"
proof -
  have "total_of f l' = total_of f l" for f by (rule total_cong[OF assms(1)])
  then show ?thesis using assms(2-4) by (auto simp: reconciled_from_def)
qed

lemma status_same:
  assumes "with_status w status now reason = Inr w'"
  shows "net_of key w' = net_of key w" "order_fees w' = order_fees w" "filled_units w' = filled_units w"
    "o_side (wo_order w') = o_side (wo_order w)"
  by (rule with_statusE[OF assms], simp add: net_of_def order_fees_def order_key_def filled_units_def)+

lemma fill_step_facts:
  assumes ok: "ledger_ok l" and f: "fill_step H l cid book now quantity l'"
  obtains w w' fee where "map_of (ld_orders l) cid = Some w" "ld_orders l' = AList.update cid w' (ld_orders l)"
    "worder_ok cid w" "filled_units w' = filled_units w + quantity" "o_side (wo_order w') = o_side (wo_order w)"
    "order_key w' = order_key w" "order_fees w' = order_fees w + fee" "ld_fees l' = ld_fees l + fee" "0 < quantity"
    "\<And>key. held l' key = held l key + (if key = order_key w then if o_side (wo_order w) = Buy then quantity else - quantity else 0)"
  using f
proof cases
  case (step w settings price fee gross filled approved max_debit l1 index w')
  have wok: "worder_ok cid w" using ok step(2) by (simp add: ledger_ok_def)
  have caps: "filled = filled_units w" "approved = approved_units w" "max_debit = cash_ceiling w"
    using step by (simp_all add: filled_units_def approved_units_def cash_ceiling_def)
  have gross: "0 \<le> gross" using step(6,7,9) product_nonneg by fastforce
  note w' = fill_worder[OF wok step(3) step(17) step(13-15)[unfolded caps] gross]
  note s = settle_facts[OF step(16) ok step(6) gross]
  have fees: "ld_fees l1 = ld_fees l + fee" using step(16) by (auto elim!: settleE)
  have same: "o_side (wo_order w') = o_side (wo_order w)" "order_key w' = order_key w"
    using record_fill_active[OF step(17)] by (simp_all add: order_key_def)
  have "wo_debit w' = wo_debit w + fill_debit (o_side (wo_order w)) gross fee"
    using step(17) by (auto elim!: record_fillE)
  then have feeof: "order_fees w' = order_fees w + fee" using w'(5) same by (simp add: order_fees_def fill_debit_def)
  have key: "i_value (bk_instrument_id book) = order_key w" using step(4) by (simp add: order_key_def)
  have hold: "held l' k = held l k + (if k = order_key w then if o_side (wo_order w) = Buy then quantity else - quantity else 0)" for k
    using s(4)[of k] unfolding key step(1) by (simp add: held_def)
  show ?thesis
    by (rule that[OF step(2) _ wok w'(2) same feeof _ step(6) hold]) (simp_all add: step(1) s(1) fees)
qed

lemma reconciled_fill:
  assumes "fill_step H l cid book now quantity l'"
  shows "reconciled_from l l'"
  unfolding reconciled_from_def
proof (intro impI conjI allI)
  assume ok: "ledger_ok l"
  then show "ledger_ok l'" using assms ledger_ok_fill by blast
  obtain w w' fee where f: "map_of (ld_orders l) cid = Some w" "ld_orders l' = AList.update cid w' (ld_orders l)"
    "filled_units w' = filled_units w + quantity" "o_side (wo_order w') = o_side (wo_order w)"
    "order_key w' = order_key w" "order_fees w' = order_fees w + fee" "ld_fees l' = ld_fees l + fee"
    "\<And>key. held l' key = held l key + (if key = order_key w then if o_side (wo_order w) = Buy then quantity else - quantity else 0)"
    using fill_step_facts[OF ok assms] by metis
  have total: "total_of f l' = total_of f l - f w + f w'" for f
    using f(1,2) by (simp add: total_of_def sum_update)
  show "ld_fees l' - total_of order_fees l' = ld_fees l - total_of order_fees l" using f(6,7) total by simp
  show "held l' key - total_of (net_of key) l' = held l key - total_of (net_of key) l" for key
    using f(3-5) f(8)[of key] unfolding total by (auto simp: net_of_def)
qed

interpretation keeps_reconciled: ledger_steps H reconciled_from for H
proof
  show "reconciled_from l (put_order l cid w')"
    if "map_of (ld_orders l) cid = Some w" "order_open w" "status \<noteq> UnknownStatus" "status \<noteq> PendingSubmit"
      "with_status w status now reason = Inr w'" for l cid w status now reason w'
    using that ledger_ok_status[OF _ that(1,2) _ that(5)]
    by (auto simp: reconciled_from_def status_same held_def)
  show "reconciled_from l l'" if "store_book l book healthy = Inr l'" for l book healthy l'
    using that ledger_ok_store[OF _ that]
    by (auto elim!: store_bookE intro!: reconciled_frame simp: held_def update_conv)
  show "reconciled_from l (l\<lparr>ld_sealed := True\<rparr>)" for l
    by (auto intro!: reconciled_frame intro: ledger_ok_frame[of _ l] simp: held_def)
  show "reconciled_from l l2" if "reconciled_from l l1" "reconciled_from l1 l2" for l l1 l2
    using that by (simp add: reconciled_from_def)
qed (simp_all add: reconciled_fill, simp add: reconciled_from_def)

lemma submit_untouched:
  assumes "submit H l permit now = Inr l'" "permit_sound permit" "ledger_ok l"
  shows "reconciled_from l l'"
proof -
  let ?cid = "ao_client_order_id (pp_approval permit)"
  obtain w where w: "map_of (ld_orders l) ?cid = None" "l' = put_order l ?cid w"
      "filled_units w = 0" "wo_gross w = 0" "wo_debit w = 0"
    using assms(1)
    by (auto elim!: submitE place_orderE with_statusE simp: issuance_invalid_def Let_def filled_units_def quantity_for_def
        units_decimal_of split: if_split_asm)
  then show ?thesis
    using ledger_ok_submit[OF assms(3,1,2)]
    by (auto simp: reconciled_from_def total_put_new held_def net_of_def order_fees_def fill_debit_def)
qed

lemma apply_reconciled:
  assumes "ledger_ok l" "command_valid c" "apply_command H l c = Inr l'"
  shows "reconciled_from l l'"
proof (rule keeps_reconciled.apply_R[OF assms(3)])
  show "reconciled_from l l1" if "cm_permit c = Some permit" "submit H l permit (cm_at c) = Inr l1" for permit l1
    by (rule submit_untouched[OF that(2) command_valid_sound[OF assms(2) that(1)] assms(1)])
  show "reconciled_from l1 (l1\<lparr>ld_as_of := cm_at c, ld_peak := peak\<rparr>)" for l1 peak
    by (auto intro!: reconciled_frame intro: ledger_ok_frame[of _ l1] simp: held_def)
qed

end
