(* ===== verification/PaperMatching.thy ===== *)
theory PaperMatching
  imports PaperAccounts
begin

text \<open>
  What a market event does to the orders: each order the matching loop reaches is left as it was or
  closed, other orders are not touched, and the fills come out of the displayed depth. The size and
  the price of a fill are characterised.
\<close>

section \<open>One order at a time\<close>

definition others_kept :: "string \<Rightarrow> ledger \<Rightarrow> ledger \<Rightarrow> bool" where
  "others_kept cid l l' \<longleftrightarrow> (\<forall>c. c \<noteq> cid \<longrightarrow> map_of (ld_orders l') c = map_of (ld_orders l) c) \<and>
     map fst (ld_orders l') = map fst (ld_orders l) \<and> ld_config l' = ld_config l"

definition closed_in :: "ledger \<Rightarrow> string \<Rightarrow> bool" where
  "closed_in l cid \<longleftrightarrow> (\<exists>w. map_of (ld_orders l) cid = Some w \<and> \<not> order_open w)"

lemma keys_put: "map_of d cid = Some w \<Longrightarrow> map fst (AList.update cid w' d) = map fst d"
  by (induction d) (auto split: if_split_asm)

lemma others_kept_put: "map_of (ld_orders l) cid = Some w \<Longrightarrow> others_kept cid l (put_order l cid w')"
  by (simp add: others_kept_def keys_put update_conv)

lemma others_kept_trans: "others_kept cid l l1 \<Longrightarrow> others_kept cid l1 l2 \<Longrightarrow> others_kept cid l l2"
  by (simp add: others_kept_def)

lemma others_kept_refl [simp]: "others_kept cid l l" "others_kept cid l (l\<lparr>ld_sealed := b\<rparr>)"
  by (simp_all add: others_kept_def)

lemma set_status_others: "set_status l cid status now r = Inr l' \<Longrightarrow> others_kept cid l l'"
  by (auto elim!: set_statusE simp: others_kept_put)

lemma set_status_closed:
  "set_status l cid status now r = Inr l' \<Longrightarrow> \<not> is_open status \<Longrightarrow> closed_in l' cid"
  by (auto elim!: set_statusE simp: closed_in_def with_status_def Let_def bindE_Inr_iff order_open_def update_conv)

lemma fill_step_others: "fill_step H l cid book now q l' \<Longrightarrow> others_kept cid l l'"
proof (erule fill_stepE)
  fix w l1 w' side quantity gross fee
  assume "map_of (ld_orders l) cid = Some w" "settle l book side quantity gross fee now = Inr l1" "l' = put_order l1 cid w'"
  moreover have "ld_config l1 = ld_config l" if "settle l book side quantity gross fee now = Inr l1"
    using that by (auto elim!: settleE)
  ultimately show "others_kept cid l l'" by (simp add: others_kept_def settle_orders keys_put update_conv)
qed

lemma execute_orderE:
  assumes "execute_order H l cid book levels depth now = Inr (l', depth')"
  obtains l1 l2 status reason where
    "set_status l cid Accepted now None = Inr l1" "fill_levels H l1 cid book 0 levels depth now = Inr (l2, depth')"
    "set_status l2 cid status now reason = Inr l'" "status = Filled \<or> status = Cancelled"
  using assms by (auto simp: execute_order_def elim!: bindE_InrE split: option.splits if_split_asm)

lemma accept_active:
  assumes "set_status l cid Accepted now None = Inr l1" "active l cid book"
  shows "active l1 cid book"
  using assms by (auto elim!: set_statusE with_statusE simp: active_def order_open_def update_Some_unfold)

lemma execute_order_others:
  assumes e: "execute_order H l cid book levels depth now = Inr (l', depth')" and a: "active l cid book"
  shows "others_kept cid l l'" "closed_in l' cid"
proof -
  obtain l1 l2 status reason where s: "set_status l cid Accepted now None = Inr l1"
    "fill_levels H l1 cid book 0 levels depth now = Inr (l2, depth')"
    "set_status l2 cid status now reason = Inr l'" "status = Filled \<or> status = Cancelled"
    by (rule execute_orderE[OF e])
  have "others_kept cid l1 l2"
    using levels_rel[of "\<lambda>s t. others_kept cid (fst s) (fst t)", OF _ _ _ s(2) accept_active[OF s(1) a]]
      others_kept_trans fill_step_others by auto
  then show "others_kept cid l l'" using s(1,3) set_status_others others_kept_trans by blast
  show "closed_in l' cid" using s(3,4) set_status_closed by auto
qed

text \<open>When an order is due: its approval has expired, or the book is late enough for its latency.\<close>

definition due :: "paper_config \<Rightarrow> working_order \<Rightarrow> paper_book \<Rightarrow> datetime \<Rightarrow> bool" where
  "due config w book now \<longleftrightarrow> order_open w \<and> o_instrument_id (wo_order w) = bk_instrument_id book \<and>
     (ao_expires_at (pp_approval (wo_permit w)) \<le> now \<or>
      (case o_submitted_at (wo_order w) of None \<Rightarrow> False | Some t \<Rightarrow>
         t + ms (pc_latency_ms config) \<le> min (bk_event_time book) (bk_received_at book)))"

lemma match_order_effect:
  assumes m: "match_order H book now healthy blocked (l, (asks, bids)) cid = Inr (l', depths)"
    and w: "map_of (ld_orders l) cid = Some w"
  shows "others_kept cid l l'" "if due (ld_config l) w book now then closed_in l' cid else l' = l"
proof -
  let ?l = "l\<lparr>ld_sealed := True\<rparr>"
  have act: "active ?l cid book" if "order_open w" "o_instrument_id (wo_order w) = bk_instrument_id book"
    using that w by (auto simp: active_def)
  have o: "others_kept cid ?l k \<Longrightarrow> others_kept cid l k" for k by (simp add: others_kept_def)
  show "others_kept cid l l'"
    using m w act
    by (auto simp: match_order_def Let_def elim!: bindE_InrE split: option.splits if_split_asm
        dest: set_status_others intro: o execute_order_others(1))
  show "if due (ld_config l) w book now then closed_in l' cid else l' = l"
    using m w act
    by (auto simp: match_order_def Let_def due_def elim!: bindE_InrE split: option.splits if_split_asm
        intro: set_status_closed execute_order_others(2))
qed

section \<open>The whole event\<close>

lemma match_orders_effect:
  "match_orders H book now healthy blocked cids (l, depths) = Inr (l', depths') \<Longrightarrow> distinct cids \<Longrightarrow>
   \<forall>c \<in> set cids. map_of (ld_orders l) c \<noteq> None \<Longrightarrow>
   ld_config l' = ld_config l \<and> map fst (ld_orders l') = map fst (ld_orders l) \<and>
   (\<forall>c w. map_of (ld_orders l) c = Some w \<longrightarrow>
      (if c \<in> set cids \<and> due (ld_config l) w book now then closed_in l' c
       else map_of (ld_orders l') c = Some w))"
proof (induction cids arbitrary: l depths)
  case (Cons cid cids l depths)
  obtain l1 d1 where s: "match_order H book now healthy blocked (l, (fst depths, snd depths)) cid = Inr (l1, d1)"
      "match_orders H book now healthy blocked cids (l1, d1) = Inr (l', depths')"
    using Cons.prems(1) by (auto elim!: bindE_InrE)
  obtain w0 where w0: "map_of (ld_orders l) cid = Some w0" using Cons.prems(3) by auto
  note e = match_order_effect[OF s(1) w0]
  have keys: "map_of (ld_orders l1) c \<noteq> None \<longleftrightarrow> map_of (ld_orders l) c \<noteq> None" for c
    using e(1) by (simp add: others_kept_def map_of_eq_None_iff set_map[symmetric] del: set_map)
  have IH: "ld_config l' = ld_config l1 \<and> map fst (ld_orders l') = map fst (ld_orders l1) \<and>
   (\<forall>c w. map_of (ld_orders l1) c = Some w \<longrightarrow>
      (if c \<in> set cids \<and> due (ld_config l1) w book now then closed_in l' c
       else map_of (ld_orders l') c = Some w))"
    using Cons.IH[OF s(2)] Cons.prems(2,3) keys by auto
  have same: "ld_config l1 = ld_config l" "map fst (ld_orders l1) = map fst (ld_orders l)"
      "\<And>c. c \<noteq> cid \<Longrightarrow> map_of (ld_orders l1) c = map_of (ld_orders l) c"
    using e(1) by (simp_all add: others_kept_def)
  have closed: "closed_in l1 cid \<Longrightarrow> closed_in l' cid"
    using keeps_closed.match_orders_R[OF s(2)] by (auto simp: closed_in_def closed_kept_def)
  show ?case
  proof (intro conjI allI impI)
    fix c w assume w: "map_of (ld_orders l) c = Some w"
    show "if c \<in> set (cid # cids) \<and> due (ld_config l) w book now then closed_in l' c
       else map_of (ld_orders l') c = Some w"
    proof (cases "c = cid")
      case True
      then show ?thesis
        using w w0 e(2) closed IH Cons.prems(2) by (auto split: if_splits)
    next
      case False
      then show ?thesis using IH same w by auto
    qed
  qed (use IH same in simp_all)
qed simp

lemma marketE:
  assumes "market H l book now blocked = Inr l'"
  obtains l1 asks bids d where "store_book l book (book_healthy l book now) = Inr l1"
    "quantities_of (bk_asks book) = Inr asks" "quantities_of (bk_bids book) = Inr bids"
    "match_orders H book now (book_healthy l book now) blocked (map fst (ld_orders l)) (l1, (asks, bids)) = Inr (l', d)"
    "ld_orders l1 = ld_orders l" "ld_config l1 = ld_config l"
proof -
  obtain l1 asks bids d where s: "store_book l book (book_healthy l book now) = Inr l1"
    "quantities_of (bk_asks book) = Inr asks" "quantities_of (bk_bids book) = Inr bids"
    "match_orders H book now (book_healthy l book now) blocked (map fst (ld_orders l1)) (l1, (asks, bids)) = Inr (l', d)"
    using assms by (auto simp: market_def Let_def elim!: bindE_InrE split: option.splits if_split_asm)
  have "ld_orders l1 = ld_orders l" "ld_config l1 = ld_config l" using s(1) by (auto elim!: store_bookE)
  then show ?thesis using s that by simp
qed

lemma market_effect:
  assumes m: "market H l book now blocked = Inr l'" and d: "distinct (map fst (ld_orders l))"
    and w: "map_of (ld_orders l) cid = Some w"
  shows "if due (ld_config l) w book now then closed_in l' cid else map_of (ld_orders l') cid = Some w"
proof -
  obtain l1 asks bids ds where s: "store_book l book (book_healthy l book now) = Inr l1"
    "match_orders H book now (book_healthy l book now) blocked (map fst (ld_orders l)) (l1, (asks, bids)) = Inr (l', ds)"
    "ld_orders l1 = ld_orders l" "ld_config l1 = ld_config l"
    by (rule marketE[OF m])
  have keys: "\<forall>c \<in> set (map fst (ld_orders l)). map_of (ld_orders l1) c \<noteq> None"
    unfolding s(3) by (simp add: map_of_eq_None_iff)
  have "cid \<in> set (map fst (ld_orders l))" using w by (force dest: map_of_SomeD)
  then show ?thesis using match_orders_effect[OF s(2) d keys] w s(3,4) by auto
qed

section \<open>Displayed depth\<close>

definition filled_on :: "order_side \<Rightarrow> working_order \<Rightarrow> int" where
  "filled_on side w = (if o_side (wo_order w) = side then filled_units w else 0)"

definition side_depth :: "order_side \<Rightarrow> depths \<Rightarrow> int list" where
  "side_depth side d = (if side = Buy then fst d else snd d)"

definition nonneg :: "int list \<Rightarrow> bool" where
  "nonneg xs \<longleftrightarrow> (\<forall>x \<in> set xs. 0 \<le> x)"

text \<open>What is filled on each side and what is left of its depth add up to the same amount.\<close>

definition depth_kept :: "ledger \<times> depths \<Rightarrow> ledger \<times> depths \<Rightarrow> bool" where
  "depth_kept s t \<longleftrightarrow> (ledger_ok (fst s) \<longrightarrow> ledger_ok (fst t) \<and>
     (\<forall>side. total_of (filled_on side) (fst t) + sum_list (side_depth side (snd t)) =
              total_of (filled_on side) (fst s) + sum_list (side_depth side (snd s)) \<and>
            (nonneg (side_depth side (snd s)) \<longrightarrow> nonneg (side_depth side (snd t)))))"

lemma depth_kept_refl [simp]: "depth_kept s s"
  by (simp add: depth_kept_def)

lemma depth_kept_trans: "depth_kept s t \<Longrightarrow> depth_kept t u \<Longrightarrow> depth_kept s u"
  by (simp add: depth_kept_def)

lemma sum_list_take: "i < length d \<Longrightarrow> sum_list (d[i := d ! i - q]) = sum_list d - (q::int)"
  by (induction d arbitrary: i) (auto split: nat.split)

lemma nonneg_take: "nonneg d \<Longrightarrow> q \<le> d ! i \<Longrightarrow> i < length d \<Longrightarrow> nonneg (d[i := d ! i - q])"
  unfolding nonneg_def by (auto dest!: set_update_subset_insert[THEN subsetD])

definition with_depth :: "order_side \<Rightarrow> depths \<Rightarrow> int list \<Rightarrow> depths" where
  "with_depth side d xs = (if side = Buy then (xs, snd d) else (fst d, xs))"

lemma side_depth_with: "side_depth s (with_depth side d xs) = (if s = side then xs else side_depth s d)"
  by (cases s; cases side) (simp_all add: side_depth_def with_depth_def)

lemma depth_kept_fill:
  assumes f: "fill_step H l cid book now q l'" and d: "index < length d" "q \<le> d ! index"
    and w: "map_of (ld_orders l) cid = Some w" "o_side (wo_order w) = side"
  shows "depth_kept (l, with_depth side ds d) (l', with_depth side ds (d[index := d ! index - q]))"
  unfolding depth_kept_def fst_conv snd_conv side_depth_with
proof (intro impI conjI allI)
  assume ok: "ledger_ok l"
  then show "ledger_ok l'" using f ledger_ok_fill by blast
  obtain w0 w' where fs: "map_of (ld_orders l) cid = Some w0" "ld_orders l' = AList.update cid w' (ld_orders l)"
    "filled_units w' = filled_units w0 + q" "o_side (wo_order w') = o_side (wo_order w0)"
    by (rule fill_step_facts[OF ok f])
  have total: "total_of f l' = total_of f l - f w + f w'" for f
    using fs(1,2) w(1) by (simp add: total_of_def sum_update)
  have w': "filled_on s w' = filled_on s w + (if s = side then q else 0)" for s
    using fs w by (auto simp: filled_on_def)
  show "total_of (filled_on s) l' + sum_list (if s = side then d[index := d ! index - q] else side_depth s ds) =
      total_of (filled_on s) l + sum_list (if s = side then d else side_depth s ds)" for s
    unfolding total w' using sum_list_take[OF d(1)] by auto
  show "nonneg (if s = side then d[index := d ! index - q] else side_depth s ds)"
    if "nonneg (if s = side then d else side_depth s ds)" for s
    using that nonneg_take[OF _ d(2,1)] by (auto split: if_split_asm)
qed

lemma depth_kept_frame:
  assumes "ledger_ok l \<Longrightarrow> ledger_ok l'" "\<And>s. total_of (filled_on s) l' = total_of (filled_on s) l"
  shows "depth_kept (l, d) (l', d)"
  using assms by (simp add: depth_kept_def)

lemma depth_kept_status:
  assumes s: "set_status l cid status now r = Inr l'" and a: "active l cid book"
    and ok: "status \<notin> {UnknownStatus, PendingSubmit}"
  shows "depth_kept (l, d) (l', d)"
proof (rule depth_kept_frame)
  obtain w w' where w: "map_of (ld_orders l) cid = Some w" "with_status w status now r = Inr w'" "l' = put_order l cid w'"
    by (rule set_statusE[OF s])
  show "ledger_ok l'" if "ledger_ok l"
    using keeps_ok.status_R[OF s a] ok that by simp
  show "total_of (filled_on s) l' = total_of (filled_on s) l" for s
    using w status_same[OF w(2)] by (simp add: filled_on_def)
qed

lemma depth_kept_execute:
  assumes e: "execute_order H l cid book levels (side_depth side ds) now = Inr (l', xs)"
    and a: "active l cid book" and w: "map_of (ld_orders l) cid = Some w" "o_side (wo_order w) = side"
  shows "depth_kept (l, ds) (l', with_depth side ds xs)"
proof -
  obtain l1 l2 status reason where s: "set_status l cid Accepted now None = Inr l1"
    "fill_levels H l1 cid book 0 levels (side_depth side ds) now = Inr (l2, xs)"
    "set_status l2 cid status now reason = Inr l'" "status = Filled \<or> status = Cancelled"
    by (rule execute_orderE[OF e])
  define side_of where "side_of l = (\<exists>w. map_of (ld_orders l) cid = Some w \<and> o_side (wo_order w) = side)" for l :: ledger
  have a1: "active l1 cid book" by (rule accept_active[OF s(1) a])
  have side1: "side_of l1"
    using s(1) w by (auto elim!: set_statusE with_statusE simp: side_of_def update_conv)
  let ?Q = "\<lambda>s t. side_of (fst s) \<longrightarrow> side_of (fst t) \<and> depth_kept (fst s, with_depth side ds (snd s)) (fst t, with_depth side ds (snd t))"
  have "?Q (l1, side_depth side ds) (l2, xs) \<and> active l2 cid book"
  proof (rule levels_rel[OF _ _ _ s(2) a1, where Q = ?Q])
    show "?Q s s" for s by simp
    show "?Q s u" if "?Q s t" "?Q t u" for s t u using that depth_kept_trans by blast
    show "?Q (l, d) (l', d[index := d ! index - q])"
      if "active l cid book" "fill_step H l cid book now q l'" "index < length d" "q \<le> d ! index" for l d q l' index
    proof (intro impI conjI)
      assume "side_of (fst (l, d))"
      then obtain v where v: "map_of (ld_orders l) cid = Some v" "o_side (wo_order v) = side" by (auto simp: side_of_def)
      show "side_of (fst (l', d[index := d ! index - q]))"
        using that(2) v
        by (auto elim!: fill_stepE simp: side_of_def update_conv dest: record_fill_active(3))
      show "depth_kept (fst (l, d), with_depth side ds (snd (l, d)))
         (fst (l', d[index := d ! index - q]), with_depth side ds (snd (l', d[index := d ! index - q])))"
        using depth_kept_fill[OF that(2-4) v] by simp
    qed
  qed
  then have mid: "depth_kept (l1, ds) (l2, with_depth side ds xs)" "active l2 cid book"
    using side1 by (simp_all add: with_depth_def side_depth_def split: if_split_asm)
  have st: "status \<notin> {UnknownStatus, PendingSubmit}" using s(4) by auto
  have "depth_kept (l, ds) (l1, ds)" by (rule depth_kept_status[OF s(1) a]) simp
  moreover have "depth_kept (l2, with_depth side ds xs) (l', with_depth side ds xs)"
    by (rule depth_kept_status[OF s(3) mid(2) st])
  ultimately have "depth_kept (l, ds) (l1, ds)" "depth_kept (l2, with_depth side ds xs) (l', with_depth side ds xs)"
    by simp_all
  then show ?thesis using mid(1) depth_kept_trans by blast
qed

lemma depth_kept_match_order:
  assumes m: "match_order H book now healthy blocked (l, ds) cid = Inr (l', ds')"
  shows "depth_kept (l, ds) (l', ds')"
proof (cases "active l cid book")
  case False
  then show ?thesis using m by (auto simp: match_order_def active_def split: option.splits prod.splits)
next
  case True
  then obtain w where w: "map_of (ld_orders l) cid = Some w" "order_open w"
      "o_instrument_id (wo_order w) = bk_instrument_id book"
    by (auto simp: active_def)
  let ?l = "l\<lparr>ld_sealed := True\<rparr>"
  have sealed: "active ?l cid book" "map_of (ld_orders ?l) cid = Some w" using True w by (simp_all add: active_def)
  have seal: "depth_kept (?l, ds) t \<Longrightarrow> depth_kept (l, ds) t" for t
    by (rule depth_kept_trans[OF depth_kept_frame])
      (auto intro: ledger_ok_frame[of _ l] total_cong simp: held_def)
  obtain xs ys where ds: "ds = (xs, ys)" by (cases ds)
  have exec: "depth_kept (l, ds) (k, with_depth side ds zs)"
    if "execute_order H ?l cid book levels (side_depth side ds) now = Inr (k, zs)" "o_side (wo_order w) = side" for k side zs levels
    by (rule seal[OF depth_kept_execute[OF that(1) sealed that(2)]])
  have buy: "depth_kept (l, (xs, ys)) (k, (zs, ys))"
    if "execute_order H ?l cid book levels xs now = Inr (k, zs)" "o_side (wo_order w) = Buy" for k zs levels
    using exec[of levels Buy k zs] that by (simp add: ds side_depth_def with_depth_def)
  have sell: "depth_kept (l, (xs, ys)) (k, (xs, zs))"
    if "execute_order H ?l cid book levels ys now = Inr (k, zs)" "o_side (wo_order w) \<noteq> Buy" for k zs levels
    using exec[of levels Sell k zs] that by (cases "o_side (wo_order w)") (simp_all add: ds side_depth_def with_depth_def)
  have close: "depth_kept (l, (xs, ys)) (k, (xs, ys))"
    if "set_status ?l cid status now r = Inr k" "status \<notin> {UnknownStatus, PendingSubmit}" for k status r
    using seal[OF depth_kept_status[OF that(1) sealed(1) that(2)]] by (simp add: ds)
  show ?thesis
    using m w unfolding ds
    by (auto simp: match_order_def Let_def elim!: bindE_InrE split: option.splits if_split_asm
        intro: depth_kept_status[OF _ True] close buy sell)
qed

lemma depth_kept_match_orders:
  "match_orders H book now healthy blocked cids (l, ds) = Inr (l', ds') \<Longrightarrow> depth_kept (l, ds) (l', ds')"
proof (induction cids arbitrary: l ds)
  case (Cons cid cids l ds)
  obtain l1 d1 where "match_order H book now healthy blocked (l, ds) cid = Inr (l1, d1)"
      "match_orders H book now healthy blocked cids (l1, d1) = Inr (l', ds')"
    using Cons.prems by (auto elim!: bindE_InrE)
  then show ?case using depth_kept_match_order Cons.IH depth_kept_trans by blast
qed simp

lemma quantities_nonneg:
  "quantities_of levels = Inr qs \<Longrightarrow> list_all (\<lambda>l. level_error l = None) levels \<Longrightarrow> nonneg qs"
proof (induction levels arbitrary: qs)
  case (Cons level levels)
  obtain q qs' where q: "units (lv_quantity level) = Some q" "quantities_of levels = Inr qs'" "qs = q # qs'"
    using Cons.prems(1) by (auto elim!: bindE_InrE)
  have "0 < q" using units_sign(1)[OF q(1)] Cons.prems(2) by (auto simp: level_error_def dec_linear split: if_split_asm)
  then show ?case using Cons q by (auto simp: nonneg_def)
qed (simp add: nonneg_def)

text \<open>The fills of a side during an event are at most the depth the book displays on that side.\<close>

lemma market_within_depth:
  assumes m: "market H l book now blocked = Inr l'" and ok: "ledger_ok l" and b: "book_error book = None"
    and q: "quantities_of (if side = Buy then bk_asks book else bk_bids book) = Inr qs"
  shows "total_of (filled_on side) l' - total_of (filled_on side) l \<le> sum_list qs"
proof -
  obtain l1 asks bids d where s: "store_book l book (book_healthy l book now) = Inr l1"
    "quantities_of (bk_asks book) = Inr asks" "quantities_of (bk_bids book) = Inr bids"
    "match_orders H book now (book_healthy l book now) blocked (map fst (ld_orders l)) (l1, (asks, bids)) = Inr (l', d)"
    "ld_orders l1 = ld_orders l"
    by (rule marketE[OF m])
  have levels: "list_all (\<lambda>l. level_error l = None) (bk_asks book)" "list_all (\<lambda>l. level_error l = None) (bk_bids book)"
    using b by (auto simp: book_error_def Let_def list_ex_iff list_all_iff split: if_split_asm)
  have "nonneg (side_depth side (asks, bids))"
    using quantities_nonneg[OF s(2) levels(1)] quantities_nonneg[OF s(3) levels(2)] by (simp add: side_depth_def)
  moreover have "ledger_ok l1" by (rule ledger_ok_store[OF ok s(1)])
  ultimately have t: "total_of (filled_on side) l' + sum_list (side_depth side d) =
      total_of (filled_on side) l1 + sum_list (side_depth side (asks, bids))" "nonneg (side_depth side d)"
    using depth_kept_match_orders[OF s(4)] by (simp_all add: depth_kept_def)
  have "0 \<le> sum_list (side_depth side d)" using t(2) by (auto simp: nonneg_def intro: sum_list_nonneg)
  moreover have "qs = side_depth side (asks, bids)" using q s(2,3) by (simp add: side_depth_def split: if_split_asm)
  ultimately show ?thesis using t(1) total_cong[OF s(5)] by simp
qed

section \<open>The size and the price of a fill\<close>

definition fill_context_ok :: "fill_context \<Rightarrow> bool" where
  "fill_context_ok c \<longleftrightarrow> 0 \<le> fc_lot c \<and> 0 \<le> fc_price c \<and> 0 \<le> fc_fee_bps c"

lemma product_mono:
  assumes "product a p = Some g" "product b p = Some h" "a \<le> b" "0 \<le> p"
  shows "g \<le> h"
proof -
  have "g * SCALE \<le> h * SCALE"
    using assms mult_right_mono[of a b p] by (simp add: product_Some)
  then show ?thesis by simp
qed

text \<open>An acceptable number of lots stays acceptable when it shrinks, or its product is not exact.\<close>

interpretation fill_search: shrinkable fill_context_ok fill_allowed
proof
  fix c and i j :: int
  assume c: "fill_context_ok c" and ij: "0 \<le> i" "i \<le> j" and t: "fill_allowed c j = Inr True"
  obtain h where h: "product (j * fc_lot c) (fc_price c) = Some h" "h \<le> fc_budget c"
      "fill_debit (fc_side c) h (fill_fee h (fc_fee_bps c)) \<le> fc_cash_limit c"
    using t by (auto simp: fill_allowed_def bindE_Inr_iff)
  show "fill_allowed c i \<noteq> Inr False"
  proof (cases "product (i * fc_lot c) (fc_price c)")
    case None
    then show ?thesis by (simp add: fill_allowed_def)
  next
    case (Some g)
    have "i * fc_lot c \<le> j * fc_lot c" using c ij by (simp add: fill_context_ok_def mult_right_mono)
    then have "g \<le> h" using product_mono[OF Some h(1)] c by (simp add: fill_context_ok_def)
    moreover from this have "g * fc_fee_bps c \<le> h * fc_fee_bps c"
      using c by (simp add: fill_context_ok_def mult_right_mono)
    then have "fill_fee g (fc_fee_bps c) \<le> fill_fee h (fc_fee_bps c)" by (simp add: fill_fee_def ceil_div_mono)
    ultimately show ?thesis
      using h Some by (cases "fc_side c") (simp_all add: fill_allowed_def fill_debit_def)
  qed
qed

lemma fill_lots_largest:
  assumes f: "fill_lots w lot price fee_bps available = Inr lots"
    and u: "units (q_value (o_filled_quantity (wo_order w))) = Some filled"
      "units (m_amount (ao_approved_notional (pp_approval (wo_permit w)))) = Some approved"
      "units (m_amount (rd_max_cash_debit (pp_record (wo_permit w)))) = Some max_debit"
    and pos: "0 < lot" "0 < price" "0 \<le> fee_bps" "0 \<le> available" "filled \<le> wo_target w"
    and j: "lots < j" "j * lot \<le> wo_target w - filled" "j * lot \<le> available"
  shows "fill_allowed (fill_context_of w lot price fee_bps approved max_debit) j \<noteq> Inr True"
proof -
  let ?c = "fill_context_of w lot price fee_bps approved max_debit"
  have b: "bisect (fill_allowed ?c) 0 (min (wo_target w - filled) available div lot) = Inr lots"
    using f u pos(1) by (simp add: fill_lots_def)
  have "j * lot div lot \<le> min (wo_target w - filled) available div lot"
    using j(2,3) pos(1) by (intro zdiv_mono1) auto
  then have "j \<le> min (wo_target w - filled) available div lot" using pos(1) by simp
  moreover have "0 \<le> min (wo_target w - filled) available div lot"
    using pos by (simp add: pos_imp_zdiv_nonneg_iff)
  moreover have "fill_context_ok ?c" using pos by (simp add: fill_context_ok_def fill_context_of_def)
  ultimately show ?thesis using fill_search.bisect_greatest[OF _ _ b] j(1) by blast
qed

lemma fill_price_bounds:
  assumes "0 < tick"
  shows "raw_price * (BPS_DENOMINATOR + slip) \<le> fill_price Buy raw_price slip tick * BPS_DENOMINATOR"
    "fill_price Buy raw_price slip tick * BPS_DENOMINATOR < raw_price * (BPS_DENOMINATOR + slip) + tick * BPS_DENOMINATOR"
    "fill_price Sell raw_price slip tick * BPS_DENOMINATOR \<le> raw_price * (BPS_DENOMINATOR - slip)"
    "raw_price * (BPS_DENOMINATOR - slip) < fill_price Sell raw_price slip tick * BPS_DENOMINATOR + tick * BPS_DENOMINATOR"
    "tick dvd fill_price side raw_price slip tick"
proof -
  have d: "0 < BPS_DENOMINATOR * tick" using assms by simp
  show "raw_price * (BPS_DENOMINATOR + slip) \<le> fill_price Buy raw_price slip tick * BPS_DENOMINATOR"
    "fill_price Buy raw_price slip tick * BPS_DENOMINATOR < raw_price * (BPS_DENOMINATOR + slip) + tick * BPS_DENOMINATOR"
    using ceil_div_bounds[OF d, of "raw_price * (BPS_DENOMINATOR + slip)"]
    by (simp_all add: fill_price_def mult.assoc mult.left_commute mult.commute)
  have m: "raw_price * (BPS_DENOMINATOR - slip) =
      raw_price * (BPS_DENOMINATOR - slip) div (BPS_DENOMINATOR * tick) * (BPS_DENOMINATOR * tick) +
      raw_price * (BPS_DENOMINATOR - slip) mod (BPS_DENOMINATOR * tick)"
    by (rule div_mult_mod_eq[symmetric])
  have r: "0 \<le> raw_price * (BPS_DENOMINATOR - slip) mod (BPS_DENOMINATOR * tick)"
    "raw_price * (BPS_DENOMINATOR - slip) mod (BPS_DENOMINATOR * tick) < BPS_DENOMINATOR * tick"
    using d by simp_all
  have e: "fill_price Sell raw_price slip tick * BPS_DENOMINATOR =
      raw_price * (BPS_DENOMINATOR - slip) div (BPS_DENOMINATOR * tick) * (BPS_DENOMINATOR * tick)"
    by (simp add: fill_price_def mult.assoc mult.left_commute mult.commute)
  have c: "tick * BPS_DENOMINATOR = BPS_DENOMINATOR * tick" by (rule mult.commute)
  show "fill_price Sell raw_price slip tick * BPS_DENOMINATOR \<le> raw_price * (BPS_DENOMINATOR - slip)"
    "raw_price * (BPS_DENOMINATOR - slip) < fill_price Sell raw_price slip tick * BPS_DENOMINATOR + tick * BPS_DENOMINATOR"
    unfolding e c using m r by linarith+
  show "tick dvd fill_price side raw_price slip tick" by (simp add: fill_price_def)
qed

lemma average_half_even:
  assumes "0 < quantity" "average gross quantity = Inr a"
  shows "\<bar>2 * (a * quantity - gross * SCALE)\<bar> \<le> quantity"
    "\<bar>2 * (a * quantity - gross * SCALE)\<bar> = quantity \<Longrightarrow> even a"
proof -
  define n where "n = gross * SCALE"
  define q where "q = n div quantity"
  define r where "r = n mod quantity"
  have n: "n = q * quantity + r" "0 \<le> r" "r < quantity" using assms(1) by (simp_all add: q_def r_def)
  have a: "a = q + (if quantity < r * 2 \<or> (r * 2 = quantity \<and> odd q) then 1 else 0)"
    using assms by (simp add: average_def Let_def n_def q_def r_def odd_iff_mod_2_eq_one)
  have d: "a * quantity - n = (if quantity < r * 2 \<or> (r * 2 = quantity \<and> odd q) then quantity - r else - r)"
    unfolding a using n(1) by (simp add: distrib_right)
  show "\<bar>2 * (a * quantity - gross * SCALE)\<bar> \<le> quantity"
    unfolding n_def[symmetric] d using n by auto
  show "even a" if "\<bar>2 * (a * quantity - gross * SCALE)\<bar> = quantity"
  proof -
    have "\<bar>2 * (if quantity < r * 2 \<or> (r * 2 = quantity \<and> odd q) then quantity - r else - r)\<bar> = quantity"
      using that unfolding n_def[symmetric] d .
    then have "r * 2 = quantity" using n(2,3) by (auto split: if_split_asm)
    then show ?thesis unfolding a using assms(1) by auto
  qed
qed

end
