(* ===== verification/PaperSamples.thy ===== *)
theory PaperSamples
  imports PaperMatching
begin

text \<open>
  A concrete paper account with a holding, two permits and two books, used to show that the
  hypotheses of the theorems about the ledger can hold together.
\<close>

definition p_hash :: "paper_artefact \<Rightarrow> string" where
  "p_hash a = ''sha256:h''"

definition p_btc :: instrument_id where
  "p_btc = \<lparr>i_base = ''BTC'', i_quote = ''USD'', i_venue = ''COINBASE'', i_class = Spot\<rparr>"

definition p_eth :: instrument_id where
  "p_eth = \<lparr>i_base = ''ETH'', i_quote = ''USD'', i_venue = ''COINBASE'', i_class = Spot\<rparr>"

definition p_usd :: "int \<Rightarrow> money" where
  "p_usd n = \<lparr>m_amount = Dec n 0, m_currency = ''USD''\<rparr>"

definition p_position :: position where
  "p_position = \<lparr>pos_instrument_id = p_eth, pos_quantity = \<lparr>q_value = Dec 2 0, q_asset = ''ETH''\<rparr>,
     pos_average_entry_price = Some \<lparr>p_value = Dec 40 0, p_base = ''ETH'', p_quote = ''USD''\<rparr>,
     pos_mark_price = Some \<lparr>p_value = Dec 50 0, p_base = ''ETH'', p_quote = ''USD''\<rparr>,
     pos_realized_pnl = p_usd 0, pos_unrealized_pnl = p_usd 20, pos_opened_at = Some 0, pos_network = None\<rparr>"

definition p_portfolio :: portfolio_snapshot where
  "p_portfolio = \<lparr>pf_workspace_id = ''ws'', pf_mode = Paper, pf_as_of = 900000, pf_base_currency = ''USD'',
     pf_cash = p_usd 900, pf_reserved_cash = p_usd 0, pf_positions = [p_position], pf_realized_pnl_today = p_usd 0,
     pf_unrealized_pnl = p_usd 20, pf_equity = p_usd 1000, pf_gross_exposure = p_usd 100, pf_net_exposure = p_usd 100,
     pf_peak_equity = p_usd 1000, pf_open_order_count = 0, pf_is_reconciled = True, pf_reconciled_at = Some 900000\<rparr>"

definition p_instrument :: "instrument_id \<Rightarrow> string \<Rightarrow> paper_instrument" where
  "p_instrument i network = \<lparr>pi_instrument_id = i, pi_quantity_step = Dec 1 (-3), pi_price_tick = Dec 1 (-2),
     pi_minimum_notional_usd = Dec 1 0, pi_network = network\<rparr>"

definition p_config :: paper_config where
  "p_config = \<lparr>pc_version = ''v1'', pc_latency_ms = 100, pc_max_market_age_ms = 5000,
     pc_instruments = [p_instrument p_btc ''bitcoin'', p_instrument p_eth ''ethereum'']\<rparr>"

definition p_execution :: risk_execution_policy where
  "p_execution = \<lparr>xp_execution_policy_id = ''x1'', xp_version = ''1'', xp_fee_bps = Dec 10 0, xp_slippage_bps = Dec 5 0,
     xp_notional_increment_usd = Dec 1 0, xp_max_snapshot_age_ms = 5000, xp_max_portfolio_age_ms = 5000,
     xp_max_reconciliation_age_ms = 5000, xp_max_market_age_ms = 5000, xp_max_approval_age_ms = 2000\<rparr>"

definition p_permit :: "string \<Rightarrow> instrument_id \<Rightarrow> order_side \<Rightarrow> decimal \<Rightarrow> decimal \<Rightarrow> decimal \<Rightarrow> paper_risk_permit" where
  "p_permit oid i side notional quantity debit =
     \<lparr>pp_account_id = ''acct'',
      pp_approval = \<lparr>ao_order_intent_id = oid, ao_risk_evaluation_id = ''r-'' @ oid, ao_workspace_id = ''ws'',
        ao_instrument_id = i, ao_mode = Paper, ao_side = side, ao_order_type = MarketOrder,
        ao_approved_notional = \<lparr>m_amount = notional, m_currency = ''USD''\<rparr>, ao_limit_price = None,
        ao_time_in_force = IOC, ao_client_order_id = ''c-'' @ oid, ao_fencing_token = 1, ao_approved_at = 950000,
        ao_expires_at = 9000000\<rparr>,
      pp_record = \<lparr>rd_evaluation = \<lparr>re_risk_evaluation_id = ''r-'' @ oid, re_order_intent_id = oid, re_decision_id = ''d'',
          re_workspace_id = ''ws'', re_evaluated_at = 950000, re_decision = DApproved, re_reason_codes = [R_APPROVED],
          re_applied_policy_ids = [''p1''], re_binding_scope = None,
          re_requested_notional = \<lparr>m_amount = notional, m_currency = ''USD''\<rparr>,
          re_approved_notional = \<lparr>m_amount = notional, m_currency = ''USD''\<rparr>\<rparr>,
        rd_account_id = ''acct'', rd_request_hash = ''h'', rd_portfolio_hash = ''sha256:h'', rd_registration_hash = ''h'',
        rd_controls_hash = ''h'', rd_reservations_hash = ''h'', rd_expires_at = 9000000,
        rd_max_quantity = \<lparr>q_value = quantity, q_asset = i_base i\<rparr>,
        rd_max_cash_debit = \<lparr>m_amount = debit, m_currency = ''USD''\<rparr>\<rparr>,
      pp_execution = p_execution\<rparr>"

text \<open>Buy for at most 50 USD, at most half a bitcoin and 50.05 USD of cash; sell one ether.\<close>

definition p_buy :: paper_risk_permit where
  "p_buy = p_permit ''o1'' p_btc Buy (Dec 50 0) (Dec 5 (-1)) (Dec 5005 (-2))"

definition p_sell :: paper_risk_permit where
  "p_sell = p_permit ''o2'' p_eth Sell (Dec 60 0) (Dec 1 0) (Dec 6 (-2))"

definition p_level :: "decimal \<Rightarrow> decimal \<Rightarrow> paper_level" where
  "p_level price quantity = \<lparr>lv_price = price, lv_quantity = quantity\<rparr>"

definition p_book :: "instrument_id \<Rightarrow> paper_level list \<Rightarrow> paper_level list \<Rightarrow> paper_book" where
  "p_book i bids asks = \<lparr>bk_instrument_id = i, bk_sequence = 1, bk_event_time = 1200000, bk_received_at = 1250000,
     bk_bids = bids, bk_asks = asks, bk_resync = False\<rparr>"

definition p_btc_book :: paper_book where
  "p_btc_book = p_book p_btc [p_level (Dec 999 (-1)) (Dec 4 0)] [p_level (Dec 100 0) (Dec 2 (-1)), p_level (Dec 1005 (-1)) (Dec 4 0)]"

definition p_eth_book :: paper_book where
  "p_eth_book = p_book p_eth [p_level (Dec 51 0) (Dec 4 (-1)), p_level (Dec 50 0) (Dec 3 0)] [p_level (Dec 52 0) (Dec 3 0)]"

definition p_submits :: "paper_command list" where
  "p_submits = [submit_command 1000000 p_buy, submit_command 1000000 p_sell]"

definition p_markets :: "paper_command list" where
  "p_markets = [market_command 1300000 p_btc_book [], market_command 1300000 p_eth_book []]"

definition p_cancels :: "paper_command list" where
  "p_cancels = [cancel_command 1400000 ''c-o1'']"

definition p_commands :: "paper_command list" where
  "p_commands = p_submits @ p_markets @ p_cancels"

definition the_ledger :: "paper_error + ledger \<Rightarrow> ledger" where
  "the_ledger r = (case r of Inr l \<Rightarrow> l | Inl e \<Rightarrow>
     \<lparr>ld_account_id = '''', ld_initial = p_portfolio, ld_config = p_config, ld_cash = 0, ld_peak = 0, ld_realized = [],
      ld_fees = 0, ld_holdings = [], ld_mark_times = [], ld_orders = [], ld_books = [], ld_healthy = [], ld_as_of = 0,
      ld_sealed = False\<rparr>)"

definition returns :: "'e + 'a \<Rightarrow> bool" where
  "returns r = (case r of Inr _ \<Rightarrow> True | Inl _ \<Rightarrow> False)"

lemma returns_ledger: "returns r \<Longrightarrow> r = Inr (the_ledger r)"
  by (simp add: returns_def the_ledger_def split: sum.splits)

definition p_start :: ledger where
  "p_start = the_ledger (ledger_init ''acct'' p_portfolio p_config)"

lemma p_valid: "portfolio_error p_portfolio = None" "paper_config_error p_config = None"
  by code_simp+

lemma p_start: "ledger_init ''acct'' p_portfolio p_config = Inr p_start"
  unfolding p_start_def by (rule returns_ledger) code_simp

lemma p_commands_valid: "list_all command_valid p_commands" "list_all command_valid p_submits"
  by code_simp+

end
