(* ===== verification/PaperProperties.thy ===== *)
theory PaperProperties
  imports PaperSamples
begin

text \<open>The properties of the paper ledger, each with a witness on the sample account.\<close>

section \<open>Runs from a constructed account\<close>

definition ledger_run :: "(paper_artefact \<Rightarrow> string) \<Rightarrow> string \<Rightarrow> portfolio_snapshot \<Rightarrow> paper_config \<Rightarrow> paper_command list \<Rightarrow>
    paper_error + ledger" where
  "ledger_run H account_id initial config cs =
     bindE (ledger_init account_id initial config) (\<lambda>l. runE (apply_command H) l cs)"

definition constructible_run :: "portfolio_snapshot \<Rightarrow> paper_config \<Rightarrow> paper_command list \<Rightarrow> bool" where
  "constructible_run initial config cs \<longleftrightarrow> portfolio_error initial = None \<and> paper_config_error config = None \<and>
     list_all command_valid cs"

lemma ledger_run_ok:
  assumes "ledger_run H account_id initial config cs = Inr l" "constructible_run initial config cs"
  shows "ledger_ok l"
  using assms
  by (auto simp: ledger_run_def constructible_run_def elim!: bindE_InrE intro: ledger_runs.run_inv[OF ledger_ok_init])

lemma run_reconciled:
  "ledger_ok l \<Longrightarrow> list_all command_valid cs \<Longrightarrow> runE (apply_command H) l cs = Inr l' \<Longrightarrow> reconciled_from l l'"
proof (induction cs arbitrary: l)
  case (Cons c cs l)
  obtain l1 where s: "apply_command H l c = Inr l1" "runE (apply_command H) l1 cs = Inr l'"
    using Cons.prems(3) by (auto elim!: bindE_InrE)
  have "reconciled_from l l1" using apply_reconciled Cons.prems(1,2) s(1) by auto
  moreover have "reconciled_from l1 l'"
    using Cons.IH[OF ledger_ok_apply[OF Cons.prems(1) _ s(1)] _ s(2)] Cons.prems(2) by simp
  ultimately show ?case by (simp add: reconciled_from_def)
qed (simp add: reconciled_from_def)

lemma run_closed_kept: "runE (apply_command H) l cs = Inr l' \<Longrightarrow> closed_kept l l'"
proof (induction cs arbitrary: l)
  case (Cons c cs l)
  obtain l1 where s: "apply_command H l c = Inr l1" "runE (apply_command H) l1 cs = Inr l'"
    using Cons.prems by (auto elim!: bindE_InrE)
  then show ?case using apply_closed_kept[OF s(1)] Cons.IH[OF s(2)] by (auto simp: closed_kept_def)
qed (simp add: closed_kept_def)

interpretation keeps_seal: ledger_steps H "\<lambda>l l'. ld_sealed l \<longrightarrow> ld_sealed l'" for H
  by unfold_locales (auto elim!: fill_stepE store_bookE settleE)

lemma run_sealed: "runE (apply_command H) l cs = Inr l' \<Longrightarrow> ld_sealed l \<Longrightarrow> ld_sealed l'"
proof (induction cs arbitrary: l)
  case (Cons c cs l)
  obtain l1 where s: "apply_command H l c = Inr l1" "runE (apply_command H) l1 cs = Inr l'"
    using Cons.prems(1) by (auto elim!: bindE_InrE)
  have "ld_sealed l \<longrightarrow> ld_sealed l1"
    by (rule keeps_seal.apply_R[OF s(1)]) (auto elim!: place_order_new)
  then show ?case using Cons.IH[OF s(2)] Cons.prems(2) by simp
qed simp

text \<open>The sample run, evaluated once.\<close>

definition sample_checks :: "ledger \<Rightarrow> bool" where
  "sample_checks l \<longleftrightarrow>
     ld_cash l = 900292773120000 \<and> ld_fees l = 100346880000 \<and> sum_basis l = 89976880000000 \<and> sum_realized l = 10269653120000 \<and>
     map (\<lambda>(cid, w). (cid, o_status (wo_order w), filled_units w)) (ld_orders l) =
       [(''c-o1'', Cancelled, 498000000000), (''c-o2'', Filled, 1000000000000)] \<and>
     held l ''BTC-USD.COINBASE'' = 498000000000 \<and> held l ''ETH-USD.COINBASE'' = 1000000000000 \<and> ld_sealed l"

definition is_closed :: "ledger \<Rightarrow> string \<Rightarrow> bool" where
  "is_closed l cid = (case map_of (ld_orders l) cid of None \<Rightarrow> False | Some w \<Rightarrow> \<not> is_open (o_status (wo_order w)))"

lemma p_checks:
  "case ledger_run p_hash ''acct'' p_portfolio p_config (p_submits @ p_markets) of Inl e \<Rightarrow> False
   | Inr m \<Rightarrow> is_closed m ''c-o1'' \<and>
      (case runE (apply_command p_hash) m p_cancels of Inl e \<Rightarrow> False | Inr l \<Rightarrow> sample_checks l)"
  by code_simp

definition p_mid :: ledger where
  "p_mid = the_ledger (ledger_run p_hash ''acct'' p_portfolio p_config (p_submits @ p_markets))"

definition p_final :: ledger where
  "p_final = the_ledger (runE (apply_command p_hash) p_mid p_cancels)"

lemma p_mid: "ledger_run p_hash ''acct'' p_portfolio p_config (p_submits @ p_markets) = Inr p_mid"
  unfolding p_mid_def
  by (rule returns_ledger) (use p_checks in \<open>auto simp: returns_def split: sum.splits\<close>)

lemma p_mid_final: "runE (apply_command p_hash) p_mid p_cancels = Inr p_final"
  unfolding p_final_def
  by (rule returns_ledger) (use p_checks p_mid in \<open>auto simp: returns_def split: sum.splits\<close>)

lemma p_final_sample: "sample_checks p_final" and p_mid_closed: "is_closed p_mid ''c-o1''"
  using p_checks by (simp_all add: p_mid p_mid_final)

lemma p_final_run: "runE (apply_command p_hash) p_start p_commands = Inr p_final"
  using p_mid p_mid_final by (auto simp: ledger_run_def p_start p_commands_def runE_append bindE_Inr_iff)

lemma p_final: "ledger_run p_hash ''acct'' p_portfolio p_config p_commands = Inr p_final"
  using p_final_run by (simp add: ledger_run_def p_start)

lemma p_constructible: "constructible_run p_portfolio p_config p_commands" "constructible_run p_portfolio p_config p_submits"
  using p_valid p_commands_valid by (simp_all add: constructible_run_def)

definition p_open :: ledger where
  "p_open = the_ledger (ledger_run p_hash ''acct'' p_portfolio p_config p_submits)"

definition p_after :: ledger where
  "p_after = the_ledger (market p_hash p_open p_btc_book 1300000 [])"

lemma p_open: "ledger_run p_hash ''acct'' p_portfolio p_config p_submits = Inr p_open"
  unfolding p_open_def by (rule returns_ledger) code_simp

lemma p_after: "market p_hash p_open p_btc_book 1300000 [] = Inr p_after"
  unfolding p_after_def by (rule returns_ledger) code_simp

section \<open>Properties\<close>

text \<open>
  C22. From an account that \<open>Ledger\<close> accepts, after any sequence of commands that returns, the cash
  covers what the open orders may still spend, every holding and its cost basis are non-negative, and
  the holdings cover what the open sells may still deliver.
\<close>

theorem paper_account_stays_covered:
  assumes "ledger_run H account_id initial config cs = Inr l" "constructible_run initial config cs"
  shows "(\<exists>reserved. reserved_cash l = Inr reserved \<and> 0 \<le> reserved \<and> reserved \<le> ld_cash l) \<and>
    (\<forall>key h. map_of (ld_holdings l) key = Some h \<longrightarrow> 0 \<le> h_quantity h \<and> 0 \<le> h_basis h) \<and>
    (\<forall>key. total_of (sell_of key) l \<le> held l key)"
proof -
  have ok: "ledger_ok l" by (rule ledger_run_ok[OF assms])
  then show ?thesis
    using reserved_cash_total[OF ok] ledger_ok_cash(1)[OF ok] by (simp add: ledger_ok_def)
qed

theorem paper_account_stays_covered_witness:
  "(\<exists>reserved. reserved_cash p_open = Inr reserved \<and> 0 \<le> reserved \<and> reserved \<le> ld_cash p_open) \<and>
   total_of (sell_of ''ETH-USD.COINBASE'') p_open \<le> held p_open ''ETH-USD.COINBASE''"
  using paper_account_stays_covered[OF p_open p_constructible(2)] by blast

text \<open>
  C23. Every order of a reachable ledger stays inside its permit: it is on the permit's side and
  instrument, its filled quantity is at most the quantity ceiling, its gross at most the approved
  notional and its cash debit at most the cash ceiling.
\<close>

theorem orders_stay_within_permit:
  assumes "ledger_run H account_id initial config cs = Inr l" "constructible_run initial config cs"
    and "map_of (ld_orders l) cid = Some w"
  shows "o_side (wo_order w) = ao_side (pp_approval (wo_permit w)) \<and>
    o_instrument_id (wo_order w) = ao_instrument_id (pp_approval (wo_permit w)) \<and>
    0 \<le> filled_units w \<and> filled_units w \<le> max 0 (units0 (q_value (rd_max_quantity (pp_record (wo_permit w))))) \<and>
    0 \<le> wo_gross w \<and> wo_gross w \<le> units0 (m_amount (ao_approved_notional (pp_approval (wo_permit w)))) \<and>
    0 \<le> wo_debit w \<and> wo_debit w \<le> units0 (m_amount (rd_max_cash_debit (pp_record (wo_permit w))))"
proof -
  have "worder_ok cid w" using ledger_run_ok[OF assms(1,2)] assms(3) by (simp add: ledger_ok_def)
  then show ?thesis
    unfolding approved_units_def[symmetric] cash_ceiling_def[symmetric] worder_ok_def Let_def by linarith
qed

lemma p_final_order: "\<exists>w. map_of (ld_orders p_final) ''c-o1'' = Some w \<and> filled_units w = 498000000000"
proof -
  have "map (\<lambda>(cid, w). (cid, filled_units w)) (ld_orders p_final) = [(''c-o1'', 498000000000), (''c-o2'', 1000000000000)]"
    using p_final_sample by (auto simp: sample_checks_def map_eq_Cons_conv)
  then show ?thesis by (auto simp: map_eq_Cons_conv)
qed

theorem orders_stay_within_permit_witness:
  "\<exists>w. map_of (ld_orders p_final) ''c-o1'' = Some w \<and> filled_units w = 498000000000 \<and>
     filled_units w \<le> max 0 (units0 (q_value (rd_max_quantity (pp_record (wo_permit w)))))"
  using p_final_order orders_stay_within_permit[OF p_final p_constructible(1)] by blast

text \<open>
  C24. In a reachable ledger no command raises \<open>cash_invariant\<close> or \<open>position_invariant\<close>: the checks of
  \<open>_fill_level\<close> on cash and holdings cannot fail.
\<close>

theorem invariant_errors_unreachable:
  assumes "ledger_run H account_id initial config cs = Inr l" "constructible_run initial config cs"
  shows "apply_command H l c \<noteq> Inl CashInvariant \<and> apply_command H l c \<noteq> Inl PositionInvariant"
  using no_breach_apply[OF ledger_run_ok[OF assms]] by (simp add: no_breach_def)

theorem invariant_errors_unreachable_witness:
  "apply_command p_hash p_open (market_command 1300000 p_btc_book []) \<noteq> Inl CashInvariant"
  using invariant_errors_unreachable[OF p_open p_constructible(2)] by blast

text \<open>
  The books balance: no sequence of commands changes cash plus cost basis less realized profit,
  nor the difference between the realized profit of the positions and that of the days.
\<close>

theorem books_stay_balanced:
  assumes "runE (apply_command H) l cs = Inr l'"
  shows "ld_cash l' + sum_basis l' - sum_realized l' = ld_cash l + sum_basis l - sum_realized l \<and>
    sum_position_pnl l' - sum_realized l' = sum_position_pnl l - sum_realized l"
  using ledger_books.run_conserves[OF assms] by (simp add: books_def)

text \<open>
  In a reachable ledger each holding is the initial holding plus the bought less the sold
  quantity of the orders on the instrument, and the fees of the ledger are those of its orders.
\<close>

theorem holdings_match_fills:
  assumes "ledger_init account_id initial config = Inr l0" "constructible_run initial config cs"
    and "runE (apply_command H) l0 cs = Inr l"
  shows "held l key = held l0 key + total_of (net_of key) l \<and> ld_fees l = total_of order_fees l"
proof -
  have "ledger_ok l0" "list_all command_valid cs"
    using assms(2) ledger_ok_init[OF assms(1)] by (auto simp: constructible_run_def)
  then have "reconciled_from l0 l" "ledger_ok l0" using run_reconciled assms(3) by blast+
  moreover have "total_of f l0 = 0" for f using assms(1) by (auto elim!: ledger_initE simp: total_of_def)
  moreover have "ld_fees l0 = 0"
    using assms(1) by (auto simp: ledger_init_def Let_def elim!: bindE_InrE split: option.splits if_split_asm)
  ultimately show ?thesis unfolding reconciled_from_def by (metis add.commute diff_add_cancel diff_zero)
qed

text \<open>
  A closed order never changes: whatever commands follow, it keeps its status, fills, fees,
  gross and debit.
\<close>

theorem closed_orders_never_change:
  assumes "runE (apply_command H) l cs = Inr l'" "map_of (ld_orders l) cid = Some w" "\<not> is_open (o_status (wo_order w))"
  shows "map_of (ld_orders l') cid = Some w"
  using run_closed_kept[OF assms(1)] assms(2,3) by (simp add: closed_kept_def order_open_def)

text \<open>
  A market event settles what is due: of the orders of a reachable ledger, each that is open on
  the instrument of the book and whose approval has expired or whose latency has passed is closed when
  the event returns, and every other order is exactly as it was.
\<close>

theorem due_orders_close:
  assumes "ledger_run H account_id initial config cs = Inr l" "constructible_run initial config cs"
    and "market H l book now blocked = Inr l'" "map_of (ld_orders l) cid = Some w"
  shows "if due (ld_config l) w book now
     then \<exists>w'. map_of (ld_orders l') cid = Some w' \<and> is_terminal (o_status (wo_order w'))
     else map_of (ld_orders l') cid = Some w"
proof -
  have ok: "ledger_ok l" by (rule ledger_run_ok[OF assms(1,2)])
  have "ledger_ok l'" using keeps_ok.market_R[OF assms(3)] ok by blast
  then have terminal: "is_terminal (o_status (wo_order v))" if "map_of (ld_orders l') cid = Some v" "\<not> order_open v" for v
    using that status_partition[of "o_status (wo_order v)"] by (auto simp: ledger_ok_def worder_ok_def Let_def order_open_def)
  have "distinct (map fst (ld_orders l))" using ok by (simp add: ledger_ok_def)
  from market_effect[OF assms(3) this assms(4)] show ?thesis
    using terminal by (auto simp: closed_in_def simp del: is_terminal.simps split: if_splits)
qed

text \<open>
  What a market event fills on one side is at most the depth the book displays on that side,
  whatever number of orders compete for it.
\<close>

theorem fills_within_displayed_depth:
  assumes "ledger_run H account_id initial config cs = Inr l" "constructible_run initial config cs"
    and "book_error book = None" "market H l book now blocked = Inr l'"
    and "quantities_of (if side = Buy then bk_asks book else bk_bids book) = Inr qs"
  shows "total_of (filled_on side) l' - total_of (filled_on side) l \<le> sum_list qs"
  by (rule market_within_depth[OF assms(4) ledger_run_ok[OF assms(1,2)] assms(3,5)])

text \<open>
  The bisection of \<open>_fill_level\<close> is exact: no larger number of lots within the remaining target
  and the displayed depth passes the notional and cash ceilings of the permit.
\<close>

theorem fill_size_is_largest:
  assumes "fill_lots w lot price fee_bps available = Inr lots"
    and "units (q_value (o_filled_quantity (wo_order w))) = Some filled"
      "units (m_amount (ao_approved_notional (pp_approval (wo_permit w)))) = Some approved"
      "units (m_amount (rd_max_cash_debit (pp_record (wo_permit w)))) = Some max_debit"
    and "0 < lot" "0 < price" "0 \<le> fee_bps" "0 \<le> available" "filled \<le> wo_target w"
    and "lots < j" "j * lot \<le> wo_target w - filled" "j * lot \<le> available"
  shows "fill_allowed (fill_context_of w lot price fee_bps approved max_debit) j \<noteq> Inr True"
  by (rule fill_lots_largest[OF assms])

text \<open>
  The execution price is conservative and on the tick: a buy pays at least the level price with
  slippage and less than one tick more, a sell receives at most the level price less slippage and
  lacks less than one tick.
\<close>

theorem fill_price_is_conservative:
  assumes "0 < tick"
  shows "tick dvd fill_price side raw_price slip tick \<and>
    (if side = Buy
     then raw_price * (BPS_DENOMINATOR + slip) \<le> fill_price side raw_price slip tick * BPS_DENOMINATOR \<and>
       fill_price side raw_price slip tick * BPS_DENOMINATOR < raw_price * (BPS_DENOMINATOR + slip) + tick * BPS_DENOMINATOR
     else fill_price side raw_price slip tick * BPS_DENOMINATOR \<le> raw_price * (BPS_DENOMINATOR - slip) \<and>
       raw_price * (BPS_DENOMINATOR - slip) < fill_price side raw_price slip tick * BPS_DENOMINATOR + tick * BPS_DENOMINATOR)"
  using fill_price_bounds(1-4)[OF assms, of raw_price slip] fill_price_bounds(5)[OF assms, where side = side and raw_price = raw_price and slip = slip]
  by (cases side) simp_all

text \<open>
  \<open>average\<close> rounds to the nearest fixed-point price and a tie to the even one.
\<close>

theorem average_rounds_half_even:
  assumes "0 < quantity"
  shows "\<exists>a. average gross quantity = Inr a \<and> \<bar>2 * (a * quantity - gross * SCALE)\<bar> \<le> quantity \<and>
    (\<bar>2 * (a * quantity - gross * SCALE)\<bar> = quantity \<longrightarrow> even a)"
proof -
  obtain a where a: "average gross quantity = Inr a" using assms by (auto simp: average_def Let_def)
  show ?thesis using average_half_even[OF assms a] a by blast
qed

text \<open>
  A new generation keeps the accounting and drops the orders: it is granted only when every
  order is closed and every mark is fresh, it leaves cash, holdings, realized profit and fees alone,
  and later permits have to name the snapshot it was opened with.
\<close>

theorem generation_carries_books:
  assumes "begin_generation l now = Inr l'"
  shows "ld_cash l' = ld_cash l \<and> ld_holdings l' = ld_holdings l \<and> ld_realized l' = ld_realized l \<and> ld_fees l' = ld_fees l \<and>
    ld_orders l' = [] \<and> \<not> ld_sealed l' \<and> (\<forall>(cid, w) \<in> set (ld_orders l). \<not> order_open w) \<and>
    pf_is_reconciled (ld_initial l') \<and>
    (rd_portfolio_hash (pp_record permit) \<noteq> risk_hash H (HPortfolio (ld_initial l')) \<longrightarrow>
       submit H l' permit at' = Inl InvalidPaperIssuance)"
proof (rule begin_generationE[OF assms], intro conjI)
qed (auto simp: submit_def issuance_invalid_def Let_def)

text \<open>
  Once matching has begun the batch is sealed: whatever commands follow, every further
  submission is refused with \<open>batch_sealed\<close>.
\<close>

theorem sealed_batch_refuses:
  assumes "ld_sealed l" "runE (apply_command H) l cs = Inr l'"
  shows "submit H l' permit now = Inl BatchSealed"
  using run_sealed[OF assms(2,1)] by (simp add: submit_def Let_def)

end
