(* ===== verification/PaperVenue.thy ===== *)
theory PaperVenue
  imports PaperLedger RiskSession
begin

text \<open>
  \<open>kavrigo_paper/account.py\<close>: the journal of one local account and the broker view over it. The venue
  shares the risk session of the account, so the session is a field of its state. An operation that
  raises keeps what it had changed, so operations return the new venue with an error or a value.

  Parameters: \<open>H\<close> is \<open>content_hash\<close>, \<open>bytes\<close> is the length of the JSON encoding of an artefact. The round
  trip through JSON in \<open>detached\<close> returns an equal object and is the identity here. A clock reading is
  an argument, \<open>None\<close> a naive datetime; \<open>readings\<close> are those of the rechecks of the risk session, by
  intent. The lock and the telemetry are not modelled: each operation runs alone.
\<close>

section \<open>Artefacts and hashes\<close>

datatype exported =
    XPortfolio portfolio_snapshot | XConfig paper_config | XState paper_account_state
  | XReplay paper_replay | XPermit paper_risk_permit | XBook paper_book | XOrder order

definition MAX_ARTIFACT_BYTES :: int where
  "MAX_ARTIFACT_BYTES = 10000000"

definition detached :: "('x \<Rightarrow> int) \<Rightarrow> ('a \<Rightarrow> 'x) \<Rightarrow> 'a \<Rightarrow> paper_error + 'a" where
  "detached bytes kind x = (if MAX_ARTIFACT_BYTES < bytes (kind x) then Inl InvalidPaperArtifact else Inr x)"

definition entry_hash :: "(paper_artefact \<Rightarrow> string) \<Rightarrow> journal_entry \<Rightarrow> string" where
  "entry_hash H e = H (PEntry (e\<lparr>je_entry_hash := ''''\<rparr>))"

definition header_hash :: "(paper_artefact \<Rightarrow> string) \<Rightarrow> string \<Rightarrow> portfolio_snapshot \<Rightarrow> paper_config \<Rightarrow> string" where
  "header_hash H account_id initial config = H (PHeader account_id initial config)"

section \<open>Replay\<close>

fun replay_entries ::
    "(paper_artefact \<Rightarrow> string) \<Rightarrow> int \<Rightarrow> string \<Rightarrow> ledger \<Rightarrow> journal_entry list \<Rightarrow> paper_error + ledger" where
  "replay_entries H sequence previous l [] = Inr l"
| "replay_entries H sequence previous l (e # es) =
     (if je_sequence e \<noteq> sequence \<or> je_previous_hash e \<noteq> previous \<or> je_entry_hash e \<noteq> entry_hash H e
      then Inl JournalIntegrityError
      else
        bindE (apply_command H l (je_command e)) (\<lambda>l'.
        bindE (snapshot l') (\<lambda>s.
        if H (PState s) \<noteq> je_state_hash e then Inl JournalStateMismatch
        else replay_entries H (sequence + 1) (je_entry_hash e) l' es)))"

definition replay ::
    "(paper_artefact \<Rightarrow> string) \<Rightarrow> (exported \<Rightarrow> int) \<Rightarrow> paper_replay \<Rightarrow> paper_error + paper_account_state" where
  "replay H bytes bundle =
     bindE (detached bytes XReplay bundle) (\<lambda>bundle.
     bindE (ledger_init (bu_account_id bundle) (bu_initial_portfolio bundle) (bu_config bundle)) (\<lambda>l.
     bindE (replay_entries H 1 (header_hash H (bu_account_id bundle) (bu_initial_portfolio bundle) (bu_config bundle)) l
       (bu_entries bundle)) (\<lambda>l.
     bindE (snapshot l) (\<lambda>s. detached bytes XState s))))"

section \<open>LocalPaperVenue\<close>

record paper_venue =
  vn_initial :: portfolio_snapshot
  vn_config :: paper_config
  vn_ledger :: ledger
  vn_risk :: risk_session
  vn_capacity :: int
  vn_entries :: "journal_entry list"
  vn_intents :: "(string \<times> string) list"
  vn_market_keys :: "((string \<times> int) \<times> string) list"
  vn_last_now :: datetime

datatype venue_error = VenuePaper paper_error | VenueRisk gate_error

type_synonym 'a venue_outcome = "paper_venue \<times> (venue_error + 'a)"

definition venue_do :: "'a venue_outcome \<Rightarrow> (paper_venue \<Rightarrow> 'a \<Rightarrow> 'b venue_outcome) \<Rightarrow> 'b venue_outcome" where
  "venue_do r f = (case r of (v, Inl e) \<Rightarrow> (v, Inl e) | (v, Inr x) \<Rightarrow> f v x)"

declare venue_do_def [code_unfold]

text \<open>A computation of the ledger or of \<open>detached\<close>, which leaves the venue as it is.\<close>

definition venue_lift :: "paper_venue \<Rightarrow> paper_error + 'a \<Rightarrow> 'a venue_outcome" where
  "venue_lift v r = (v, case r of Inl e \<Rightarrow> Inl (VenuePaper e) | Inr x \<Rightarrow> Inr x)"

definition refuse :: "paper_venue \<Rightarrow> paper_error \<Rightarrow> 'a venue_outcome" where
  "refuse v e = (v, Inl (VenuePaper e))"

definition venue_init ::
    "(exported \<Rightarrow> int) \<Rightarrow> string \<Rightarrow> string \<Rightarrow> portfolio_snapshot \<Rightarrow> paper_config \<Rightarrow> risk_session \<Rightarrow> int \<Rightarrow> paper_error + paper_venue" where
  "venue_init bytes environment account_id initial config risk capacity =
     (if environment \<noteq> ''local'' then Inl PaperSimulatorIsLocalOnly
      else if \<not> (1 \<le> capacity \<and> capacity \<le> 1000) then Inl InvalidJournalCapacity
      else
        bindE (detached bytes XPortfolio initial) (\<lambda>initial.
        bindE (detached bytes XConfig config) (\<lambda>config.
        bindE (ledger_init account_id initial config) (\<lambda>l.
        bindE (snapshot l) (\<lambda>_.
        Inr \<lparr>vn_initial = initial, vn_config = config, vn_ledger = l, vn_risk = risk, vn_capacity = capacity,
             vn_entries = [], vn_intents = [], vn_market_keys = [], vn_last_now = pf_as_of initial\<rparr>)))))"

definition venue_now :: "paper_venue \<Rightarrow> datetime option \<Rightarrow> datetime venue_outcome" where
  "venue_now v reading =
     (case reading of None \<Rightarrow> refuse v PaperInvalidClock
      | Some now \<Rightarrow> if now < vn_last_now v then refuse v PaperClockMovedBackwards
                    else (v\<lparr>vn_last_now := now\<rparr>, Inr now))"

definition venue_full :: "paper_venue \<Rightarrow> bool" where
  "venue_full v \<longleftrightarrow> vn_capacity v \<le> int (length (vn_entries v))"

definition venue_bundle :: "paper_venue \<Rightarrow> paper_replay" where
  "venue_bundle v = \<lparr>bu_account_id = ld_account_id (vn_ledger v), bu_initial_portfolio = vn_initial v,
     bu_config = vn_config v, bu_entries = vn_entries v\<rparr>"

text \<open>Lines 128-137: the entry of a command, chained to the one before it.\<close>

definition previous_hash :: "(paper_artefact \<Rightarrow> string) \<Rightarrow> paper_venue \<Rightarrow> string" where
  "previous_hash H v = (if vn_entries v = [] then header_hash H (ld_account_id (vn_ledger v)) (vn_initial v) (vn_config v)
     else je_entry_hash (last (vn_entries v)))"

definition next_entry ::
    "(paper_artefact \<Rightarrow> string) \<Rightarrow> paper_venue \<Rightarrow> paper_command \<Rightarrow> paper_account_state \<Rightarrow> journal_entry" where
  "next_entry H v c s =
     (let e = \<lparr>je_sequence = int (length (vn_entries v)) + 1, je_previous_hash = previous_hash H v, je_command = c,
               je_state_hash = H (PState s), je_entry_hash = ''''\<rparr>
      in e\<lparr>je_entry_hash := entry_hash H e\<rparr>)"

text \<open>Lines 126-145: what a command would commit.\<close>

definition prepare ::
    "(paper_artefact \<Rightarrow> string) \<Rightarrow> (exported \<Rightarrow> int) \<Rightarrow> paper_venue \<Rightarrow> paper_command \<Rightarrow> paper_error + (ledger \<times> journal_entry)" where
  "prepare H bytes v c =
     bindE (apply_command H (vn_ledger v) c) (\<lambda>l.
     bindE (snapshot l) (\<lambda>s.
     bindE (detached bytes XState s) (\<lambda>s.
     let e = next_entry H v c s in
     if MAX_ARTIFACT_BYTES < bytes (XReplay ((venue_bundle v)\<lparr>bu_entries := vn_entries v @ [e]\<rparr>))
     then Inl JournalSizeExhausted else Inr (l, e))))"

definition record_intent :: "paper_command \<Rightarrow> (string \<times> string) list \<Rightarrow> (string \<times> string) list" where
  "record_intent c d = (case cm_permit c of None \<Rightarrow> d
     | Some p \<Rightarrow> AList.update (ao_order_intent_id (pp_approval p)) (ao_client_order_id (pp_approval p)) d)"

definition market_key :: "paper_book \<Rightarrow> string \<times> int" where
  "market_key book = (i_value (bk_instrument_id book), bk_sequence book)"

definition record_book ::
    "(paper_artefact \<Rightarrow> string) \<Rightarrow> paper_command \<Rightarrow> ((string \<times> int) \<times> string) list \<Rightarrow> ((string \<times> int) \<times> string) list" where
  "record_book H c d = (case cm_book c of None \<Rightarrow> d | Some b \<Rightarrow> AList.update (market_key b) (H (PBook b)) d)"

definition commit ::
    "(paper_artefact \<Rightarrow> string) \<Rightarrow> (exported \<Rightarrow> int) \<Rightarrow> paper_venue \<Rightarrow> paper_command \<Rightarrow> unit venue_outcome" where
  "commit H bytes v c =
     (if venue_full v then refuse v JournalCapacityExhausted
      else (case prepare H bytes v c of
              Inl e \<Rightarrow> refuse v e
            | Inr (l, e) \<Rightarrow> (v\<lparr>vn_ledger := l, vn_entries := vn_entries v @ [e], vn_intents := record_intent c (vn_intents v),
                              vn_market_keys := record_book H c (vn_market_keys v)\<rparr>, Inr ())))"

text \<open>\<open>detached(self._ledger.orders[cid].order)\<close>\<close>

definition order_result :: "(exported \<Rightarrow> int) \<Rightarrow> paper_venue \<Rightarrow> string \<Rightarrow> order venue_outcome" where
  "order_result bytes v cid =
     (case map_of (ld_orders (vn_ledger v)) cid of None \<Rightarrow> refuse v PKeyError
      | Some w \<Rightarrow> venue_lift v (detached bytes XOrder (wo_order w)))"

text \<open>Lines 172-182: the handoff of the risk session and the submission.\<close>

definition submit_issued ::
    "(paper_artefact \<Rightarrow> string) \<Rightarrow> (exported \<Rightarrow> int) \<Rightarrow> paper_venue \<Rightarrow> string \<Rightarrow> string \<Rightarrow> int \<Rightarrow> datetime option \<Rightarrow>
     datetime option \<Rightarrow> order option venue_outcome" where
  "submit_issued H bytes v workspace_id oid token risk_reading reading =
     (case handoff (risk_hash H) (vn_risk v) workspace_id oid token risk_reading of
        (risk, Inl e) \<Rightarrow> (v\<lparr>vn_risk := risk\<rparr>, Inl (VenueRisk e))
      | (risk, Inr None) \<Rightarrow> (v\<lparr>vn_risk := risk\<rparr>, Inr None)
      | (risk, Inr (Some permit)) \<Rightarrow>
          venue_do (venue_now (v\<lparr>vn_risk := risk\<rparr>) reading) (\<lambda>v1 now.
          venue_do (venue_lift v1 (detached bytes XPermit permit)) (\<lambda>v2 permit.
          venue_do (commit H bytes v2 (submit_command now permit)) (\<lambda>v3 _.
          venue_do (order_result bytes v3 (ao_client_order_id (pp_approval permit))) (\<lambda>v4 o'. (v4, Inr (Some o')))))))"

definition venue_submit ::
    "(paper_artefact \<Rightarrow> string) \<Rightarrow> (exported \<Rightarrow> int) \<Rightarrow> paper_venue \<Rightarrow> string \<Rightarrow> string \<Rightarrow> int \<Rightarrow> datetime option \<Rightarrow>
     datetime option \<Rightarrow> datetime option \<Rightarrow> order option venue_outcome" where
  "venue_submit H bytes v workspace_id oid token reading1 risk_reading reading2 =
     (if workspace_id \<noteq> pf_workspace_id (vn_initial v) then refuse v PaperWorkspaceMismatch
      else (case map_of (vn_intents v) oid of
        Some cid \<Rightarrow> venue_do (order_result bytes v cid) (\<lambda>v1 o'. (v1, Inr (Some o')))
      | None \<Rightarrow>
          if venue_full v then refuse v JournalCapacityExhausted
          else if ld_sealed (vn_ledger v) then refuse v BatchSealed
          else venue_do (venue_lift v (snapshot (vn_ledger v))) (\<lambda>v1 s.
            if \<not> pf_is_reconciled (ps_portfolio s) then refuse v1 ReconciliationRequired
            else venue_do (venue_now v1 reading1) (\<lambda>v2 _.
              submit_issued H bytes v2 workspace_id oid token risk_reading reading2))))"

definition open_commands ::
    "paper_venue \<Rightarrow> paper_book \<Rightarrow> (string \<Rightarrow> datetime option) \<Rightarrow> (string \<times> int \<times> datetime option) list" where
  "open_commands v book readings =
     map (\<lambda>(cid, w). (o_order_intent_id (wo_order w), ao_fencing_token (pp_approval (wo_permit w)),
                      readings (o_order_intent_id (wo_order w))))
       (filter (\<lambda>(cid, w). order_open w \<and> o_instrument_id (wo_order w) = bk_instrument_id book) (ld_orders (vn_ledger v)))"

text \<open>Lines 195-205: the risk session rechecks what is open, then the event is committed.\<close>

definition observe_guarded ::
    "(paper_artefact \<Rightarrow> string) \<Rightarrow> (exported \<Rightarrow> int) \<Rightarrow> paper_venue \<Rightarrow> string \<Rightarrow> paper_book \<Rightarrow> datetime \<Rightarrow>
     (string \<Rightarrow> datetime option) \<Rightarrow> unit venue_outcome" where
  "observe_guarded H bytes v workspace_id book now readings =
     (case execution_guard (risk_hash H) (vn_risk v) workspace_id (open_commands v book readings) of
        (risk, Inl e) \<Rightarrow> (v\<lparr>vn_risk := risk\<rparr>, Inl (VenueRisk e))
      | (risk, Inr blocked) \<Rightarrow> commit H bytes (v\<lparr>vn_risk := risk\<rparr>) (market_command now book blocked))"

definition venue_observe ::
    "(paper_artefact \<Rightarrow> string) \<Rightarrow> (exported \<Rightarrow> int) \<Rightarrow> paper_venue \<Rightarrow> string \<Rightarrow> paper_book \<Rightarrow> datetime option \<Rightarrow>
     (string \<Rightarrow> datetime option) \<Rightarrow> unit venue_outcome" where
  "venue_observe H bytes v workspace_id book reading readings =
     venue_do (venue_lift v (detached bytes XBook book)) (\<lambda>v book.
     if workspace_id \<noteq> pf_workspace_id (vn_initial v) then refuse v PaperWorkspaceMismatch
     else (case map_of (vn_market_keys v) (market_key book) of
        Some h \<Rightarrow> if h \<noteq> H (PBook book) then refuse v MarketIdempotencyConflict else (v, Inr ())
      | None \<Rightarrow>
          if venue_full v then refuse v JournalCapacityExhausted
          else venue_do (venue_now v reading) (\<lambda>v1 now. observe_guarded H bytes v1 workspace_id book now readings)))"

definition venue_cancel ::
    "(paper_artefact \<Rightarrow> string) \<Rightarrow> (exported \<Rightarrow> int) \<Rightarrow> paper_venue \<Rightarrow> string \<Rightarrow> string \<Rightarrow> datetime option \<Rightarrow> order venue_outcome" where
  "venue_cancel H bytes v workspace_id cid reading =
     (if workspace_id \<noteq> pf_workspace_id (vn_initial v) then refuse v PaperWorkspaceMismatch
      else (case map_of (ld_orders (vn_ledger v)) cid of None \<Rightarrow> refuse v UnknownOrder
      | Some w \<Rightarrow>
          if order_open w
          then venue_do (venue_now v reading) (\<lambda>v1 now.
               venue_do (commit H bytes v1 (cancel_command now cid)) (\<lambda>v2 _. order_result bytes v2 cid))
          else order_result bytes v cid))"

definition export_replay ::
    "(exported \<Rightarrow> int) \<Rightarrow> paper_venue \<Rightarrow> string \<Rightarrow> paper_replay venue_outcome" where
  "export_replay bytes v workspace_id =
     (if workspace_id \<noteq> pf_workspace_id (vn_initial v) then refuse v PaperWorkspaceMismatch
      else venue_lift v (detached bytes XReplay (venue_bundle v)))"

definition venue_read ::
    "(exported \<Rightarrow> int) \<Rightarrow> paper_venue \<Rightarrow> string \<Rightarrow> (int \<times> paper_account_state) venue_outcome" where
  "venue_read bytes v workspace_id =
     (if workspace_id \<noteq> pf_workspace_id (vn_initial v) then refuse v PaperWorkspaceMismatch
      else venue_lift v (bindE (snapshot (vn_ledger v)) (\<lambda>s.
             bindE (detached bytes XState s) (\<lambda>s. Inr (int (length (vn_entries v)), s)))))"

definition venue_reconcile ::
    "(paper_artefact \<Rightarrow> string) \<Rightarrow> (exported \<Rightarrow> int) \<Rightarrow> paper_venue \<Rightarrow> string \<Rightarrow> datetime option \<Rightarrow>
     (int \<times> paper_account_state \<times> datetime) venue_outcome" where
  "venue_reconcile H bytes v workspace_id reading =
     venue_do (export_replay bytes v workspace_id) (\<lambda>v bundle.
     venue_do (venue_lift v (replay H bytes bundle)) (\<lambda>v state.
     venue_do (venue_lift v (snapshot (vn_ledger v))) (\<lambda>v current.
     if H (PState state) \<noteq> H (PState current) then refuse v SimulatorReconciliationMismatch
     else venue_do (venue_now v reading) (\<lambda>v now. (v, Inr (int (length (vn_entries v)), state, now))))))"

section \<open>LocalPaperBroker\<close>

record paper_broker =
  br_workspace_id :: string
  br_sequence :: int
  br_state :: paper_account_state
  br_connected :: bool

text \<open>What a broker that is disconnected or behind shows: open orders as unknown, nothing reconciled.\<close>

definition unknown_order :: "order \<Rightarrow> order" where
  "unknown_order o' = (if is_open (o_status o') then o'\<lparr>o_status := UnknownStatus\<rparr> else o')"

definition uncertain :: "paper_account_state \<Rightarrow> paper_account_state" where
  "uncertain s = s\<lparr>ps_orders := map unknown_order (ps_orders s),
     ps_portfolio := (ps_portfolio s)\<lparr>pf_is_reconciled := False\<rparr>\<rparr>"

definition broker_open :: "(exported \<Rightarrow> int) \<Rightarrow> paper_venue \<Rightarrow> string \<Rightarrow> venue_error + paper_broker" where
  "broker_open bytes v workspace_id =
     (case snd (venue_read bytes v workspace_id) of Inl e \<Rightarrow> Inl e
      | Inr (sequence, s) \<Rightarrow> Inr \<lparr>br_workspace_id = workspace_id, br_sequence = sequence, br_state = s, br_connected = True\<rparr>)"

definition broker_state :: "(exported \<Rightarrow> int) \<Rightarrow> paper_broker \<Rightarrow> paper_venue \<Rightarrow> venue_error + paper_account_state" where
  "broker_state bytes b v =
     bindE (snd (venue_read bytes v (br_workspace_id b))) (\<lambda>(sequence, _).
     let s = (if br_connected b \<and> sequence = br_sequence b then br_state b else uncertain (br_state b)) in
     snd (venue_lift v (detached bytes XState s)))"

text \<open>An operation of the broker returns the broker, the venue and an error or a value.\<close>

type_synonym 'a broker_outcome = "paper_broker \<times> paper_venue \<times> (venue_error + 'a)"

definition broker_ack :: "(exported \<Rightarrow> int) \<Rightarrow> paper_broker \<Rightarrow> paper_venue \<Rightarrow> bool \<Rightarrow> venue_error + paper_broker" where
  "broker_ack bytes b v acknowledge =
     (if \<not> acknowledge \<or> \<not> br_connected b then Inl (VenuePaper PaperDeliveryUnknown)
      else bindE (snd (venue_read bytes v (br_workspace_id b))) (\<lambda>(sequence, s).
           Inr (b\<lparr>br_sequence := sequence, br_state := s, br_connected := True\<rparr>)))"

text \<open>The common tail: any exception disconnects the view.\<close>

definition broker_deliver ::
    "(exported \<Rightarrow> int) \<Rightarrow> paper_broker \<Rightarrow> 'a venue_outcome \<Rightarrow> bool \<Rightarrow> 'a broker_outcome" where
  "broker_deliver bytes b outcome acknowledge =
     (case outcome of
        (v, Inl e) \<Rightarrow> (b\<lparr>br_connected := False\<rparr>, v, Inl e)
      | (v, Inr x) \<Rightarrow> (case broker_ack bytes b v acknowledge of
            Inl e \<Rightarrow> (b\<lparr>br_connected := False\<rparr>, v, Inl e)
          | Inr b' \<Rightarrow> (b', v, Inr x)))"

definition broker_submit ::
    "(paper_artefact \<Rightarrow> string) \<Rightarrow> (exported \<Rightarrow> int) \<Rightarrow> paper_broker \<Rightarrow> paper_venue \<Rightarrow> string \<Rightarrow> int \<Rightarrow> bool \<Rightarrow>
     datetime option \<Rightarrow> datetime option \<Rightarrow> datetime option \<Rightarrow> order option broker_outcome" where
  "broker_submit H bytes b v oid token acknowledge reading1 risk_reading reading2 =
     (case broker_state bytes b v of Inl e \<Rightarrow> (b, v, Inl e)
      | Inr s \<Rightarrow>
          if \<not> pf_is_reconciled (ps_portfolio s) then (b, v, Inl (VenuePaper ReconciliationRequired))
          else broker_deliver bytes b
            (venue_submit H bytes v (br_workspace_id b) oid token reading1 risk_reading reading2) acknowledge)"

definition broker_observe ::
    "(paper_artefact \<Rightarrow> string) \<Rightarrow> (exported \<Rightarrow> int) \<Rightarrow> paper_broker \<Rightarrow> paper_venue \<Rightarrow> paper_book \<Rightarrow> bool \<Rightarrow>
     datetime option \<Rightarrow> (string \<Rightarrow> datetime option) \<Rightarrow> unit broker_outcome" where
  "broker_observe H bytes b v book acknowledge reading readings =
     broker_deliver bytes b (venue_observe H bytes v (br_workspace_id b) book reading readings) acknowledge"

definition broker_cancel ::
    "(paper_artefact \<Rightarrow> string) \<Rightarrow> (exported \<Rightarrow> int) \<Rightarrow> paper_broker \<Rightarrow> paper_venue \<Rightarrow> string \<Rightarrow> bool \<Rightarrow> datetime option \<Rightarrow>
     order broker_outcome" where
  "broker_cancel H bytes b v cid acknowledge reading =
     broker_deliver bytes b (venue_cancel H bytes v (br_workspace_id b) cid reading) acknowledge"

definition fill_ids :: "paper_account_state \<Rightarrow> string list" where
  "fill_ids s = concat (map (\<lambda>o'. map f_fill_id (o_fills o')) (ps_orders s))"

definition broker_reconcile ::
    "(paper_artefact \<Rightarrow> string) \<Rightarrow> (exported \<Rightarrow> int) \<Rightarrow> paper_broker \<Rightarrow> paper_venue \<Rightarrow> datetime option \<Rightarrow>
     paper_reconciliation broker_outcome" where
  "broker_reconcile H bytes b v reading =
     (case venue_reconcile H bytes v (br_workspace_id b) reading of
        (v', Inl e) \<Rightarrow> (b, v', Inl e)
      | (v', Inr (sequence, s, now)) \<Rightarrow>
          (b\<lparr>br_sequence := sequence, br_state := s, br_connected := True\<rparr>, v',
           Inr \<lparr>rn_sequence = sequence,
                rn_discovered_fill_ids = filter (\<lambda>i. i \<notin> set (fill_ids (br_state b))) (fill_ids s),
                rn_state_hash = H (PState s), rn_reconciled_at = now\<rparr>))"

end
