(* ===== verification/PaperJournal.thy ===== *)
theory PaperJournal
  imports PaperVenue PaperMatching RiskSessionTheorems
begin

text \<open>
  The venue as a state machine: every operation, whether it returns or raises, is a sequence of clock
  readings, changes of the risk session and commits. Its invariant says that the journal replays to the
  ledger, and that every order carries the permit the risk session recorded for its intent.
\<close>

declare map_of_eq_Some_iff [simp del] Some_eq_map_of_iff [simp del]

section \<open>What a command keeps of the ledger\<close>

definition same_account :: "ledger \<Rightarrow> ledger \<Rightarrow> bool" where
  "same_account l l' \<longleftrightarrow> ld_account_id l' = ld_account_id l \<and> ld_config l' = ld_config l \<and> ld_initial l' = ld_initial l \<and>
     (\<forall>cid w. map_of (ld_orders l) cid = Some w \<longrightarrow> (\<exists>w'. map_of (ld_orders l') cid = Some w' \<and>
        wo_permit w' = wo_permit w \<and> o_order_intent_id (wo_order w') = o_order_intent_id (wo_order w)))"

lemma same_account_refl [simp]: "same_account l l"
  by (simp add: same_account_def)

lemma same_account_put:
  assumes "map_of (ld_orders l) cid = Some w" "wo_permit w' = wo_permit w"
    "o_order_intent_id (wo_order w') = o_order_intent_id (wo_order w)"
  shows "same_account l (put_order l cid w')"
  using assms by (auto simp: same_account_def update_conv)

lemma same_account_frame:
  "ld_account_id l' = ld_account_id l \<Longrightarrow> ld_config l' = ld_config l \<Longrightarrow> ld_initial l' = ld_initial l \<Longrightarrow>
   ld_orders l' = ld_orders l \<Longrightarrow> same_account l l'"
  by (simp add: same_account_def)

lemma same_account_trans: "same_account l l1 \<Longrightarrow> same_account l1 l2 \<Longrightarrow> same_account l l2"
  unfolding same_account_def by metis

interpretation keeps_account: ledger_steps H same_account for H
proof
  show "same_account l l'" if "fill_step H l cid book now quantity l'" for l cid book now quantity l'
    using that
  proof cases
    case (step w settings price fee gross filled approved max_debit l1 index w')
    have s: "same_account l l1" "ld_orders l1 = ld_orders l"
      using step(16) by (auto elim!: settleE simp: same_account_frame)
    have "same_account l1 (put_order l1 cid w')"
      using step(2,17) s(2) by (auto elim!: record_fillE intro: same_account_put)
    then show ?thesis using s(1) step(1) same_account_trans by blast
  qed
  show "same_account l l2" if "same_account l l1" "same_account l1 l2" for l l1 l2
    using that by (rule same_account_trans)
qed (auto elim!: with_statusE store_bookE intro: same_account_put same_account_frame)

lemma submit_same_account:
  assumes "submit H l permit now = Inr l'"
  obtains w where "same_account l l'" "map_of (ld_orders l') (ao_client_order_id (pp_approval permit)) = Some w"
    "wo_permit w = permit" "o_order_intent_id (wo_order w) = ao_order_intent_id (pp_approval permit)"
    "\<And>cid. cid \<noteq> ao_client_order_id (pp_approval permit) \<Longrightarrow> map_of (ld_orders l') cid = map_of (ld_orders l) cid"
proof -
  let ?cid = "ao_client_order_id (pp_approval permit)"
  obtain w where w: "map_of (ld_orders l) ?cid = None" "l' = put_order l ?cid w" "wo_permit w = permit"
      "o_order_intent_id (wo_order w) = ao_order_intent_id (pp_approval permit)"
    using assms
    by (auto elim!: submitE place_orderE with_statusE simp: issuance_invalid_def Let_def new_order_def split: if_split_asm)
  have "same_account l l'" using w(1,2) by (auto simp: same_account_def update_conv)
  then show ?thesis using that w by (simp add: update_conv)
qed

lemma apply_same_account:
  assumes "apply_command H l c = Inr l'"
  shows "same_account l l'"
proof (rule keeps_account.apply_R[OF assms])
  show "same_account l l1" if "submit H l permit (cm_at c) = Inr l1" for permit l1
    using that by (rule submit_same_account)
qed (simp add: same_account_frame)

text \<open>The orders of a ledger after a command: the old ones, and the one of its permit.\<close>

definition permits_from :: "(paper_risk_permit \<Rightarrow> bool) \<Rightarrow> ledger \<Rightarrow> bool" where
  "permits_from P l \<longleftrightarrow> (\<forall>cid w. map_of (ld_orders l) cid = Some w \<longrightarrow> P (wo_permit w))"

interpretation keeps_permits: ledger_steps H "\<lambda>l l'. permits_from P l \<longrightarrow> permits_from P l'" for H P
proof
  show "permits_from P l \<longrightarrow> permits_from P l'" if "fill_step H l cid book now quantity l'" for l cid book now quantity l'
    using that by (auto elim!: fill_stepE simp: permits_from_def update_conv settle_orders dest: record_fill_active(4) split: if_split_asm)
  show "permits_from P l \<longrightarrow> permits_from P (put_order l cid w')"
    if "map_of (ld_orders l) cid = Some w" "with_status w status now reason = Inr w'" for l cid w status now reason w'
  proof -
    have "wo_permit w' = wo_permit w" using that(2) by (auto elim!: with_statusE)
    then show ?thesis using that(1) by (simp add: permits_from_def update_conv)
  qed
  show "permits_from P l \<longrightarrow> permits_from P l'" if "store_book l book healthy = Inr l'" for l book healthy l'
    using store_orders[OF that] by (simp add: permits_from_def)
  show "permits_from P l \<longrightarrow> permits_from P (l\<lparr>ld_sealed := True\<rparr>)" for l by (simp add: permits_from_def)
qed blast+

lemma apply_permits:
  assumes "apply_command H l c = Inr l'" "permits_from P l" "\<And>permit. cm_permit c = Some permit \<Longrightarrow> P permit"
  shows "permits_from P l'"
proof -
  have "permits_from P l \<longrightarrow> permits_from P l'"
  proof (rule keeps_permits.apply_R[OF assms(1)])
    show "permits_from P l \<longrightarrow> permits_from P l1"
      if c: "cm_permit c = Some permit" and sub: "submit H l permit (cm_at c) = Inr l1" for permit l1
    proof
      assume p: "permits_from P l"
      obtain w where w: "map_of (ld_orders l1) (ao_client_order_id (pp_approval permit)) = Some w" "wo_permit w = permit"
        "\<And>cid. cid \<noteq> ao_client_order_id (pp_approval permit) \<Longrightarrow> map_of (ld_orders l1) cid = map_of (ld_orders l) cid"
        using submit_same_account[OF sub] by metis
      show "permits_from P l1"
        unfolding permits_from_def
      proof (intro allI impI)
        fix cid v assume v: "map_of (ld_orders l1) cid = Some v"
        show "P (wo_permit v)"
          using v w p assms(3)[OF c] by (cases "cid = ao_client_order_id (pp_approval permit)") (auto simp: permits_from_def)
      qed
    qed
  qed (simp add: permits_from_def)
  then show ?thesis using assms(2) by blast
qed

section \<open>The changes of a venue\<close>

definition issued :: "risk_session \<Rightarrow> paper_risk_permit \<Rightarrow> bool" where
  "issued s p \<longleftrightarrow> (\<exists>e. map_of (ss_entries s) (ao_order_intent_id (pp_approval p)) = Some e \<and> en_issued_permit e = Some p \<and>
     pp_record p = en_record e \<and> ao_instrument_id (pp_approval p) = oi_instrument_id (rq_intent (en_request e)) \<and>
     approved_intent_error (pp_approval p) = None)"

inductive venue_change ::
    "(paper_artefact \<Rightarrow> string) \<Rightarrow> (exported \<Rightarrow> int) \<Rightarrow> paper_venue \<Rightarrow> paper_venue \<Rightarrow> bool" for H bytes where
  clock: "vn_last_now v \<le> now \<Longrightarrow> venue_change H bytes v (v\<lparr>vn_last_now := now\<rparr>)"
| risk: "changes (risk_hash H) (vn_risk v) r \<Longrightarrow> venue_change H bytes v (v\<lparr>vn_risk := r\<rparr>)"
| commits: "commit H bytes v c = (v', Inr ()) \<Longrightarrow> command_error c = None \<Longrightarrow>
     (\<forall>p. cm_permit c = Some p \<longrightarrow> issued (vn_risk v) p \<and> map_of (vn_intents v) (ao_order_intent_id (pp_approval p)) = None) \<Longrightarrow>
     (\<forall>b. cm_book c = Some b \<longrightarrow> map_of (vn_market_keys v) (market_key b) = None) \<Longrightarrow> venue_change H bytes v v'"

abbreviation venue_changes :: "(paper_artefact \<Rightarrow> string) \<Rightarrow> (exported \<Rightarrow> int) \<Rightarrow> paper_venue \<Rightarrow> paper_venue \<Rightarrow> bool" where
  "venue_changes H bytes \<equiv> (venue_change H bytes)\<^sup>*\<^sup>*"

lemma venue_changes_trans: "venue_changes H bytes v v1 \<Longrightarrow> venue_changes H bytes v1 v2 \<Longrightarrow> venue_changes H bytes v v2"
  by (rule rtranclp_trans)

lemma commit_cases:
  assumes "commit H bytes v c = (v', r)"
  obtains (raised) e where "v' = v" "r = Inl (VenuePaper e)"
  | (committed) l e where "prepare H bytes v c = Inr (l, e)" "r = Inr ()" "\<not> venue_full v"
      "v' = v\<lparr>vn_ledger := l, vn_entries := vn_entries v @ [e], vn_intents := record_intent c (vn_intents v),
              vn_market_keys := record_book H c (vn_market_keys v)\<rparr>"
  using assms by (auto simp: commit_def refuse_def split: if_split_asm sum.splits)

lemma venue_now_cases:
  assumes "venue_now v reading = (v', r)"
  obtains (raised) e where "v' = v" "r = Inl (VenuePaper e)"
  | (read) now where "reading = Some now" "v' = v\<lparr>vn_last_now := now\<rparr>" "r = Inr now" "vn_last_now v \<le> now"
  using assms by (auto simp: venue_now_def refuse_def not_less split: option.splits if_split_asm)

lemma venue_now_changes: "venue_now v reading = (v', r) \<Longrightarrow> venue_changes H bytes v v'"
  by (erule venue_now_cases) (auto intro: venue_change.clock)

lemma venue_do_changes:
  assumes "venue_changes H bytes v (fst m)" "\<And>v1 x. m = (v1, Inr x) \<Longrightarrow> venue_changes H bytes v1 (fst (f v1 x))"
  shows "venue_changes H bytes v (fst (venue_do m f))"
  using assms by (cases m) (auto simp: venue_do_def split: sum.splits intro: venue_changes_trans)

lemma venue_lift_simps [simp]: "fst (venue_lift v r) = v" "fst (refuse v e) = v" "snd (refuse v e) = Inl (VenuePaper e)"
  by (simp_all add: venue_lift_def refuse_def)

lemma venue_lift_Inr [simp]: "venue_lift v r = (v', Inr x) \<longleftrightarrow> v' = v \<and> r = Inr x"
  by (auto simp: venue_lift_def split: sum.splits)

lemma order_result_fst [simp]: "fst (order_result bytes v cid) = v"
  by (simp add: order_result_def split: option.split)

lemma venue_now_fst_changes: "venue_changes H bytes v (fst (venue_now v reading))"
  by (cases "venue_now v reading") (auto dest: venue_now_changes)

lemma commit_fst_changes:
  assumes "command_error c = None" "\<And>p. cm_permit c = Some p \<Longrightarrow> issued (vn_risk v) p \<and> map_of (vn_intents v) (ao_order_intent_id (pp_approval p)) = None"
    "\<And>b. cm_book c = Some b \<Longrightarrow> map_of (vn_market_keys v) (market_key b) = None"
  shows "venue_changes H bytes v (fst (commit H bytes v c))"
proof -
  obtain v' r where c: "commit H bytes v c = (v', r)" by fastforce
  show ?thesis
    using c
  proof (cases rule: commit_cases)
    case (committed l e)
    then have "venue_change H bytes v v'" using c assms by (intro venue_change.commits[of H bytes v c]) auto
    then show ?thesis using c by auto
  qed (use c in simp)
qed

text \<open>What a handoff that returns a permit leaves in the risk session.\<close>

lemma handoff_issued:
  assumes h: "handoff H s ws oid token reading = (t, Inr (Some p))" and ok: "session_ok H s"
  shows "issued t p" "ao_order_intent_id (pp_approval p) = oid"
proof -
  obtain e now where e: "map_of (ss_entries s) oid = Some e" "pp_record p = en_record e" "pp_approval p = make_approval H ws e token now"
      "map_of (ss_entries t) oid = Some (e\<lparr>en_terminal_handoff := True, en_issued_permit := Some p\<rparr>)"
      "approved_intent_error (pp_approval p) = None"
    using handoff_permit[OF h] by blast
  have "oi_order_intent_id (rq_intent (en_request e)) = oid" using ok e(1) by (simp add: session_ok_def entries_ok_def entry_ok_def)
  then show "ao_order_intent_id (pp_approval p) = oid" using e(3) by (simp add: make_approval_def Let_def)
  then show "issued t p" using e by (simp add: issued_def make_approval_def Let_def)
qed

lemma submit_issued_changes:
  assumes new: "map_of (vn_intents v) oid = None" and ok: "session_ok (risk_hash H) (vn_risk v)"
  shows "venue_changes H bytes v (fst (submit_issued H bytes v ws oid token r1 r2))"
proof -
  obtain risk r where h: "handoff (risk_hash H) (vn_risk v) ws oid token r1 = (risk, r)" by fastforce
  have risk: "venue_changes H bytes v (v\<lparr>vn_risk := risk\<rparr>)"
    using venue_change.risk[of H v risk bytes] handoff_changes[of "risk_hash H" "vn_risk v" ws oid token r1] h by auto
  show ?thesis
  proof (cases "\<exists>p. r = Inr (Some p)")
    case False
    then show ?thesis using h risk by (auto simp: submit_issued_def split: sum.splits option.splits)
  next
    case True
    then obtain p where p: "r = Inr (Some p)" by blast
    note i = handoff_issued[OF h[unfolded p] ok]
    have "venue_changes H bytes (v\<lparr>vn_risk := risk\<rparr>) (fst (submit_issued H bytes v ws oid token r1 r2))"
      using h p i new
      by (auto simp: submit_issued_def submit_command_def detached_def elim!: venue_now_cases
          intro!: venue_do_changes venue_now_fst_changes commit_fst_changes commands_well_shaped[unfolded submit_command_def]
          split: if_split_asm)
    then show ?thesis using risk venue_changes_trans by blast
  qed
qed

lemma venue_submit_changes:
  assumes ok: "session_ok (risk_hash H) (vn_risk v)"
  shows "venue_changes H bytes v (fst (venue_submit H bytes v ws oid token r1 r2 r3))"
proof -
  have issue: "venue_changes H bytes v1 (fst (submit_issued H bytes v1 ws' oid token r2 r3))"
    if "venue_now v r1 = (v1, Inr now)" "map_of (vn_intents v) oid = None" for v1 now ws'
    using that ok by (auto elim!: venue_now_cases intro: submit_issued_changes)
  show ?thesis
    by (auto simp: venue_submit_def intro!: venue_do_changes venue_now_fst_changes issue split: option.split)
qed

lemma observe_guarded_changes:
  assumes "map_of (vn_market_keys v) (market_key book) = None"
  shows "venue_changes H bytes v (fst (observe_guarded H bytes v ws book now readings))"
proof -
  obtain risk x where g: "execution_guard (risk_hash H) (vn_risk v) ws (open_commands v book readings) = (risk, x)" by fastforce
  have risk: "venue_changes H bytes v (v\<lparr>vn_risk := risk\<rparr>)"
    using venue_change.risk[of H v risk bytes] execution_guard_changes[of "risk_hash H" "vn_risk v" ws "open_commands v book readings"] g
    by auto
  have "venue_changes H bytes (v\<lparr>vn_risk := risk\<rparr>) (fst (commit H bytes (v\<lparr>vn_risk := risk\<rparr>) (market_command now book blocked)))" for blocked
    using assms by (intro commit_fst_changes commands_well_shaped) (auto simp: market_command_def)
  then show ?thesis using g risk venue_changes_trans by (auto simp: observe_guarded_def split: sum.split)
qed

lemma venue_observe_changes: "venue_changes H bytes v (fst (venue_observe H bytes v ws book r readings))"
  by (auto simp: venue_observe_def detached_def intro!: venue_do_changes venue_now_fst_changes observe_guarded_changes
      split: option.split if_split_asm elim!: venue_now_cases)

lemma venue_cancel_changes: "venue_changes H bytes v (fst (venue_cancel H bytes v ws cid r))"
  by (auto simp: venue_cancel_def cancel_command_def split: option.split
      intro!: venue_do_changes venue_now_fst_changes commit_fst_changes commands_well_shaped[unfolded cancel_command_def])

lemma venue_reconcile_changes: "venue_changes H bytes v (fst (venue_reconcile H bytes v ws r))"
  by (auto simp: venue_reconcile_def export_replay_def intro!: venue_do_changes venue_now_fst_changes split: if_split_asm)

section \<open>Runs\<close>

text \<open>
  A venue is shared by its broker views and by the callers of its risk session; \<open>call\<close> is any operation
  any of them may run next.
\<close>

datatype venue_call =
    CallSubmit string string int "datetime option" "datetime option" "datetime option"
  | CallObserve string paper_book "datetime option" "string \<Rightarrow> datetime option"
  | CallCancel string string "datetime option"
  | CallReconcile string "datetime option"
  | CallRisk session_command

definition venue_step ::
    "(paper_artefact \<Rightarrow> string) \<Rightarrow> (exported \<Rightarrow> int) \<Rightarrow> (risk_request \<Rightarrow> bool) \<Rightarrow> paper_venue \<Rightarrow> venue_call \<Rightarrow> paper_venue" where
  "venue_step H bytes fits v call =
     (case call of
        CallSubmit ws oid token r1 r2 r3 \<Rightarrow> fst (venue_submit H bytes v ws oid token r1 r2 r3)
      | CallObserve ws book r readings \<Rightarrow> fst (venue_observe H bytes v ws book r readings)
      | CallCancel ws cid r \<Rightarrow> fst (venue_cancel H bytes v ws cid r)
      | CallReconcile ws r \<Rightarrow> fst (venue_reconcile H bytes v ws r)
      | CallRisk c \<Rightarrow> v\<lparr>vn_risk := fst (session_step (risk_hash H) fits (vn_risk v) c)\<rparr>)"

definition venue_run ::
    "(paper_artefact \<Rightarrow> string) \<Rightarrow> (exported \<Rightarrow> int) \<Rightarrow> (risk_request \<Rightarrow> bool) \<Rightarrow> paper_venue \<Rightarrow> venue_call list \<Rightarrow> paper_venue" where
  "venue_run H bytes fits v calls = foldl (venue_step H bytes fits) v calls"

section \<open>The invariant\<close>

definition journal_ok :: "(paper_artefact \<Rightarrow> string) \<Rightarrow> (exported \<Rightarrow> int) \<Rightarrow> paper_venue \<Rightarrow> bool" where
  "journal_ok H bytes v \<longleftrightarrow>
     (\<exists>l. ledger_init (ld_account_id (vn_ledger v)) (vn_initial v) (vn_config v) = Inr l \<and>
        replay_entries H 1 (header_hash H (ld_account_id (vn_ledger v)) (vn_initial v) (vn_config v)) l (vn_entries v) = Inr (vn_ledger v)) \<and>
     (vn_entries v \<noteq> [] \<longrightarrow> bytes (XReplay (venue_bundle v)) \<le> MAX_ARTIFACT_BYTES \<and>
        (\<exists>s. snapshot (vn_ledger v) = Inr s \<and> bytes (XState s) \<le> MAX_ARTIFACT_BYTES))"

definition intents_ok :: "paper_venue \<Rightarrow> bool" where
  "intents_ok v \<longleftrightarrow> (\<forall>oid cid. map_of (vn_intents v) oid = Some cid \<longrightarrow>
     (\<exists>w. map_of (ld_orders (vn_ledger v)) cid = Some w \<and> o_order_intent_id (wo_order w) = oid))"

definition venue_inv :: "(paper_artefact \<Rightarrow> string) \<Rightarrow> (exported \<Rightarrow> int) \<Rightarrow> paper_venue \<Rightarrow> bool" where
  "venue_inv H bytes v \<longleftrightarrow> session_ok (risk_hash H) (vn_risk v) \<and> journal_ok H bytes v \<and> intents_ok v \<and>
     permits_from (issued (vn_risk v)) (vn_ledger v)"

lemma replay_entries_append:
  "replay_entries H n prev l (es @ fs) =
     bindE (replay_entries H n prev l es) (\<lambda>l'. replay_entries H (n + int (length es))
       (if es = [] then prev else je_entry_hash (last es)) l' fs)"
proof (induction es arbitrary: n prev l)
  case (Cons x es n prev l)
  show ?case
  proof (cases "je_sequence x \<noteq> n \<or> je_previous_hash x \<noteq> prev \<or> je_entry_hash x \<noteq> entry_hash H x")
    case False
    then show ?thesis
      by (cases "apply_command H l (je_command x)"; cases "snapshot (projr (apply_command H l (je_command x)))"; cases "es = []")
        (auto simp: Cons.IH algebra_simps)
  qed auto
qed simp

lemma entry_hash_set [simp]: "entry_hash H (e\<lparr>je_entry_hash := h\<rparr>) = entry_hash H e"
  by (simp add: entry_hash_def)

lemma issued_change: "change H s t \<Longrightarrow> entries_ok H s \<Longrightarrow> issued s p \<Longrightarrow> issued t p"
proof (induction rule: change.induct)
  case (evaluated s request oid registration now result res)
  have "map_of (ss_entries s) oid = None" by (rule fresh_entry(2)[OF evaluated.prems(1) evaluated(1)])
  then show ?case using evaluated.prems(2) by (auto simp: issued_def update_conv)
next
  case (refused s oid e)
  then show ?case by (auto simp: issued_def update_conv entries_ok_def entry_ok_def)
next
  case (issued s oid e permit)
  then show ?case by (auto simp: PaperJournal.issued_def update_conv entries_ok_def entry_ok_def)
qed (auto simp: issued_def)

lemma issued_changes: "changes H s t \<Longrightarrow> session_ok H s \<Longrightarrow> issued s p \<Longrightarrow> issued t p"
proof (induction rule: rtranclp_induct)
  case (step t u)
  have "entries_ok H t" using risk_gate.changes_inv[OF step.hyps(1) step.prems(1)] by (simp add: session_ok_def)
  then show ?case using issued_change[OF step.hyps(2)] step.IH step.prems by blast
qed simp

lemma prepareE:
  assumes "prepare H bytes v c = Inr (l, e)"
  obtains s where "apply_command H (vn_ledger v) c = Inr l" "snapshot l = Inr s" "bytes (XState s) \<le> MAX_ARTIFACT_BYTES"
    "e = next_entry H v c s" "bytes (XReplay ((venue_bundle v)\<lparr>bu_entries := vn_entries v @ [e]\<rparr>)) \<le> MAX_ARTIFACT_BYTES"
  using assms by (auto simp: prepare_def detached_def Let_def not_less elim!: bindE_InrE split: if_split_asm)

lemma journal_ok_commit:
  assumes ok: "journal_ok H bytes v" and c: "commit H bytes v c = (v', Inr ())"
  shows "journal_ok H bytes v'"
  using c
proof (cases rule: commit_cases)
  case (committed l e)
  obtain s where p: "apply_command H (vn_ledger v) c = Inr l" "snapshot l = Inr s" "bytes (XState s) \<le> MAX_ARTIFACT_BYTES"
    "e = next_entry H v c s" "bytes (XReplay ((venue_bundle v)\<lparr>bu_entries := vn_entries v @ [e]\<rparr>)) \<le> MAX_ARTIFACT_BYTES"
    by (rule prepareE[OF committed(1)])
  let ?a = "ld_account_id (vn_ledger v)"
  let ?h = "header_hash H ?a (vn_initial v) (vn_config v)"
  obtain l0 where l0: "ledger_init ?a (vn_initial v) (vn_config v) = Inr l0" "replay_entries H 1 ?h l0 (vn_entries v) = Inr (vn_ledger v)"
    using ok by (auto simp: journal_ok_def)
  have a: "ld_account_id l = ?a" using apply_same_account[OF p(1)] by (simp add: same_account_def)
  have e: "je_sequence e = int (length (vn_entries v)) + 1" "je_previous_hash e = previous_hash H v" "je_command e = c"
    "je_state_hash e = H (PState s)" "je_entry_hash e = entry_hash H e"
    by (simp_all add: p(4) next_entry_def Let_def entry_hash_def)
  have "replay_entries H (1 + int (length (vn_entries v))) (previous_hash H v) (vn_ledger v) [e] = Inr l"
    using e p(1,2) by simp
  then have "replay_entries H 1 ?h l0 (vn_entries v @ [e]) = Inr l"
    using l0(2) by (simp add: replay_entries_append previous_hash_def split: if_split_asm)
  then show ?thesis
    using l0(1) p(2,3,5) by (simp add: journal_ok_def committed(4) a venue_bundle_def)
qed simp

lemma apply_submitE:
  assumes "apply_command H l c = Inr l'" "command_error c = None" "cm_permit c = Some permit"
  obtains l1 peak where "submit H l permit (cm_at c) = Inr l1" "l' = l1\<lparr>ld_as_of := cm_at c, ld_peak := peak\<rparr>"
proof -
  have "cm_kind c = KSubmit" using assms(2,3) by (cases "cm_kind c") (auto simp: command_error_def split: if_split_asm)
  then show ?thesis
    using that assms(1,3) by (auto simp: apply_command_def apply_body_def Let_def elim!: bindE_InrE split: if_split_asm)
qed

lemma intents_ok_commit:
  assumes ok: "intents_ok v" and c: "commit H bytes v c = (v', Inr ())" and shape: "command_error c = None"
  shows "intents_ok v'"
  using c
proof (cases rule: commit_cases)
  case (committed l e)
  have a: "apply_command H (vn_ledger v) c = Inr l" using committed(1) by (auto elim: prepareE)
  note same = apply_same_account[OF a]
  show ?thesis
    unfolding intents_ok_def
  proof (intro allI impI)
    fix oid cid assume m: "map_of (vn_intents v') oid = Some cid"
    show "\<exists>w. map_of (ld_orders (vn_ledger v')) cid = Some w \<and> o_order_intent_id (wo_order w) = oid"
    proof (cases "map_of (vn_intents v) oid = Some cid")
      case True
      then obtain w where "map_of (ld_orders (vn_ledger v)) cid = Some w" "o_order_intent_id (wo_order w) = oid"
        using ok by (auto simp: intents_ok_def)
      then show ?thesis using same committed(4) by (force simp: same_account_def)
    next
      case False
      then obtain permit where p: "cm_permit c = Some permit" "oid = ao_order_intent_id (pp_approval permit)"
          "cid = ao_client_order_id (pp_approval permit)"
        using m committed(4) by (auto simp: record_intent_def update_conv split: option.splits if_split_asm)
      obtain l1 peak where s: "submit H (vn_ledger v) permit (cm_at c) = Inr l1" "l = l1\<lparr>ld_as_of := cm_at c, ld_peak := peak\<rparr>"
        by (rule apply_submitE[OF a shape p(1)])
      obtain w where "map_of (ld_orders l1) cid = Some w" "o_order_intent_id (wo_order w) = oid"
        using submit_same_account[OF s(1)] p by metis
      then show ?thesis using s(2) committed(4) by simp
    qed
  qed
qed (use ok in simp)

lemma venue_change_inv:
  assumes "venue_change H bytes v v'" "venue_inv H bytes v"
  shows "venue_inv H bytes v'"
  using assms
proof cases
  case (clock now)
  then show ?thesis using assms(2)
    by (simp add: venue_inv_def journal_ok_def intents_ok_def venue_bundle_def)
next
  case (risk r)
  have "session_ok (risk_hash H) r" using risk_gate.changes_inv risk(2) assms(2) by (auto simp: venue_inv_def)
  moreover have "permits_from (issued r) (vn_ledger v)"
    using assms(2) issued_changes[OF risk(2)] by (auto simp: venue_inv_def permits_from_def)
  ultimately show ?thesis using assms(2) risk(1)
    by (simp add: venue_inv_def journal_ok_def intents_ok_def venue_bundle_def)
next
  case (commits c)
  have ok: "session_ok (risk_hash H) (vn_risk v)" "journal_ok H bytes v" "intents_ok v" "permits_from (issued (vn_risk v)) (vn_ledger v)"
    using assms(2) by (simp_all add: venue_inv_def)
  obtain l e where l: "prepare H bytes v c = Inr (l, e)" "vn_ledger v' = l" "vn_risk v' = vn_risk v"
    using commits(1) by (cases rule: commit_cases) auto
  have "apply_command H (vn_ledger v) c = Inr l" using l(1) by (auto elim: prepareE)
  then have "permits_from (issued (vn_risk v)) l" using apply_permits[OF _ ok(4)] commits(3) by blast
  then show ?thesis
    using ok(1) l(2,3) journal_ok_commit[OF ok(2) commits(1)] intents_ok_commit[OF ok(3) commits(1,2)]
    by (simp add: venue_inv_def)
qed

lemma venue_changes_inv: "venue_changes H bytes v v' \<Longrightarrow> venue_inv H bytes v \<Longrightarrow> venue_inv H bytes v'"
  by (induction rule: rtranclp_induct) (auto intro: venue_change_inv)

text \<open>The journal only grows, and what was recorded of intents and books stays.\<close>

definition venue_extends :: "paper_venue \<Rightarrow> paper_venue \<Rightarrow> bool" where
  "venue_extends v v' \<longleftrightarrow> (\<exists>es. vn_entries v' = vn_entries v @ es) \<and> vn_initial v' = vn_initial v \<and> vn_config v' = vn_config v \<and>
     vn_capacity v' = vn_capacity v \<and> vn_last_now v \<le> vn_last_now v' \<and>
     (\<forall>oid cid. map_of (vn_intents v) oid = Some cid \<longrightarrow> map_of (vn_intents v') oid = Some cid) \<and>
     (\<forall>k h. map_of (vn_market_keys v) k = Some h \<longrightarrow> map_of (vn_market_keys v') k = Some h)"

lemma venue_change_extends: "venue_change H bytes v v' \<Longrightarrow> venue_extends v v'"
proof (induction rule: venue_change.induct)
  case (commits v c v')
  show ?case
    using commits(1)
  proof (cases rule: commit_cases)
    case (committed l e)
    then show ?thesis using commits(3,4)
      by (auto simp: venue_extends_def record_intent_def record_book_def update_conv split: option.split)
  qed simp
qed (auto simp: venue_extends_def)

lemma venue_changes_extends: "venue_changes H bytes v v' \<Longrightarrow> venue_extends v v'"
proof (induction rule: rtranclp_induct)
  case (step v1 v2)
  then show ?case using venue_change_extends[OF step.hyps(2)] by (fastforce simp: venue_extends_def)
qed (auto simp: venue_extends_def)

lemma venue_step_changes:
  assumes "venue_inv H bytes v"
  shows "venue_changes H bytes v (venue_step H bytes fits v call)"
proof (cases call)
  case (CallRisk c)
  then show ?thesis
    using venue_change.risk[OF session_step_changes[of "risk_hash H" "vn_risk v" fits c], of bytes] by (auto simp: venue_step_def)
qed (use assms venue_submit_changes in \<open>auto simp: venue_step_def venue_inv_def venue_observe_changes venue_cancel_changes venue_reconcile_changes\<close>)

lemma venue_run_changes: "venue_inv H bytes v \<Longrightarrow> venue_changes H bytes v (venue_run H bytes fits v calls)"
proof (induction calls arbitrary: v)
  case (Cons c calls v)
  have s: "venue_changes H bytes v (venue_step H bytes fits v c)" by (rule venue_step_changes[OF Cons.prems])
  show ?case
    using venue_changes_trans[OF s Cons.IH[OF venue_changes_inv[OF s Cons.prems]]] by (simp add: venue_run_def)
qed (simp add: venue_run_def)

lemma venue_init_inv:
  assumes i: "venue_init bytes environment account_id initial config risk capacity = Inr v"
    and r: "session_ok (risk_hash H) risk"
  shows "venue_inv H bytes v"
proof -
  obtain l where l: "ledger_init account_id initial config = Inr l" "vn_ledger v = l" "vn_initial v = initial" "vn_config v = config"
      "vn_risk v = risk" "vn_entries v = []" "vn_intents v = []"
    using i by (auto simp: venue_init_def detached_def elim!: bindE_InrE split: if_split_asm)
  have "ld_orders l = []" "ld_account_id l = account_id" using l(1) by (auto elim: ledger_initE)
  then show ?thesis
    using r l by (simp add: venue_inv_def journal_ok_def intents_ok_def permits_from_def)
qed

end
