(* ===== verification/PaperBroker.thy ===== *)
theory PaperBroker
  imports PaperJournal PaperProperties
begin

text \<open>
  The broker view over the venue: what replay and reconciliation return on a reachable venue, the
  invariant that a cached view is exact while the journal has not grown, and the accounting invariant of
  the ledger carried through the runs of the venue.
\<close>

section \<open>Versioned sources\<close>

text \<open>
  What a cache relies on: the version never decreases, and while it stays the content stays. The venue
  provides it with the length of the journal as version and the snapshot of the ledger as content.
\<close>

locale versioned_source =
  fixes version :: "'v \<Rightarrow> int" and content :: "'v \<Rightarrow> 'c" and change :: "'v \<Rightarrow> 'v \<Rightarrow> bool"
  assumes version_grows: "change v v' \<Longrightarrow> version v \<le> version v'"
    and content_kept: "change v v' \<Longrightarrow> version v' = version v \<Longrightarrow> content v' = content v"
begin

definition cached :: "int \<Rightarrow> 'c \<Rightarrow> 'v \<Rightarrow> bool" where
  "cached n c v \<longleftrightarrow> n \<le> version v \<and> (version v = n \<longrightarrow> content v = c)"

lemma cached_now: "cached (version v) (content v) v"
  by (simp add: cached_def)

lemma cached_change: "change v v' \<Longrightarrow> cached n c v \<Longrightarrow> cached n c v'"
  unfolding cached_def by (metis version_grows content_kept order_antisym order_trans)

lemma cached_changes: "change\<^sup>*\<^sup>* v v' \<Longrightarrow> cached n c v \<Longrightarrow> cached n c v'"
  by (induction rule: rtranclp_induct) (auto intro: cached_change)

end

interpretation journal: versioned_source "\<lambda>v. int (length (vn_entries v))" "\<lambda>v. snapshot (vn_ledger v)" "venue_change H bytes"
  for H bytes
proof
  show "int (length (vn_entries v)) \<le> int (length (vn_entries v'))" if "venue_change H bytes v v'" for v v'
    using venue_change_extends[OF that] by (auto simp: venue_extends_def)
  show "snapshot (vn_ledger v') = snapshot (vn_ledger v)"
    if "venue_change H bytes v v'" "int (length (vn_entries v')) = int (length (vn_entries v))" for v v'
    using that by cases (auto elim!: commit_cases)
qed

section \<open>Replay and reconciliation\<close>

lemma venue_do_Inr:
  assumes "venue_do m f = (v', Inr y)"
  obtains v1 x where "m = (v1, Inr x)" "f v1 x = (v', Inr y)"
  using assms by (cases m) (auto simp: venue_do_def split: sum.splits)

lemma replay_bundle:
  assumes "journal_ok H bytes v"
  shows "replay H bytes (venue_bundle v) =
    bindE (detached bytes XReplay (venue_bundle v)) (\<lambda>_. bindE (snapshot (vn_ledger v)) (\<lambda>s. detached bytes XState s))"
proof -
  obtain l where l: "ledger_init (ld_account_id (vn_ledger v)) (vn_initial v) (vn_config v) = Inr l"
      "replay_entries H 1 (header_hash H (ld_account_id (vn_ledger v)) (vn_initial v) (vn_config v)) l (vn_entries v) = Inr (vn_ledger v)"
    using assms by (auto simp: journal_ok_def)
  have "detached bytes XReplay (venue_bundle v) = Inr b \<Longrightarrow> b = venue_bundle v" for b by (simp add: detached_def split: if_split_asm)
  then show ?thesis
    by (cases "detached bytes XReplay (venue_bundle v)") (simp_all add: replay_def venue_bundle_def l)
qed

lemma replay_state:
  assumes "journal_ok H bytes v" "replay H bytes (venue_bundle v) = Inr s"
  shows "snapshot (vn_ledger v) = Inr s"
  using assms by (auto simp: replay_bundle detached_def elim!: bindE_InrE split: if_split_asm)

lemma replay_nonempty:
  assumes "journal_ok H bytes v" "vn_entries v \<noteq> []"
  obtains s where "snapshot (vn_ledger v) = Inr s" "replay H bytes (venue_bundle v) = Inr s" "bytes (XState s) \<le> MAX_ARTIFACT_BYTES"
    "bytes (XReplay (venue_bundle v)) \<le> MAX_ARTIFACT_BYTES"
proof -
  obtain s where "snapshot (vn_ledger v) = Inr s" "bytes (XState s) \<le> MAX_ARTIFACT_BYTES" "bytes (XReplay (venue_bundle v)) \<le> MAX_ARTIFACT_BYTES"
    using assms by (auto simp: journal_ok_def)
  then show ?thesis using that assms(1) by (simp add: replay_bundle detached_def)
qed

lemma venue_reconcile_state:
  assumes "journal_ok H bytes v" "venue_reconcile H bytes v ws reading = (v', Inr (n, s, now))"
  shows "snapshot (vn_ledger v') = Inr s" "n = int (length (vn_entries v'))" "vn_ledger v' = vn_ledger v" "vn_entries v' = vn_entries v"
proof -
  have r: "replay H bytes (venue_bundle v) = Inr s" "venue_now v reading = (v', Inr now)" "n = int (length (vn_entries v))"
    using assms(2)
    by (auto simp: venue_reconcile_def export_replay_def detached_def refuse_def elim!: venue_do_Inr venue_now_cases
        split: if_split_asm)
  show "vn_ledger v' = vn_ledger v" "vn_entries v' = vn_entries v" using r(2) by (auto elim: venue_now_cases)
  then show "snapshot (vn_ledger v') = Inr s" "n = int (length (vn_entries v'))" using r replay_state[OF assms(1)] by auto
qed

lemma venue_reconcile_returns:
  assumes ok: "journal_ok H bytes v" and ne: "vn_entries v \<noteq> []" and now: "vn_last_now v \<le> now" and ws: "ws = pf_workspace_id (vn_initial v)"
  obtains s where "snapshot (vn_ledger v) = Inr s" "bytes (XState s) \<le> MAX_ARTIFACT_BYTES"
    "venue_reconcile H bytes v ws (Some now) = (v\<lparr>vn_last_now := now\<rparr>, Inr (int (length (vn_entries v)), s, now))"
proof -
  obtain s where s: "snapshot (vn_ledger v) = Inr s" "replay H bytes (venue_bundle v) = Inr s" "bytes (XState s) \<le> MAX_ARTIFACT_BYTES"
    "bytes (XReplay (venue_bundle v)) \<le> MAX_ARTIFACT_BYTES" by (rule replay_nonempty[OF ok ne])
  have "venue_reconcile H bytes v ws (Some now) = (v\<lparr>vn_last_now := now\<rparr>, Inr (int (length (vn_entries v)), s, now))"
    using s now ws by (simp add: venue_reconcile_def venue_do_def export_replay_def venue_lift_def detached_def venue_now_def)
  then show ?thesis using that s by blast
qed

section \<open>Broker runs\<close>

text \<open>\<open>Elsewhere\<close> is any operation of another client of the same venue.\<close>

datatype broker_call =
    BrokerSubmit string int bool "datetime option" "datetime option" "datetime option"
  | BrokerObserve paper_book bool "datetime option" "string \<Rightarrow> datetime option"
  | BrokerCancel string bool "datetime option"
  | BrokerReconcile "datetime option"
  | Elsewhere venue_call

definition broker_step ::
    "(paper_artefact \<Rightarrow> string) \<Rightarrow> (exported \<Rightarrow> int) \<Rightarrow> (risk_request \<Rightarrow> bool) \<Rightarrow> paper_broker \<times> paper_venue \<Rightarrow> broker_call \<Rightarrow>
     paper_broker \<times> paper_venue" where
  "broker_step H bytes fits st call = (case st of (b, v) \<Rightarrow>
     (case call of
        BrokerSubmit oid token ack r1 r2 r3 \<Rightarrow> (case broker_submit H bytes b v oid token ack r1 r2 r3 of (b', v', _) \<Rightarrow> (b', v'))
      | BrokerObserve book ack r readings \<Rightarrow> (case broker_observe H bytes b v book ack r readings of (b', v', _) \<Rightarrow> (b', v'))
      | BrokerCancel cid ack r \<Rightarrow> (case broker_cancel H bytes b v cid ack r of (b', v', _) \<Rightarrow> (b', v'))
      | BrokerReconcile r \<Rightarrow> (case broker_reconcile H bytes b v r of (b', v', _) \<Rightarrow> (b', v'))
      | Elsewhere c \<Rightarrow> (b, venue_step H bytes fits v c)))"

definition broker_run ::
    "(paper_artefact \<Rightarrow> string) \<Rightarrow> (exported \<Rightarrow> int) \<Rightarrow> (risk_request \<Rightarrow> bool) \<Rightarrow> paper_broker \<times> paper_venue \<Rightarrow> broker_call list \<Rightarrow>
     paper_broker \<times> paper_venue" where
  "broker_run H bytes fits st calls = foldl (broker_step H bytes fits) st calls"

definition views :: "paper_broker \<Rightarrow> paper_venue \<Rightarrow> bool" where
  "views b v \<longleftrightarrow> journal.cached (br_sequence b) (Inr (br_state b)) v"

lemma venue_read_Inr:
  assumes "snd (venue_read bytes v ws) = Inr (n, s)"
  shows "n = int (length (vn_entries v))" "snapshot (vn_ledger v) = Inr s" "ws = pf_workspace_id (vn_initial v)"
    "bytes (XState s) \<le> MAX_ARTIFACT_BYTES"
  using assms by (auto simp: venue_read_def refuse_def venue_lift_def detached_def split: if_split_asm sum.splits elim!: bindE_InrE)

lemma broker_open_fields:
  assumes "broker_open bytes v ws = Inr b"
  shows "br_workspace_id b = ws" "br_sequence b = int (length (vn_entries v))"
  using assms venue_read_Inr by (auto simp: broker_open_def split: sum.splits)

lemma broker_open_views: "broker_open bytes v ws = Inr b \<Longrightarrow> views b v"
  using venue_read_Inr by (auto simp: broker_open_def views_def journal.cached_def split: sum.splits)

lemma broker_ack_views: "broker_ack bytes b v acknowledge = Inr b' \<Longrightarrow> views b' v"
  using venue_read_Inr by (fastforce simp: broker_ack_def views_def journal.cached_def split: if_split_asm elim!: bindE_InrE)

lemma views_connected [simp]: "views (b\<lparr>br_connected := c\<rparr>) v = views b v"
  by (simp add: views_def)

lemma views_changes: "venue_changes H bytes v v' \<Longrightarrow> views b v \<Longrightarrow> views b v'"
  unfolding views_def by (rule journal.cached_changes)

lemma broker_deliver_views:
  assumes "broker_deliver bytes b outcome acknowledge = (b', v', r)" "venue_changes H bytes v (fst outcome)" "views b v"
  shows "v' = fst outcome \<and> views b' v'"
  using assms views_changes by (auto simp: broker_deliver_def split: prod.splits sum.splits intro: broker_ack_views)

text \<open>The broker of a reachable venue: it is on the venue's workspace or every read is refused.\<close>

definition system_ok :: "(paper_artefact \<Rightarrow> string) \<Rightarrow> (exported \<Rightarrow> int) \<Rightarrow> paper_broker \<times> paper_venue \<Rightarrow> bool" where
  "system_ok H bytes st \<longleftrightarrow> venue_inv H bytes (snd st) \<and> views (fst st) (snd st)"

lemma broker_step_ok:
  assumes ok: "system_ok H bytes (b, v)"
  shows "system_ok H bytes (broker_step H bytes fits (b, v) call) \<and>
    venue_changes H bytes v (snd (broker_step H bytes fits (b, v) call))"
proof -
  have inv: "venue_inv H bytes v" "views b v" using ok by (simp_all add: system_ok_def)
  have session: "session_ok (risk_hash H) (vn_risk v)" and journal: "journal_ok H bytes v" using inv(1) by (simp_all add: venue_inv_def)
  have finish: "system_ok H bytes (b', v') \<and> venue_changes H bytes v v'" if "venue_changes H bytes v v'" "views b' v'" for b' v'
    using that venue_changes_inv[OF that(1) inv(1)] by (simp add: system_ok_def)
  have deliver: "system_ok H bytes (b', v') \<and> venue_changes H bytes v v'"
    if "broker_deliver bytes b outcome acknowledge = (b', v', r)" "venue_changes H bytes v (fst outcome)" for b' v' r acknowledge
      and outcome :: "'x venue_outcome"
    using broker_deliver_views[OF that inv(2)] that(2) finish by blast
  show ?thesis
  proof (cases call)
    case (BrokerSubmit oid token ack r1 r2 r3)
    obtain b' v' r where s: "broker_submit H bytes b v oid token ack r1 r2 r3 = (b', v', r)" by (metis prod_cases3)
    show ?thesis
      using s deliver[OF _ venue_submit_changes[OF session]] ok finish inv(2)
      by (auto simp: BrokerSubmit broker_step_def broker_submit_def split: sum.splits if_split_asm)
  next
    case (BrokerObserve book ack r readings)
    obtain b' v' x where s: "broker_observe H bytes b v book ack r readings = (b', v', x)" by (metis prod_cases3)
    then show ?thesis
      using deliver[OF _ venue_observe_changes] by (auto simp: BrokerObserve broker_step_def broker_observe_def)
  next
    case (BrokerCancel cid ack r)
    obtain b' v' x where s: "broker_cancel H bytes b v cid ack r = (b', v', x)" by (metis prod_cases3)
    then show ?thesis
      using deliver[OF _ venue_cancel_changes] by (auto simp: BrokerCancel broker_step_def broker_cancel_def)
  next
    case (BrokerReconcile r)
    obtain v' x where s: "venue_reconcile H bytes v (br_workspace_id b) r = (v', x)" by fastforce
    have ch: "venue_changes H bytes v v'" using venue_reconcile_changes[of H bytes v "br_workspace_id b" r] s by simp
    show ?thesis
    proof (cases x)
      case (Inl e)
      then show ?thesis using s finish[OF ch views_changes[OF ch inv(2)]] by (simp add: BrokerReconcile broker_step_def broker_reconcile_def)
    next
      case (Inr y)
      obtain n st now where y: "y = (n, st, now)" by (cases y)
      have "views (b\<lparr>br_sequence := n, br_state := st, br_connected := True\<rparr>) v'"
        using venue_reconcile_state[OF journal s[unfolded Inr y]] by (simp add: views_def journal.cached_def)
      then show ?thesis using s finish[OF ch] by (simp add: Inr y BrokerReconcile broker_step_def broker_reconcile_def)
    qed
  next
    case (Elsewhere c)
    have ch: "venue_changes H bytes v (venue_step H bytes fits v c)" by (rule venue_step_changes[OF inv(1)])
    then show ?thesis using finish[OF ch views_changes[OF ch inv(2)]] by (simp add: Elsewhere broker_step_def)
  qed
qed

lemma broker_run_ok:
  "system_ok H bytes (b, v) \<Longrightarrow> broker_run H bytes fits (b, v) calls = (b', v') \<Longrightarrow>
   system_ok H bytes (b', v') \<and> venue_changes H bytes v v'"
proof (induction calls arbitrary: b v)
  case (Cons c calls b v)
  obtain b1 v1 where s: "broker_step H bytes fits (b, v) c = (b1, v1)" by fastforce
  have "system_ok H bytes (b1, v1)" "venue_changes H bytes v v1"
    using broker_step_ok[OF Cons.prems(1), of fits c] s by simp_all
  moreover have "broker_run H bytes fits (b1, v1) calls = (b', v')" using Cons.prems(2) s by (simp add: broker_run_def)
  ultimately show ?case using Cons.IH venue_changes_trans by blast
qed (simp add: broker_run_def)

lemma broker_state_cases:
  assumes "broker_state bytes b v = Inr s"
  shows "(int (length (vn_entries v)) = br_sequence b \<and> s = br_state b) \<or> s = uncertain (br_state b)"
  using assms venue_read_Inr(1)
  by (fastforce simp: broker_state_def Let_def venue_lift_def detached_def elim!: bindE_InrE split: if_split_asm sum.splits)

lemma uncertain_state:
  "\<not> pf_is_reconciled (ps_portfolio (uncertain s))" "list_all (\<lambda>o'. \<not> is_open (o_status o')) (ps_orders (uncertain s))"
  by (auto simp: uncertain_def unknown_order_def list_all_iff)

text \<open>A disconnected view stays so, and submits nothing, until it is reconciled.\<close>

lemma disconnected_submit:
  assumes "\<not> br_connected b"
  shows "\<exists>e. broker_submit H bytes b v oid token acknowledge r1 r2 r3 = (b, v, Inl e)"
proof (cases "broker_state bytes b v")
  case (Inr s)
  then have "s = uncertain (br_state b)"
    using assms by (auto simp: broker_state_def Let_def venue_lift_def detached_def elim!: bindE_InrE split: if_split_asm sum.splits)
  then show ?thesis using Inr uncertain_state(1) by (simp add: broker_submit_def)
qed (simp add: broker_submit_def)

lemma disconnected_deliver:
  "broker_deliver bytes b outcome acknowledge = (b', v', r) \<Longrightarrow> \<not> br_connected b \<Longrightarrow> \<not> br_connected b'"
  by (auto simp: broker_deliver_def broker_ack_def split: prod.splits sum.splits)

lemma broker_step_disconnected:
  assumes "broker_step H bytes fits (b, v) c = (b', v')" "\<not> br_connected b" "\<forall>r. c \<noteq> BrokerReconcile r"
  shows "\<not> br_connected b'"
proof (cases c)
  case (BrokerSubmit oid token ack r1 r2 r3)
  then show ?thesis using assms(1,2) disconnected_submit[OF assms(2), of H bytes v oid token ack r1 r2 r3]
    by (auto simp: broker_step_def)
qed (use assms disconnected_deliver in \<open>fastforce simp: broker_step_def broker_observe_def broker_cancel_def split: prod.splits\<close>)+

lemma broker_run_disconnected:
  "broker_run H bytes fits (b, v) calls = (b', v') \<Longrightarrow> list_all (\<lambda>c. \<forall>r. c \<noteq> BrokerReconcile r) calls \<Longrightarrow>
   \<not> br_connected b \<Longrightarrow> \<not> br_connected b'"
proof (induction calls arbitrary: b v)
  case (Cons c calls b v)
  obtain b1 v1 where s: "broker_step H bytes fits (b, v) c = (b1, v1)" by fastforce
  have "broker_run H bytes fits (b1, v1) calls = (b', v')" using Cons.prems(1) s by (simp add: broker_run_def)
  then show ?case using Cons.IH broker_step_disconnected[OF s] Cons.prems(2,3) by auto
qed (simp add: broker_run_def)

section \<open>The accounting of the ledger in a venue\<close>

text \<open>The requests of the session name constructible instruments, as every \<open>InstrumentId\<close> does.\<close>

definition requests_sound :: "risk_session \<Rightarrow> bool" where
  "requests_sound s \<longleftrightarrow> list_all (\<lambda>(oid, e). instrument_error (oi_instrument_id (rq_intent (en_request e))) = None) (ss_entries s)"

definition requests_known :: "risk_session \<Rightarrow> bool" where
  "requests_known s \<longleftrightarrow> (\<forall>oid e. map_of (ss_entries s) oid = Some e \<longrightarrow>
     instrument_error (oi_instrument_id (rq_intent (en_request e))) = None)"

lemma requests_sound_known: "requests_sound s \<Longrightarrow> requests_known s"
  by (auto simp: requests_sound_def requests_known_def list_all_iff dest: map_of_SomeD)

lemma requests_known_back:
  assumes "changes H s t" "session_ok H s" "requests_known t"
  shows "requests_known s"
  unfolding requests_known_def
proof (intro allI impI)
  fix oid e assume "map_of (ss_entries s) oid = Some e"
  from changes_entry_persists[OF assms(1,2) this] assms(3)
  show "instrument_error (oi_instrument_id (rq_intent (en_request e))) = None" unfolding requests_known_def by metis
qed

lemma venue_changes_ledger_ok:
  assumes "venue_changes H bytes v v'" "venue_inv H bytes v" "ledger_ok (vn_ledger v)" "requests_known (vn_risk v')"
  shows "ledger_ok (vn_ledger v')"
  using assms(1,4)
proof (induction rule: rtranclp_induct)
  case (step v1 v2)
  have inv: "venue_inv H bytes v1" by (rule venue_changes_inv[OF step.hyps(1) assms(2)])
  show ?case
    using step.hyps(2)
  proof cases
    case (clock now)
    then show ?thesis using step by simp
  next
    case (risk r)
    have "requests_known (vn_risk v1)"
      using requests_known_back[OF risk(2)] inv step.prems risk(1) by (simp add: venue_inv_def)
    then show ?thesis using step.IH risk(1) by simp
  next
    case (commits c)
    obtain l e where l: "prepare H bytes v1 c = Inr (l, e)" "vn_ledger v2 = l" "vn_risk v2 = vn_risk v1"
      using commits(1) by (cases rule: commit_cases) auto
    have a: "apply_command H (vn_ledger v1) c = Inr l" using l(1) by (auto elim: prepareE)
    have "ledger_ok (vn_ledger v1)" using step.IH step.prems l(3) by simp
    from ledger_ok_apply_sound[OF this a] commits(3) step.prems l(2,3) show ?thesis
      by (fastforce simp: permit_sound_def issued_def requests_known_def)
  qed
qed (use assms(3) in simp)

end
