(* ===== verification/PaperVenueProps.thy ===== *)
theory PaperVenueProps
  imports PaperBroker
begin

text \<open>The properties of the venue and of its broker views, with witnesses on a venue of the sample account.\<close>

section \<open>Opened venues\<close>

text \<open>A venue over a risk session that may have been used before.\<close>

definition opened :: "(paper_artefact \<Rightarrow> string) \<Rightarrow> (exported \<Rightarrow> int) \<Rightarrow> (risk_request \<Rightarrow> bool) \<Rightarrow> paper_venue \<Rightarrow> bool" where
  "opened H bytes fits v \<longleftrightarrow>
     (\<exists>risk_env portfolio controls registrations risk_capacity s cs env account_id initial config capacity.
        init_session (risk_hash H) risk_env portfolio controls registrations risk_capacity = Inr s \<and>
        portfolio_error initial = None \<and> paper_config_error config = None \<and>
        venue_init bytes env account_id initial config (fst (session_run (risk_hash H) fits s cs)) capacity = Inr v)"

lemma opened_inv:
  assumes "opened H bytes fits v"
  shows "venue_inv H bytes v" "ledger_ok (vn_ledger v)"
proof -
  obtain risk_env portfolio controls registrations risk_capacity s cs env account_id initial config capacity where o:
    "init_session (risk_hash H) risk_env portfolio controls registrations risk_capacity = Inr s"
    "portfolio_error initial = None" "paper_config_error config = None"
    "venue_init bytes env account_id initial config (fst (session_run (risk_hash H) fits s cs)) capacity = Inr v"
    using assms unfolding opened_def by blast
  show "venue_inv H bytes v" by (rule venue_init_inv[OF o(4) run_session_ok[OF o(1)]])
  show "ledger_ok (vn_ledger v)"
    using o(4) ledger_ok_init[OF _ o(2,3)] by (auto simp: venue_init_def detached_def elim!: bindE_InrE split: if_split_asm)
qed

lemma reachable_inv:
  assumes "opened H bytes fits v0" "v = venue_run H bytes fits v0 calls"
  shows "venue_inv H bytes v" "journal_ok H bytes v" "intents_ok v" "session_ok (risk_hash H) (vn_risk v)"
proof -
  show "venue_inv H bytes v"
    unfolding assms(2) by (rule venue_changes_inv[OF venue_run_changes opened_inv(1)[OF assms(1)]]) (rule opened_inv(1)[OF assms(1)])
  then show "journal_ok H bytes v" "intents_ok v" "session_ok (risk_hash H) (vn_risk v)" by (simp_all add: venue_inv_def)
qed

lemma run_extends: "venue_inv H bytes v \<Longrightarrow> venue_extends v (venue_run H bytes fits v calls)"
  by (rule venue_changes_extends[OF venue_run_changes])

lemma venue_extendsD:
  assumes "venue_extends v v'"
  shows "vn_initial v' = vn_initial v" "map_of (vn_intents v) oid = Some cid \<Longrightarrow> map_of (vn_intents v') oid = Some cid"
    "map_of (vn_market_keys v) k = Some h \<Longrightarrow> map_of (vn_market_keys v') k = Some h"
  using assms unfolding venue_extends_def by blast+

section \<open>Chains of entries\<close>

definition chained :: "(paper_artefact \<Rightarrow> string) \<Rightarrow> string \<Rightarrow> journal_entry list \<Rightarrow> bool" where
  "chained H header es \<longleftrightarrow> (\<forall>i < length es. je_sequence (es ! i) = int i + 1 \<and> je_entry_hash (es ! i) = entry_hash H (es ! i) \<and>
     je_previous_hash (es ! i) = (if i = 0 then header else je_entry_hash (es ! (i - 1))))"

lemma replay_entries_chain:
  "replay_entries H n prev l es = Inr l' \<Longrightarrow> i < length es \<Longrightarrow>
   je_sequence (es ! i) = n + int i \<and> je_entry_hash (es ! i) = entry_hash H (es ! i) \<and>
   je_previous_hash (es ! i) = (if i = 0 then prev else je_entry_hash (es ! (i - 1)))"
proof (induction es arbitrary: n prev l i)
  case (Cons e es n prev l i)
  then obtain m where e: "je_sequence e = n" "je_previous_hash e = prev" "je_entry_hash e = entry_hash H e"
      "replay_entries H (n + 1) (je_entry_hash e) m es = Inr l'"
    by (auto elim!: bindE_InrE split: if_split_asm)
  then show ?case using Cons.IH[OF e(4), of "i - 1"] Cons.prems(2) by (cases i; cases "i - 1") auto
qed simp

lemma replay_entries_snocE:
  assumes "replay_entries H n prev l (es @ [e]) = Inr l'"
  obtains m where "replay_entries H n prev l es = Inr m" "je_entry_hash e = entry_hash H e"
    "je_previous_hash e = (if es = [] then prev else je_entry_hash (last es))"
proof -
  obtain m where m: "replay_entries H n prev l es = Inr m"
      "replay_entries H (n + int (length es)) (if es = [] then prev else je_entry_hash (last es)) m [e] = Inr l'"
    using assms by (auto simp only: replay_entries_append elim!: bindE_InrE)
  then show ?thesis using that by (simp split: if_split_asm)
qed

lemma same_chain:
  assumes "replay_entries H n prev l es = Inr l1" "replay_entries H n prev l fs = Inr l2" "length fs = length es" "es \<noteq> []"
    and "je_entry_hash (last fs) = je_entry_hash (last es)"
    and "\<forall>e \<in> set es. \<forall>f \<in> set fs. entry_hash H f = entry_hash H e \<longrightarrow> f\<lparr>je_entry_hash := ''''\<rparr> = e\<lparr>je_entry_hash := ''''\<rparr>"
  shows "fs = es"
  using assms
proof (induction es arbitrary: fs l1 l2 rule: rev_induct)
  case (snoc e es fs l1 l2)
  obtain gs f where fs: "fs = gs @ [f]" using snoc.prems(3) by (cases fs rule: rev_cases) auto
  obtain m1 where m1: "replay_entries H n prev l es = Inr m1" "je_entry_hash e = entry_hash H e"
      "je_previous_hash e = (if es = [] then prev else je_entry_hash (last es))"
    by (rule replay_entries_snocE[OF snoc.prems(1)])
  obtain m2 where m2: "replay_entries H n prev l gs = Inr m2" "je_entry_hash f = entry_hash H f"
      "je_previous_hash f = (if gs = [] then prev else je_entry_hash (last gs))"
    by (rule replay_entries_snocE[OF snoc.prems(2)[unfolded fs]])
  have h: "je_entry_hash f = je_entry_hash e" using snoc.prems(5) by (simp add: fs)
  then have "f\<lparr>je_entry_hash := ''''\<rparr> = e\<lparr>je_entry_hash := ''''\<rparr>" using snoc.prems(6) m1(2) m2(2) by (simp add: fs)
  then have fe: "f = e" using h by (cases f; cases e) simp
  have "gs = es"
  proof (cases "es = []")
    case True
    then show ?thesis using snoc.prems(3) fs by simp
  next
    case False
    then have gs: "gs \<noteq> []" "length gs = length es" using snoc.prems(3) fs by auto
    have "je_entry_hash (last gs) = je_entry_hash (last es)" using m1(3) m2(3) fe False gs(1) by simp
    moreover have "\<forall>e \<in> set es. \<forall>f \<in> set gs. entry_hash H f = entry_hash H e \<longrightarrow>
        f\<lparr>je_entry_hash := ''''\<rparr> = e\<lparr>je_entry_hash := ''''\<rparr>"
      using snoc.prems(6) unfolding fs by (metis Un_iff set_append)
    ultimately show ?thesis by (rule snoc.IH[OF m1(1) m2(1) gs(2) False])
  qed
  then show ?case by (simp add: fs fe)
qed simp

section \<open>What a submission leaves\<close>

lemma order_result_Some:
  "map_of (ld_orders (vn_ledger v)) cid = Some w \<Longrightarrow>
   order_result bytes v cid = (v, if MAX_ARTIFACT_BYTES < bytes (XOrder (wo_order w)) then Inl (VenuePaper InvalidPaperArtifact) else Inr (wo_order w))"
  by (simp add: order_result_def venue_lift_def detached_def)

lemma submit_issued_recorded:
  assumes s: "submit_issued H bytes v ws oid token r1 r2 = (v', Inr (Some o'))" and ok: "session_ok (risk_hash H) (vn_risk v)"
  shows "map_of (vn_intents v') oid \<noteq> None"
proof -
  obtain risk permit where h: "handoff (risk_hash H) (vn_risk v) ws oid token r1 = (risk, Inr (Some permit))"
    using s by (auto simp: submit_issued_def split: prod.splits sum.splits option.splits)
  have i: "ao_order_intent_id (pp_approval permit) = oid" by (rule handoff_issued(2)[OF h ok])
  obtain v1 now v3 where c: "commit H bytes v1 (submit_command now permit) = (v3, Inr ())" "v' = v3"
    using s h by (auto simp: submit_issued_def detached_def order_result_def refuse_def venue_lift_def
        elim!: venue_do_Inr split: if_split_asm option.splits sum.splits)
  then show ?thesis using i
    by (auto elim!: commit_cases simp: record_intent_def submit_command_def update_conv)
qed

lemma venue_submit_recorded:
  assumes s: "venue_submit H bytes v ws oid token r1 r2 r3 = (v', Inr (Some o'))" and ok: "session_ok (risk_hash H) (vn_risk v)"
  shows "map_of (vn_intents v') oid \<noteq> None" "ws = pf_workspace_id (vn_initial v)"
proof -
  show "ws = pf_workspace_id (vn_initial v)" using s by (auto simp: venue_submit_def refuse_def split: if_split_asm)
  show "map_of (vn_intents v') oid \<noteq> None"
  proof (cases "map_of (vn_intents v) oid")
    case None
    then obtain v2 where v2: "submit_issued H bytes v2 ws oid token r2 r3 = (v', Inr (Some o'))" "vn_risk v2 = vn_risk v"
      using s by (auto simp: venue_submit_def refuse_def elim!: venue_do_Inr venue_now_cases split: if_split_asm)
    then show ?thesis using submit_issued_recorded ok by simp
  next
    case (Some cid)
    then show ?thesis using s by (auto simp: venue_submit_def refuse_def order_result_def venue_lift_def
        elim!: venue_do_Inr split: if_split_asm option.splits sum.splits)
  qed
qed

lemma venue_submit_again:
  assumes "intents_ok v" "map_of (vn_intents v) oid = Some cid" "ws = pf_workspace_id (vn_initial v)"
  obtains w where "map_of (ld_orders (vn_ledger v)) cid = Some w" "o_order_intent_id (wo_order w) = oid"
    "venue_submit H bytes v ws oid token r1 r2 r3 = (v, if MAX_ARTIFACT_BYTES < bytes (XOrder (wo_order w))
       then Inl (VenuePaper InvalidPaperArtifact) else Inr (Some (wo_order w)))"
proof -
  obtain w where w: "map_of (ld_orders (vn_ledger v)) cid = Some w" "o_order_intent_id (wo_order w) = oid"
    using assms(1,2) by (auto simp: intents_ok_def)
  then show ?thesis using that assms(2,3) by (simp add: venue_submit_def order_result_Some venue_do_def)
qed

lemma venue_observe_recorded:
  assumes "venue_observe H bytes v ws book r readings = (v', Inr ())"
  shows "map_of (vn_market_keys v') (market_key book) = Some (H (PBook book))" "ws = pf_workspace_id (vn_initial v)"
    "bytes (XBook book) \<le> MAX_ARTIFACT_BYTES"
proof -
  have b: "bytes (XBook book) \<le> MAX_ARTIFACT_BYTES \<and> ws = pf_workspace_id (vn_initial v)"
    using assms by (auto simp: venue_observe_def detached_def refuse_def venue_lift_def elim!: venue_do_Inr split: if_split_asm)
  then show "ws = pf_workspace_id (vn_initial v)" "bytes (XBook book) \<le> MAX_ARTIFACT_BYTES" by blast+
  show "map_of (vn_market_keys v') (market_key book) = Some (H (PBook book))"
  proof (cases "map_of (vn_market_keys v) (market_key book)")
    case None
    then obtain v1 v2 now where g: "observe_guarded H bytes v1 ws book now readings = (v', Inr ())"
      using assms b by (auto simp: venue_observe_def detached_def refuse_def elim!: venue_do_Inr split: if_split_asm)
    then obtain risk blocked where "commit H bytes (v1\<lparr>vn_risk := risk\<rparr>) (market_command now book blocked) = (v', Inr ())"
      by (auto simp: observe_guarded_def split: prod.splits sum.splits)
    then show ?thesis by (auto elim!: commit_cases simp: record_book_def market_command_def update_conv)
  next
    case (Some h)
    then show ?thesis using assms b by (auto simp: venue_observe_def detached_def refuse_def elim!: venue_do_Inr split: if_split_asm)
  qed
qed

end
