(* ===== verification/PaperVenueSamples.thy ===== *)
theory PaperVenueSamples
  imports PaperVenueProps
begin

text \<open>A venue over the sample account, with one submission, one book and a broker view.\<close>

definition v_hash :: "paper_artefact \<Rightarrow> string" where
  "v_hash a = (case a of
       PRisk r \<Rightarrow> sample_hash r
     | PBook b \<Rightarrow> if bk_resync b then ''other'' else ''book''
     | PEntry e \<Rightarrow> ''entry:'' @ je_state_hash e
     | _ \<Rightarrow> ''sha256:h'')"

lemma v_risk_hash [simp]: "risk_hash v_hash = sample_hash"
  by (simp add: fun_eq_iff risk_hash_def v_hash_def)

definition v_bytes :: "exported \<Rightarrow> int" where
  "v_bytes x = 100"

definition the_session :: "session_init_error + risk_session \<Rightarrow> risk_session" where
  "the_session r = (case r of Inr s \<Rightarrow> s | Inl e \<Rightarrow> sample_session)"

definition v_session :: risk_session where
  "v_session = the_session (init_session sample_hash ''local'' p_portfolio sample_controls [sample_registration] 10)"

definition v_session_commands :: "session_command list" where
  "v_session_commands = [Evaluate sample_request (Some 1000000)]"

definition v_risk :: risk_session where
  "v_risk = fst (session_run sample_hash any_size v_session v_session_commands)"

definition the_venue :: "paper_error + paper_venue \<Rightarrow> paper_venue" where
  "the_venue r = (case r of Inr v \<Rightarrow> v | Inl e \<Rightarrow>
     \<lparr>vn_initial = p_portfolio, vn_config = p_config, vn_ledger = p_start, vn_risk = v_risk, vn_capacity = 0,
      vn_entries = [], vn_intents = [], vn_market_keys = [], vn_last_now = 0\<rparr>)"

definition v_start :: paper_venue where
  "v_start = the_venue (venue_init v_bytes ''local'' ''acct'' p_portfolio p_config v_risk 10)"

definition v_submit :: venue_call where
  "v_submit = CallSubmit ''ws'' ''o1'' 1 (Some 1000000) (Some 1100000) (Some 1100000)"

definition v_observe :: venue_call where
  "v_observe = CallObserve ''ws'' p_btc_book (Some 1300000) (\<lambda>_. Some 1300000)"

definition v_open :: paper_venue where
  "v_open = venue_run v_hash v_bytes any_size v_start [v_submit]"

definition v_final :: paper_venue where
  "v_final = venue_run v_hash v_bytes any_size v_open [v_observe]"

lemma v_session: "init_session sample_hash ''local'' p_portfolio sample_controls [sample_registration] 10 = Inr v_session"
proof -
  have "returns (init_session sample_hash ''local'' p_portfolio sample_controls [sample_registration] 10)" by code_simp
  then show ?thesis by (auto simp: v_session_def the_session_def returns_def split: sum.splits)
qed

lemma v_start: "venue_init v_bytes ''local'' ''acct'' p_portfolio p_config v_risk 10 = Inr v_start"
proof -
  have "returns (venue_init v_bytes ''local'' ''acct'' p_portfolio p_config v_risk 10)" by code_simp
  then show ?thesis by (auto simp: v_start_def the_venue_def returns_def split: sum.splits)
qed

lemma v_opened: "opened v_hash v_bytes any_size v_start"
  unfolding opened_def using v_session v_start p_valid by (force simp: v_risk_def)

lemma v_run: "v_open = venue_run v_hash v_bytes any_size v_start [v_submit]"
    "v_final = venue_run v_hash v_bytes any_size v_start [v_submit, v_observe]"
  by (simp_all add: v_final_def v_open_def venue_run_def)

text \<open>The run, evaluated once: the order is partly filled and the rest is cancelled.\<close>

definition v_checks :: "paper_venue \<Rightarrow> bool" where
  "v_checks v \<longleftrightarrow> length (vn_entries v) = 2 \<and> map_of (vn_intents v) ''o1'' = Some ''paper_h'' \<and>
     map (\<lambda>(cid, w). (cid, o_status (wo_order w), filled_units w)) (ld_orders (vn_ledger v)) =
       [(''paper_h'', Cancelled, 498000000000)] \<and>
     requests_sound (vn_risk v) \<and> vn_last_now v = 1300000 \<and> pf_workspace_id (vn_initial v) = ''ws'' \<and>
     returns (broker_open v_bytes v ''ws'')"

definition v_submitted :: "order option venue_outcome" where
  "v_submitted = venue_submit v_hash v_bytes v_start ''ws'' ''o1'' 1 (Some 1000000) (Some 1100000) (Some 1100000)"

definition v_observed :: "paper_venue \<Rightarrow> unit venue_outcome" where
  "v_observed v = venue_observe v_hash v_bytes v ''ws'' p_btc_book (Some 1300000) (\<lambda>_. Some 1300000)"

lemma v_evaluated:
  "case v_submitted of (v1, Inr (Some o1)) \<Rightarrow> length (vn_entries v1) = 1 \<and> returns (broker_open v_bytes v1 ''ws'') \<and>
      (case v_observed v1 of (v2, Inr _) \<Rightarrow> v_checks v2 | _ \<Rightarrow> False)
   | _ \<Rightarrow> False"
  by code_simp

lemma v_open: "fst v_submitted = v_open" and v_final: "fst (v_observed v_open) = v_final"
  by (simp_all add: v_submitted_def v_observed_def v_open_def v_final_def venue_run_def venue_step_def v_submit_def v_observe_def)

lemma v_outcomes:
  obtains o1 where "v_submitted = (v_open, Inr (Some o1))" "v_observed v_open = (v_final, Inr ())"
    "length (vn_entries v_open) = 1" "v_checks v_final" "returns (broker_open v_bytes v_open ''ws'')"
proof -
  obtain v1 o1 v2 where s: "v_submitted = (v1, Inr (Some o1))" "v_observed v1 = (v2, Inr ())" "length (vn_entries v1) = 1"
      "v_checks v2" "returns (broker_open v_bytes v1 ''ws'')"
    using v_evaluated by (auto split: prod.splits sum.splits option.splits)
  have v1: "v1 = v_open" by (metis v_open s(1) fst_conv)
  then have "v2 = v_final" by (metis v_final s(2) fst_conv)
  then show ?thesis using that s v1 by blast
qed

end
