(* ===== verification/PaperVenueTheorems.thy ===== *)
theory PaperVenueTheorems
  imports PaperVenueSamples
begin

text \<open>The properties of the venue, its journal and its broker views.\<close>

section \<open>The journal\<close>

text \<open>
  C25. The journal is the account: replaying the exported journal of a venue, after any calls of its
  clients in any order and whichever of them raised, returns exactly the snapshot of its ledger.
\<close>

theorem replay_reproduces_account:
  assumes "opened H bytes fits v0" "v = venue_run H bytes fits v0 calls" "vn_entries v \<noteq> []"
  shows "\<exists>s. snapshot (vn_ledger v) = Inr s \<and> replay H bytes (venue_bundle v) = Inr s"
  using replay_nonempty[OF reachable_inv(2)[OF assms(1,2)] assms(3)] by blast

theorem replay_reproduces_account_witness:
  "\<exists>s. snapshot (vn_ledger v_final) = Inr s \<and> replay v_hash v_bytes (venue_bundle v_final) = Inr s"
proof (rule v_outcomes)
  assume "v_checks v_final"
  then have "vn_entries v_final \<noteq> []" by (auto simp: v_checks_def)
  from replay_reproduces_account[OF v_opened v_run(2) this] show ?thesis .
qed

text \<open>
  The journal is append-only and chained: whatever calls follow, the entries so far stay a prefix,
  the sequence numbers count from 1, every entry carries its own hash and the hash of the one before it.
\<close>

theorem journal_is_chained:
  assumes "opened H bytes fits v0" "v = venue_run H bytes fits v0 calls" "v' = venue_run H bytes fits v later"
  shows "(\<exists>es. vn_entries v' = vn_entries v @ es) \<and>
    chained H (header_hash H (ld_account_id (vn_ledger v')) (vn_initial v') (vn_config v')) (vn_entries v')"
proof
  note inv = reachable_inv(1)[OF assms(1,2)]
  show "\<exists>es. vn_entries v' = vn_entries v @ es" using run_extends[OF inv] assms(3) by (simp add: venue_extends_def)
  have "journal_ok H bytes v'"
    using venue_changes_inv[OF venue_run_changes[OF inv] inv] assms(3) by (simp add: venue_inv_def)
  then show "chained H (header_hash H (ld_account_id (vn_ledger v')) (vn_initial v') (vn_config v')) (vn_entries v')"
    using replay_entries_chain by (fastforce simp: journal_ok_def chained_def)
qed

text \<open>
  C26. Tampering is detected: if a journal replays, no other journal of the same length that ends in the
  same entry hash replays, as long as \<open>content_hash\<close> has no collision among the entries of the two.
\<close>

theorem tampered_journal_is_refused:
  assumes "replay H bytes bundle = Inr s" "fs \<noteq> bu_entries bundle" "length fs = length (bu_entries bundle)"
    and "je_entry_hash (last fs) = je_entry_hash (last (bu_entries bundle))"
    and no_collision: "\<forall>e \<in> set (bu_entries bundle). \<forall>f \<in> set fs.
        entry_hash H f = entry_hash H e \<longrightarrow> f\<lparr>je_entry_hash := ''''\<rparr> = e\<lparr>je_entry_hash := ''''\<rparr>"
  shows "replay H bytes (bundle\<lparr>bu_entries := fs\<rparr>) \<noteq> Inr s'"
proof
  assume t: "replay H bytes (bundle\<lparr>bu_entries := fs\<rparr>) = Inr s'"
  have ne: "bu_entries bundle \<noteq> []" using assms(2,3) by auto
  obtain l l1 l2 where r:
    "replay_entries H 1 (header_hash H (bu_account_id bundle) (bu_initial_portfolio bundle) (bu_config bundle)) l (bu_entries bundle) = Inr l1"
    "replay_entries H 1 (header_hash H (bu_account_id bundle) (bu_initial_portfolio bundle) (bu_config bundle)) l fs = Inr l2"
    using t assms(1) by (auto simp: replay_def detached_def elim!: bindE_InrE split: if_split_asm)
  show False using same_chain[OF r assms(3) ne assms(4) no_collision] assms(2) by simp
qed

definition v_tampered :: "journal_entry list" where
  "v_tampered = map (\<lambda>e. e\<lparr>je_state_hash := ''forged''\<rparr>) (vn_entries v_open)"

theorem tampered_journal_is_refused_witness:
  "replay v_hash v_bytes ((venue_bundle v_open)\<lparr>bu_entries := v_tampered\<rparr>) \<noteq> Inr undefined"
proof (rule v_outcomes)
  assume n: "length (vn_entries v_open) = 1"
  have "vn_entries v_open \<noteq> []" using n by auto
  then obtain s where s: "replay v_hash v_bytes (venue_bundle v_open) = Inr s"
    by (rule replay_nonempty[OF reachable_inv(2)[OF v_opened v_run(1)]])
  obtain e where e: "vn_entries v_open = [e]" using n by (auto simp: length_Suc_conv)
  have honest: "je_state_hash e = ''sha256:h''"
    using s by (auto simp: replay_def venue_bundle_def detached_def v_bytes_def e v_hash_def MAX_ARTIFACT_BYTES_def
        elim!: bindE_InrE split: if_split_asm)
  show ?thesis
  proof (rule tampered_journal_is_refused[OF s])
    show "v_tampered \<noteq> bu_entries (venue_bundle v_open)"
      using honest by (cases e) (auto simp: v_tampered_def venue_bundle_def e)
  qed (auto simp: v_tampered_def venue_bundle_def e honest entry_hash_def v_hash_def)
qed

section \<open>Idempotency\<close>

text \<open>
  C27. Submitting an intent twice places one order: once \<open>submit\<close> has returned an order for an intent,
  submitting that intent again, after any calls in between and with any token, changes nothing and asks the
  risk session for nothing; it returns the order of that intent as it is then.
\<close>

theorem submit_is_idempotent:
  assumes "opened H bytes fits v0" "v = venue_run H bytes fits v0 calls"
    and "venue_submit H bytes v workspace_id oid token r1 r2 r3 = (v1, Inr (Some o1))"
    and "v2 = venue_run H bytes fits v1 later"
  shows "\<exists>cid w. map_of (ld_orders (vn_ledger v2)) cid = Some w \<and> o_order_intent_id (wo_order w) = oid \<and>
    venue_submit H bytes v2 workspace_id oid token' r1' r2' r3' =
      (v2, if MAX_ARTIFACT_BYTES < bytes (XOrder (wo_order w)) then Inl (VenuePaper InvalidPaperArtifact) else Inr (Some (wo_order w)))"
proof -
  note inv = reachable_inv[OF assms(1,2)]
  have ch: "venue_changes H bytes v v1" using venue_submit_changes[OF inv(4), of bytes workspace_id oid token r1 r2 r3] assms(3) by simp
  have inv1: "venue_inv H bytes v1" by (rule venue_changes_inv[OF ch inv(1)])
  have x1: "venue_extends v v1" by (rule venue_changes_extends[OF ch])
  have x2: "venue_extends v1 v2" unfolding assms(4) by (rule run_extends[OF inv1])
  have inv2: "intents_ok v2"
    unfolding assms(4) using venue_changes_inv[OF venue_run_changes[OF inv1] inv1] by (simp add: venue_inv_def)
  note rec = venue_submit_recorded[OF assms(3) inv(4)]
  obtain cid where "map_of (vn_intents v2) oid = Some cid" using rec(1) x2 by (auto simp: venue_extends_def)
  moreover have "workspace_id = pf_workspace_id (vn_initial v2)" using rec(2) x1 x2 by (simp add: venue_extends_def)
  ultimately show ?thesis using venue_submit_again[OF inv2] by metis
qed

theorem submit_is_idempotent_witness:
  "\<exists>w :: working_order. o_order_intent_id (wo_order w) = ''o1'' \<and>
     venue_submit v_hash v_bytes v_final ''ws'' ''o1'' 7 None None None = (v_final, Inr (Some (wo_order w)))"
proof (rule v_outcomes)
  fix o1
  assume s: "v_submitted = (v_open, Inr (Some o1))"
  have "v_start = venue_run v_hash v_bytes any_size v_start []" by (simp add: venue_run_def)
  from submit_is_idempotent[OF v_opened this s[unfolded v_submitted_def] v_final_def, of 7 None None None]
  show ?thesis by (auto simp: v_bytes_def MAX_ARTIFACT_BYTES_def)
qed

text \<open>
  A market event is processed once: delivering the same book again changes nothing, and a different
  book under the same instrument and sequence is refused and changes nothing.
\<close>

theorem market_event_is_processed_once:
  assumes "opened H bytes fits v0" "v = venue_run H bytes fits v0 calls"
    and "venue_observe H bytes v workspace_id book reading readings = (v1, Inr ())"
    and "v2 = venue_run H bytes fits v1 later" "market_key other = market_key book" "bytes (XBook other) \<le> MAX_ARTIFACT_BYTES"
  shows "venue_observe H bytes v2 workspace_id other reading' readings' =
    (v2, if H (PBook other) = H (PBook book) then Inr () else Inl (VenuePaper MarketIdempotencyConflict))"
proof -
  note inv = reachable_inv[OF assms(1,2)]
  have ch: "venue_changes H bytes v v1"
    using venue_observe_changes[of H bytes v workspace_id book reading readings] assms(3) by simp
  have x1: "venue_extends v v1" by (rule venue_changes_extends[OF ch])
  have x2: "venue_extends v1 v2" unfolding assms(4) by (rule run_extends[OF venue_changes_inv[OF ch inv(1)]])
  note rec = venue_observe_recorded[OF assms(3)]
  have "map_of (vn_market_keys v2) (market_key other) = Some (H (PBook book))" "workspace_id = pf_workspace_id (vn_initial v2)"
    using venue_extendsD(3)[OF x2 rec(1)] venue_extendsD(1)[OF x1] venue_extendsD(1)[OF x2] rec(2) assms(5) by simp_all
  then show ?thesis
    using assms(6) by (simp add: venue_observe_def detached_def venue_lift_def venue_do_def refuse_def)
qed

section \<open>Permits across the two services\<close>

text \<open>
  Every order of a venue was permitted: in any reachable venue an order carries the permit that the
  risk session recorded for its intent, under the evaluation recorded there, and what it has filled, its gross and
  its cash debit stay within the ceilings of that evaluation.
\<close>

theorem orders_carry_recorded_permits:
  assumes "opened H bytes fits v0" "v = venue_run H bytes fits v0 calls" "requests_sound (vn_risk v)"
    and "map_of (ld_orders (vn_ledger v)) cid = Some w"
  shows "\<exists>e. map_of (ss_entries (vn_risk v)) (ao_order_intent_id (pp_approval (wo_permit w))) = Some e \<and>
    en_issued_permit e = Some (wo_permit w) \<and> pp_record (wo_permit w) = en_record e \<and>
    o_instrument_id (wo_order w) = oi_instrument_id (rq_intent (en_request e)) \<and>
    filled_units w \<le> max 0 (units0 (q_value (rd_max_quantity (en_record e)))) \<and>
    wo_gross w \<le> units0 (m_amount (ao_approved_notional (pp_approval (wo_permit w)))) \<and>
    wo_debit w \<le> units0 (m_amount (rd_max_cash_debit (en_record e)))"
proof -
  note inv = reachable_inv[OF assms(1,2)]
  have "ledger_ok (vn_ledger v)"
    unfolding assms(2)
    by (rule venue_changes_ledger_ok[OF venue_run_changes opened_inv[OF assms(1)]])
      (use opened_inv[OF assms(1)] requests_sound_known assms(2,3) in auto)
  then have w: "worder_ok cid w" using assms(4) by (simp add: ledger_ok_def)
  have "issued (vn_risk v) (wo_permit w)" using inv(1) assms(4) by (auto simp: venue_inv_def permits_from_def)
  then obtain e where e: "map_of (ss_entries (vn_risk v)) (ao_order_intent_id (pp_approval (wo_permit w))) = Some e"
      "en_issued_permit e = Some (wo_permit w)" "pp_record (wo_permit w) = en_record e"
      "ao_instrument_id (pp_approval (wo_permit w)) = oi_instrument_id (rq_intent (en_request e))"
    by (auto simp: issued_def)
  have "o_instrument_id (wo_order w) = oi_instrument_id (rq_intent (en_request e))"
    using w e(4) by (simp add: worder_ok_def Let_def)
  moreover have "filled_units w \<le> max 0 (units0 (q_value (rd_max_quantity (en_record e))))"
    "wo_gross w \<le> units0 (m_amount (ao_approved_notional (pp_approval (wo_permit w))))"
    "wo_debit w \<le> units0 (m_amount (rd_max_cash_debit (en_record e)))"
    using w unfolding e(3)[symmetric] approved_units_def[symmetric] cash_ceiling_def[symmetric] worder_ok_def Let_def
    by linarith+
  ultimately show ?thesis using e by blast
qed

section \<open>Broker views\<close>

text \<open>
  C28. A broker view is exact or says that it is not: whatever the broker and the other clients of the
  venue have done, what \<open>state\<close> returns is the account of the venue, or it is marked as not reconciled and shows no
  order as open.
\<close>

theorem broker_view_is_exact_or_uncertain:
  assumes "opened H bytes fits v0" "v1 = venue_run H bytes fits v0 earlier" "broker_open bytes v1 workspace_id = Inr b1"
    and "broker_run H bytes fits (b1, v1) calls = (b, v)" "broker_state bytes b v = Inr s"
  shows "snapshot (vn_ledger v) = Inr s \<or>
    (\<not> pf_is_reconciled (ps_portfolio s) \<and> list_all (\<lambda>o'. \<not> is_open (o_status o')) (ps_orders s))"
proof -
  have "system_ok H bytes (b1, v1)" using reachable_inv(1)[OF assms(1,2)] broker_open_views[OF assms(3)] by (simp add: system_ok_def)
  then have "views b v" using broker_run_ok[OF _ assms(4)] by (simp add: system_ok_def)
  then have exact: "int (length (vn_entries v)) = br_sequence b \<Longrightarrow> snapshot (vn_ledger v) = Inr (br_state b)"
    by (simp add: views_def journal.cached_def)
  show ?thesis using broker_state_cases[OF assms(5)] exact uncertain_state by blast
qed

definition v_broker :: paper_broker where
  "v_broker = (case broker_open v_bytes v_open ''ws'' of Inr b \<Rightarrow> b | Inl e \<Rightarrow>
     \<lparr>br_workspace_id = '''', br_sequence = 0, br_state = undefined, br_connected = False\<rparr>)"

lemma v_broker: "broker_open v_bytes v_open ''ws'' = Inr v_broker"
  by (rule v_outcomes) (auto simp: v_broker_def returns_def split: sum.splits)

lemma v_broker_run:
  "broker_run v_hash v_bytes any_size (v_broker, v_open) [Elsewhere v_observe] = (v_broker, v_final)"
  by (simp add: broker_run_def broker_step_def v_final_def venue_run_def)

theorem broker_view_is_exact_or_uncertain_witness:
  "snapshot (vn_ledger v_final) = Inr (uncertain (br_state v_broker)) \<or>
   list_all (\<lambda>o'. \<not> is_open (o_status o')) (ps_orders (uncertain (br_state v_broker)))"
proof (rule v_outcomes)
  assume n: "length (vn_entries v_open) = 1" and c: "v_checks v_final"
  have b: "br_workspace_id v_broker = ''ws''" "br_sequence v_broker = 1"
    using broker_open_fields[OF v_broker] n by simp_all
  obtain e where "broker_open v_bytes v_final ''ws'' = Inr e"
    using c unfolding v_checks_def returns_def by (cases "broker_open v_bytes v_final ''ws''") simp_all
  then obtain m s where "snd (venue_read v_bytes v_final ''ws'') = Inr (m, s)" by (auto simp: broker_open_def split: sum.splits)
  moreover have "m = 2" if "snd (venue_read v_bytes v_final ''ws'') = Inr (m, s)" for m s
    using venue_read_Inr(1)[OF that] c by (simp add: v_checks_def)
  ultimately have "broker_state v_bytes v_broker v_final = Inr (uncertain (br_state v_broker))"
    using b by (auto simp: broker_state_def venue_lift_def detached_def v_bytes_def MAX_ARTIFACT_BYTES_def)
  from broker_view_is_exact_or_uncertain[OF v_opened v_run(1) v_broker v_broker_run this] show ?thesis by blast
qed

text \<open>
  C29. Reconciliation always recovers: on a reachable venue that has committed anything, a broker view on the
  venue's workspace, however stale or disconnected, is exact and connected again after one \<open>reconcile\<close> under a
  clock that has not gone back, and the discovered fills are those it had not seen.
\<close>

theorem reconcile_recovers_broker:
  assumes "opened H bytes fits v0" "v = venue_run H bytes fits v0 calls" "vn_entries v \<noteq> []"
    and "br_workspace_id b = pf_workspace_id (vn_initial v)" "vn_last_now v \<le> now"
  shows "\<exists>b' v' report s. broker_reconcile H bytes b v (Some now) = (b', v', Inr report) \<and> snapshot (vn_ledger v') = Inr s \<and>
    broker_state bytes b' v' = Inr s \<and> br_connected b' \<and> vn_ledger v' = vn_ledger v \<and>
    set (rn_discovered_fill_ids report) = set (fill_ids s) - set (fill_ids (br_state b)) \<and> rn_sequence report = int (length (vn_entries v))"
proof -
  obtain s where s: "snapshot (vn_ledger v) = Inr s" "bytes (XState s) \<le> MAX_ARTIFACT_BYTES"
    "venue_reconcile H bytes v (br_workspace_id b) (Some now) = (v\<lparr>vn_last_now := now\<rparr>, Inr (int (length (vn_entries v)), s, now))"
    by (rule venue_reconcile_returns[OF reachable_inv(2)[OF assms(1,2)] assms(3,5,4)])
  then show ?thesis using assms(4)
    by (auto simp: broker_reconcile_def broker_state_def venue_read_def venue_lift_def detached_def)
qed

theorem reconcile_recovers_broker_witness:
  "\<exists>b' v' (report :: paper_reconciliation). broker_reconcile v_hash v_bytes (v_broker\<lparr>br_connected := False\<rparr>) v_final (Some 1300000) = (b', v', Inr report) \<and>
     br_connected b' \<and> rn_sequence report = 2"
proof (rule v_outcomes)
  assume c: "v_checks v_final"
  have b: "br_workspace_id (v_broker\<lparr>br_connected := False\<rparr>) = pf_workspace_id (vn_initial v_final)"
    using broker_open_fields(1)[OF v_broker] c by (simp add: v_checks_def)
  have v: "vn_entries v_final \<noteq> []" "vn_last_now v_final \<le> 1300000" "length (vn_entries v_final) = 2"
    using c by (auto simp: v_checks_def)
  from reconcile_recovers_broker[OF v_opened v_run(2) v(1) b v(2), unfolded v(3)] show ?thesis by auto
qed

text \<open>
  An unknown delivery blocks new orders: after a submission, a market event or a cancellation whose
  acknowledgement was lost, no submission of the broker reaches the venue, whatever happens short of a
  reconciliation.
\<close>

theorem unknown_delivery_blocks_submission:
  assumes "b1 = fst (broker_observe H bytes b v book False r readings) \<or> b1 = fst (broker_cancel H bytes b v cid False r) \<or>
      b1 = fst (broker_deliver bytes b (venue_submit H bytes v (br_workspace_id b) oid token r1 r2 r3) False)"
    and "list_all (\<lambda>c. \<forall>r. c \<noteq> BrokerReconcile r) calls" "broker_run H bytes fits (b1, v1) calls = (b2, v2)"
  shows "\<not> br_connected b2 \<and> (\<exists>e. broker_submit H bytes b2 v2 oid' token' acknowledge r1' r2' r3' = (b2, v2, Inl e))"
proof -
  have "\<not> br_connected b1"
    using assms(1) by (auto simp: broker_observe_def broker_cancel_def broker_deliver_def broker_ack_def split: prod.splits sum.splits)
  then have "\<not> br_connected b2" by (rule broker_run_disconnected[OF assms(3,2)])
  then show ?thesis using disconnected_submit by blast
qed

end
