(* ===== verification/WorkflowMachine.thy ===== *)
theory WorkflowMachine
  imports PaperVenue
begin

text \<open>
  \<open>kavrigo_workflows/machine.py\<close> with the contracts of \<open>contracts.py\<close> it uses: the replayable state machine of one
  account, which owns a ledger and a risk session per generation. \<open>H\<close> is \<open>content_hash\<close> and \<open>bytes\<close> the length of a
  JSON encoding, over the artefacts of this service; \<open>fits\<close> is the size bound of the risk session. The machine
  gives its risk session the time of the command as clock. An operation that raises keeps what it had changed.
\<close>

section \<open>Contracts\<close>

record account_definition =
  df_account_id :: string
  df_initial_portfolio :: portfolio_snapshot
  df_config :: paper_config
  df_controls :: risk_controls
  df_registrations :: "risk_registration list"

datatype account_kind = AOrders | AMarket | ACancel | AControls | AAdvance | AReconcile

record account_command =
  ac_key :: string
  ac_generation :: int
  ac_kind :: account_kind
  ac_requests :: "risk_request list"
  ac_book :: "paper_book option"
  ac_client_order_id :: "string option"
  ac_controls :: "risk_controls option"

record account_receipt =
  rt_sequence :: int
  rt_generation :: int
  rt_state_hash :: string
  rt_state :: paper_account_state
  rt_risk_records :: "risk_record list"
  rt_committed_at :: datetime

record account_event =
  wv_sequence :: int
  wv_command :: account_command
  wv_occurred_at :: datetime
  wv_state_hash :: string

datatype account_artefact =
    APaper paper_artefact
  | ADefinition account_definition
  | ACommand account_command
  | ABook paper_book
  | AChain string int int account_command datetime paper_account_state "risk_audit_event list"
  | AOutbox string int

datatype account_json = JDefinition account_definition | JCommand account_command | JReceipt account_receipt

definition paper_hash :: "(account_artefact \<Rightarrow> string) \<Rightarrow> paper_artefact \<Rightarrow> string" where
  "paper_hash H a = H (APaper a)"

definition session_hash :: "(account_artefact \<Rightarrow> string) \<Rightarrow> risk_artefact \<Rightarrow> string" where
  "session_hash H = risk_hash (paper_hash H)"

definition account_definition_error :: "(account_artefact \<Rightarrow> string) \<Rightarrow> account_definition \<Rightarrow> domain_error option" where
  "account_definition_error H d =
     (let networks = map (\<lambda>p. (i_value (pi_instrument_id p), pi_network p)) (pc_instruments (df_config d));
          controls = df_controls d in first_error
        [(\<not> risk_name_ok (df_account_id d), BadPattern),
         (portfolio_error (df_initial_portfolio d) \<noteq> None, OutOfRange),
         (paper_config_error (df_config d) \<noteq> None, OutOfRange),
         (risk_controls_error controls \<noteq> None, OutOfRange),
         (df_registrations d = [] \<or> 32 < length (df_registrations d), OutOfRange),
         (list_ex (\<lambda>r. registration_error (session_hash H) r \<noteq> None) (df_registrations d), OutOfRange),
         (pf_mode (df_initial_portfolio d) \<noteq> Paper \<or> rc_account_id controls \<noteq> df_account_id d
          \<or> rc_workspace_id controls \<noteq> pf_workspace_id (df_initial_portfolio d)
          \<or> list_ex (\<lambda>r. av_workspace_id (rr_agent_version r) \<noteq> rc_workspace_id controls) (df_registrations d), WorkspaceMismatch),
         (list_ex (\<lambda>r. list_ex (\<lambda>(i, n). map_of networks i \<noteq> Some n) (rr_networks r)) (df_registrations d), MissingNetwork)])"

text \<open>
  The shape of a command, and its parts: of a request the intent, which is what this service and the ledger rely on.
\<close>

definition account_command_error :: "account_command \<Rightarrow> domain_error option" where
  "account_command_error c = first_error
     [(\<not> risk_name_ok (ac_key c), BadPattern),
      (ac_generation c < 1, OutOfRange),
      (32 < length (ac_requests c), OutOfRange),
      (list_ex (\<lambda>r. order_intent_error (rq_intent r) \<noteq> None \<or> instrument_error (oi_instrument_id (rq_intent r)) \<noteq> None) (ac_requests c),
         OutOfRange),
      (case ac_book c of None \<Rightarrow> False | Some b \<Rightarrow> book_error b \<noteq> None, OutOfRange),
      (case ac_client_order_id c of None \<Rightarrow> False | Some i \<Rightarrow> \<not> risk_name_ok i, BadPattern),
      (case ac_controls c of None \<Rightarrow> False | Some r \<Rightarrow> risk_controls_error r \<noteq> None, OutOfRange),
      ((ac_requests c \<noteq> [], ac_book c \<noteq> None, ac_client_order_id c \<noteq> None, ac_controls c \<noteq> None) \<noteq>
         (case ac_kind c of
            AOrders \<Rightarrow> (True, False, False, False)
          | AMarket \<Rightarrow> (False, True, False, False)
          | ACancel \<Rightarrow> (False, False, True, False)
          | AControls \<Rightarrow> (False, False, False, True)
          | AAdvance \<Rightarrow> (False, False, False, False)
          | AReconcile \<Rightarrow> (False, False, False, False)), BadPayload)]"

datatype (plugins only: code size) durable_error =
    GenerationConflict | AccountClockReversed | AccountDayRolloverRequired | DecisionAlreadyProcessed
  | AccountBatchSealed | AccountReconciliationRequired | AccountJournalGap | AccountJournalMismatch
  | ArtifactTooLarge | AccountCapacityExhausted | AccountDefinitionConflict | AccountNotFound | InvalidLeaseDuration
  | AccountLeaseBusy | AccountDefinitionCorrupt | AccountCommandCorrupt | AccountHeadMismatch | AccountProjectionMismatch
  | CommandIdempotencyConflict | AccountMarketConflict | StaleExecutionLease | LeaseExpiredDuringCommand
  | LedgerRaised paper_error | SessionRaised gate_error | SessionRefused session_init_error | AccountAssertion
  | DatabaseConflict

section \<open>The machine\<close>

record account_machine =
  am_definition :: account_definition
  am_now :: datetime
  am_controls :: risk_controls
  am_ledger :: ledger
  am_generation :: int
  am_sequence :: int
  am_chain :: string
  am_risk :: risk_session
  am_intent_ids :: "string list"
  am_decision_ids :: "string list"

type_synonym 'a machine_outcome = "account_machine \<times> (durable_error + 'a)"

definition machine_do ::
    "'a machine_outcome \<Rightarrow> (account_machine \<Rightarrow> 'a \<Rightarrow> 'b machine_outcome) \<Rightarrow> 'b machine_outcome" where
  "machine_do r f = (case r of (m, Inl e) \<Rightarrow> (m, Inl e) | (m, Inr x) \<Rightarrow> f m x)"

declare machine_do_def [code_unfold]

definition workspace_of :: "account_machine \<Rightarrow> string" where
  "workspace_of m = pf_workspace_id (df_initial_portfolio (am_definition m))"

text \<open>\<open>_risk\<close>: a fresh session over the portfolio the current generation was opened with.\<close>

definition machine_risk ::
    "(account_artefact \<Rightarrow> string) \<Rightarrow> account_definition \<Rightarrow> ledger \<Rightarrow> risk_controls \<Rightarrow> durable_error + risk_session" where
  "machine_risk H d l controls =
     (case init_session (session_hash H) ''local'' (ld_initial l) controls (df_registrations d) 1000 of
        Inl e \<Rightarrow> Inl (SessionRefused e) | Inr s \<Rightarrow> Inr s)"

definition ledger_do :: "paper_error + 'a \<Rightarrow> durable_error + 'a" where
  "ledger_do r = (case r of Inl e \<Rightarrow> Inl (LedgerRaised e) | Inr x \<Rightarrow> Inr x)"

definition machine_init ::
    "(account_artefact \<Rightarrow> string) \<Rightarrow> (account_json \<Rightarrow> int) \<Rightarrow> account_definition \<Rightarrow> durable_error + account_machine" where
  "machine_init H bytes d =
     bindE (ledger_do (detached bytes JDefinition d)) (\<lambda>d.
     bindE (ledger_do (ledger_init (df_account_id d) (df_initial_portfolio d) (df_config d))) (\<lambda>l.
     bindE (machine_risk H d l (df_controls d)) (\<lambda>risk.
     Inr \<lparr>am_definition = d, am_now = pf_as_of (df_initial_portfolio d), am_controls = df_controls d, am_ledger = l,
          am_generation = 1, am_sequence = 0, am_chain = H (ADefinition d), am_risk = risk, am_intent_ids = [],
          am_decision_ids = []\<rparr>)))"

definition initial_receipt :: "account_machine \<Rightarrow> durable_error + account_receipt" where
  "initial_receipt m =
     bindE (ledger_do (snapshot (am_ledger m))) (\<lambda>s.
     Inr \<lparr>rt_sequence = am_sequence m, rt_generation = am_generation m, rt_state_hash = am_chain m, rt_state = s,
          rt_risk_records = [], rt_committed_at = am_now m\<rparr>)"

text \<open>Lines 101-111: the risk session evaluates and hands off, and a permit is submitted at once.\<close>

definition ledger_step ::
    "(account_artefact \<Rightarrow> string) \<Rightarrow> account_machine \<Rightarrow> paper_command \<Rightarrow> unit machine_outcome" where
  "ledger_step H m c =
     (case apply_command (paper_hash H) (am_ledger m) c of
        Inl e \<Rightarrow> (m, Inl (LedgerRaised e)) | Inr l \<Rightarrow> (m\<lparr>am_ledger := l\<rparr>, Inr ()))"

definition evaluate_step ::
    "(account_artefact \<Rightarrow> string) \<Rightarrow> (risk_request \<Rightarrow> bool) \<Rightarrow> account_machine \<Rightarrow> risk_request \<Rightarrow> risk_record machine_outcome" where
  "evaluate_step H fits m request =
     (case session_evaluate (session_hash H) fits (am_risk m) request (Some (am_now m)) of
        (risk, Inl e) \<Rightarrow> (m\<lparr>am_risk := risk\<rparr>, Inl (SessionRaised e))
      | (risk, Inr result) \<Rightarrow> (m\<lparr>am_risk := risk\<rparr>, Inr result))"

definition handoff_step ::
    "(account_artefact \<Rightarrow> string) \<Rightarrow> account_machine \<Rightarrow> string \<Rightarrow> paper_risk_permit option machine_outcome" where
  "handoff_step H m oid =
     (case handoff (session_hash H) (am_risk m) (workspace_of m) oid (rc_fencing_token (am_controls m)) (Some (am_now m)) of
        (risk, Inl e) \<Rightarrow> (m\<lparr>am_risk := risk\<rparr>, Inl (SessionRaised e))
      | (risk, Inr permit) \<Rightarrow> (m\<lparr>am_risk := risk\<rparr>, Inr permit))"

definition process_request ::
    "(account_artefact \<Rightarrow> string) \<Rightarrow> (risk_request \<Rightarrow> bool) \<Rightarrow> datetime \<Rightarrow> account_machine \<Rightarrow> risk_request \<Rightarrow> risk_record machine_outcome" where
  "process_request H fits now m request =
     (let intent = rq_intent request; oid = oi_order_intent_id intent; did = oi_decision_id intent in
      if oid \<in> set (am_intent_ids m) \<or> did \<in> set (am_decision_ids m) then (m, Inl DecisionAlreadyProcessed)
      else if ld_sealed (am_ledger m) then (m, Inl AccountBatchSealed)
      else (case snapshot (am_ledger m) of Inl e \<Rightarrow> (m, Inl (LedgerRaised e))
      | Inr s \<Rightarrow>
        if \<not> pf_is_reconciled (ps_portfolio s) then (m, Inl AccountReconciliationRequired)
        else machine_do (evaluate_step H fits m request) (\<lambda>m result.
          machine_do (handoff_step H m oid) (\<lambda>m permit.
          machine_do (case permit of None \<Rightarrow> (m, Inr ()) | Some p \<Rightarrow> ledger_step H m (submit_command now p)) (\<lambda>m _.
          (m\<lparr>am_intent_ids := List.insert oid (am_intent_ids m), am_decision_ids := List.insert did (am_decision_ids m)\<rparr>,
           Inr result))))))"

fun process_requests ::
    "(account_artefact \<Rightarrow> string) \<Rightarrow> (risk_request \<Rightarrow> bool) \<Rightarrow> datetime \<Rightarrow> account_machine \<Rightarrow> risk_request list \<Rightarrow>
     risk_record list machine_outcome" where
  "process_requests H fits now m [] = (m, Inr [])"
| "process_requests H fits now m (r # rs) =
     machine_do (process_request H fits now m r) (\<lambda>m result.
     machine_do (process_requests H fits now m rs) (\<lambda>m records. (m, Inr (result # records))))"

text \<open>Lines 114-127: what is open on the instrument is rechecked, then the event is applied.\<close>

definition orders_to_recheck :: "ledger \<Rightarrow> paper_book \<Rightarrow> datetime \<Rightarrow> (string \<times> int \<times> datetime option) list" where
  "orders_to_recheck l book now =
     map (\<lambda>(cid, w). (o_order_intent_id (wo_order w), ao_fencing_token (pp_approval (wo_permit w)), Some now))
       (filter (\<lambda>(cid, w). order_open w \<and> o_instrument_id (wo_order w) = bk_instrument_id book) (ld_orders l))"

definition market_step ::
    "(account_artefact \<Rightarrow> string) \<Rightarrow> account_machine \<Rightarrow> paper_book \<Rightarrow> datetime \<Rightarrow> unit machine_outcome" where
  "market_step H m book now =
     (case execution_guard (session_hash H) (am_risk m) (workspace_of m) (orders_to_recheck (am_ledger m) book now) of
        (risk, Inl e) \<Rightarrow> (m\<lparr>am_risk := risk\<rparr>, Inl (SessionRaised e))
      | (risk, Inr blocked) \<Rightarrow> ledger_step H (m\<lparr>am_risk := risk\<rparr>) (market_command now book blocked))"

definition controls_step ::
    "(account_artefact \<Rightarrow> string) \<Rightarrow> account_machine \<Rightarrow> risk_controls \<Rightarrow> unit machine_outcome" where
  "controls_step H m controls =
     (case update_controls (session_hash H) (am_risk m) controls (Some (am_now m)) (Some (am_now m)) of
        (risk, Inl e) \<Rightarrow> (m\<lparr>am_risk := risk\<rparr>, Inl (SessionRaised e))
      | (risk, Inr _) \<Rightarrow> (m\<lparr>am_risk := risk, am_controls := controls\<rparr>, Inr ()))"

definition advance_step :: "(account_artefact \<Rightarrow> string) \<Rightarrow> account_machine \<Rightarrow> datetime \<Rightarrow> unit machine_outcome" where
  "advance_step H m now =
     (case begin_generation (am_ledger m) now of Inl e \<Rightarrow> (m, Inl (LedgerRaised e))
      | Inr l \<Rightarrow>
          let m1 = m\<lparr>am_ledger := l, am_generation := am_generation m + 1\<rparr> in
          (case machine_risk H (am_definition m) l (am_controls m) of
             Inl e \<Rightarrow> (m1, Inl e) | Inr risk \<Rightarrow> (m1\<lparr>am_risk := risk\<rparr>, Inr ())))"

text \<open>The effect of a command, with the records of the evaluations it made.\<close>

definition machine_effect ::
    "(account_artefact \<Rightarrow> string) \<Rightarrow> (risk_request \<Rightarrow> bool) \<Rightarrow> account_machine \<Rightarrow> account_command \<Rightarrow> datetime \<Rightarrow>
     risk_record list machine_outcome" where
  "machine_effect H fits m c now =
     (case ac_kind c of
        AOrders \<Rightarrow> process_requests H fits now m (ac_requests c)
      | AMarket \<Rightarrow> (case ac_book c of None \<Rightarrow> (m, Inl AccountAssertion)
          | Some book \<Rightarrow> machine_do (market_step H m book now) (\<lambda>m _. (m, Inr [])))
      | ACancel \<Rightarrow> (case ac_client_order_id c of None \<Rightarrow> (m, Inl (LedgerRaised (PValidation BadPayload)))
          | Some cid \<Rightarrow> machine_do (ledger_step H m (cancel_command now cid)) (\<lambda>m _. (m, Inr [])))
      | AControls \<Rightarrow> (case ac_controls c of None \<Rightarrow> (m, Inl AccountAssertion)
          | Some controls \<Rightarrow> machine_do (controls_step H m controls) (\<lambda>m _. (m, Inr [])))
      | AAdvance \<Rightarrow> machine_do (advance_step H m now) (\<lambda>m _. (m, Inr []))
      | AReconcile \<Rightarrow> (m\<lparr>am_ledger := (am_ledger m)\<lparr>ld_as_of := now\<rparr>\<rparr>, Inr []))"

text \<open>Lines 145-165: the next link of the chain and the receipt.\<close>

definition seal_step ::
    "(account_artefact \<Rightarrow> string) \<Rightarrow> account_machine \<Rightarrow> account_command \<Rightarrow> datetime \<Rightarrow> risk_record list \<Rightarrow> account_receipt machine_outcome" where
  "seal_step H m c now records =
     (let m1 = m\<lparr>am_sequence := am_sequence m + 1\<rparr> in
      case snapshot (am_ledger m1) of Inl e \<Rightarrow> (m1, Inl (LedgerRaised e))
      | Inr s \<Rightarrow>
          let chain = H (AChain (am_chain m1) (am_sequence m1) (am_generation m1) c now s (ss_audit (am_risk m1))) in
          (m1\<lparr>am_chain := chain\<rparr>,
           Inr \<lparr>rt_sequence = am_sequence m1, rt_generation = am_generation m1, rt_state_hash = chain, rt_state = s,
                rt_risk_records = records, rt_committed_at = now\<rparr>))"

definition machine_apply ::
    "(account_artefact \<Rightarrow> string) \<Rightarrow> (account_json \<Rightarrow> int) \<Rightarrow> (risk_request \<Rightarrow> bool) \<Rightarrow> account_machine \<Rightarrow> account_command \<Rightarrow>
     datetime \<Rightarrow> account_receipt machine_outcome" where
  "machine_apply H bytes fits m c now =
     (case detached bytes JCommand c of Inl e \<Rightarrow> (m, Inl (LedgerRaised e))
      | Inr c \<Rightarrow>
        if ac_generation c \<noteq> am_generation m then (m, Inl GenerationConflict)
        else if now < am_now m then (m, Inl AccountClockReversed)
        else if ac_kind c \<in> {AOrders, AMarket, AAdvance} \<and>
             date_of now \<noteq> date_of (pf_as_of (df_initial_portfolio (am_definition m)))
        then (m, Inl AccountDayRolloverRequired)
        else machine_do (machine_effect H fits (m\<lparr>am_now := now\<rparr>) c now) (\<lambda>m records. seal_step H m c now records))"

section \<open>reconstruct\<close>

fun replay_events ::
    "(account_artefact \<Rightarrow> string) \<Rightarrow> (account_json \<Rightarrow> int) \<Rightarrow> (risk_request \<Rightarrow> bool) \<Rightarrow> account_machine \<Rightarrow> account_event list \<Rightarrow>
     durable_error + account_machine" where
  "replay_events H bytes fits m [] = Inr m"
| "replay_events H bytes fits m (e # es) =
     (if wv_sequence e \<noteq> am_sequence m + 1 then Inl AccountJournalGap
      else (case machine_apply H bytes fits m (wv_command e) (wv_occurred_at e) of
        (m', Inl err) \<Rightarrow> Inl err
      | (m', Inr receipt) \<Rightarrow>
          if rt_state_hash receipt \<noteq> wv_state_hash e then Inl AccountJournalMismatch
          else replay_events H bytes fits m' es))"

definition reconstruct ::
    "(account_artefact \<Rightarrow> string) \<Rightarrow> (account_json \<Rightarrow> int) \<Rightarrow> (risk_request \<Rightarrow> bool) \<Rightarrow> account_definition \<Rightarrow> account_event list \<Rightarrow>
     durable_error + account_machine" where
  "reconstruct H bytes fits d es = bindE (machine_init H bytes d) (\<lambda>m. replay_events H bytes fits m es)"

end
