(* ===== verification/WorkflowAccounts.thy ===== *)
theory WorkflowAccounts
  imports WorkflowMachine
begin

text \<open>
  \<open>kavrigo_workflows/accounts.py\<close>: the paper authority over PostgreSQL. The database is a value: the rows of
  \<open>engine_accounts\<close> by workspace and account, each with its rows of \<open>engine_commands\<close> in the order of their
  sequence, and the rows of \<open>engine_outbox\<close>. A transaction returns the new database, or an error and nothing is
  changed (the rollback). The row lock makes transactions on an account run one after another. Readings of the
  database clock are arguments. JSON columns hold the values they encode; \<open>bytes\<close> is the length of an encoding.
\<close>

section \<open>Rows\<close>

definition MAX_BYTES :: int where
  "MAX_BYTES = 10000000"

record account_ref =
  ref_workspace_id :: string
  ref_account_id :: string

record lease = account_ref +
  le_owner :: string
  le_token :: int
  le_expires_at :: datetime

record command_row =
  cr_sequence :: int
  cr_key :: string
  cr_command :: account_command
  cr_request_hash :: string
  cr_receipt :: account_receipt
  cr_state_hash :: string
  cr_occurred_at :: datetime
  cr_lease_token :: int
  cr_market :: "(string \<times> int) option"
  cr_market_hash :: "string option"

record account_row =
  aw_definition :: account_definition
  aw_definition_hash :: string
  aw_head_sequence :: int
  aw_head_hash :: string
  aw_head_receipt :: account_receipt
  aw_bytes_used :: int
  aw_lease_token :: int
  aw_lease_owner :: "string option"
  aw_lease_until :: "datetime option"
  aw_commands :: "command_row list"

record engine_db =
  db_accounts :: "((string \<times> string) \<times> account_row) list"
  db_outbox :: "((string \<times> string) \<times> string \<times> int \<times> string) list"

type_synonym 'a transaction = "durable_error + (engine_db \<times> 'a)"

definition row_key :: "'a account_ref_scheme \<Rightarrow> string \<times> string" where
  "row_key ref = (ref_workspace_id ref, ref_account_id ref)"

definition put_row :: "engine_db \<Rightarrow> string \<times> string \<Rightarrow> account_row \<Rightarrow> engine_db" where
  "put_row db key row = db\<lparr>db_accounts := AList.update key row (db_accounts db)\<rparr>"

definition encode :: "(account_json \<Rightarrow> int) \<Rightarrow> account_json \<Rightarrow> durable_error + int" where
  "encode bytes j = (if MAX_BYTES < bytes j then Inl ArtifactTooLarge else Inr (bytes j))"

section \<open>create and \_account\<close>

definition account_row_of :: "engine_db \<Rightarrow> 'a account_ref_scheme \<Rightarrow> durable_error + account_row" where
  "account_row_of db ref = of_option AccountNotFound (map_of (db_accounts db) (row_key ref))"

definition repo_create ::
    "(account_artefact \<Rightarrow> string) \<Rightarrow> (account_json \<Rightarrow> int) \<Rightarrow> engine_db \<Rightarrow> account_definition \<Rightarrow> account_receipt transaction" where
  "repo_create H bytes db d =
     bindE (ledger_do (detached bytes JDefinition d)) (\<lambda>d.
     bindE (machine_init H bytes d) (\<lambda>machine.
     bindE (initial_receipt machine) (\<lambda>receipt.
     bindE (encode bytes (JDefinition d)) (\<lambda>encoded.
     bindE (encode bytes (JReceipt receipt)) (\<lambda>receipt_json.
     let size = encoded + receipt_json; key = (workspace_of machine, df_account_id d) in
     if MAX_BYTES < size then Inl AccountCapacityExhausted
     else
       let db1 = (case map_of (db_accounts db) key of Some row \<Rightarrow> db
           | None \<Rightarrow> db\<lparr>db_accounts := db_accounts db @ [(key,
               \<lparr>aw_definition = d, aw_definition_hash = H (ADefinition d), aw_head_sequence = 0,
                aw_head_hash = H (ADefinition d), aw_head_receipt = receipt, aw_bytes_used = size, aw_lease_token = 0,
                aw_lease_owner = None, aw_lease_until = None, aw_commands = []\<rparr>)]\<rparr>) in
       bindE (of_option AccountNotFound (map_of (db_accounts db1) key)) (\<lambda>existing.
       if aw_definition_hash existing \<noteq> H (ADefinition d) then Inl AccountDefinitionConflict
       else Inr (db1, aw_head_receipt existing)))))))"

section \<open>Leases\<close>

definition lease_active :: "account_row \<Rightarrow> datetime \<Rightarrow> bool" where
  "lease_active row now \<longleftrightarrow> (case aw_lease_until row of None \<Rightarrow> False | Some until \<Rightarrow> now < until)"

definition repo_acquire :: "engine_db \<Rightarrow> account_ref \<Rightarrow> string \<Rightarrow> int \<Rightarrow> datetime \<Rightarrow> lease transaction" where
  "repo_acquire db ref owner duration now =
     (if \<not> (1 \<le> duration \<and> duration \<le> 300) then Inl InvalidLeaseDuration
      else
        bindE (account_row_of db ref) (\<lambda>row.
        if lease_active row now \<and> aw_lease_owner row \<noteq> Some owner then Inl AccountLeaseBusy
        else
          let token = (if lease_active row now then aw_lease_token row else aw_lease_token row + 1);
              l = \<lparr>ref_workspace_id = ref_workspace_id ref, ref_account_id = ref_account_id ref, le_owner = owner,
                   le_token = token, le_expires_at = now + seconds duration\<rparr> in
          if \<not> risk_name_ok owner \<or> token < 1 then Inl (LedgerRaised (PValidation BadPattern))
          else Inr (put_row db (row_key ref)
                 (row\<lparr>aw_lease_owner := Some owner, aw_lease_token := token, aw_lease_until := Some (le_expires_at l)\<rparr>), l)))"

definition repo_release :: "engine_db \<Rightarrow> lease \<Rightarrow> datetime \<Rightarrow> unit transaction" where
  "repo_release db l now =
     (case map_of (db_accounts db) (row_key l) of None \<Rightarrow> Inr (db, ())
      | Some row \<Rightarrow>
          if aw_lease_owner row = Some (le_owner l) \<and> aw_lease_token row = le_token l
          then Inr (put_row db (row_key l) (row\<lparr>aw_lease_until := Some now\<rparr>), ()) else Inr (db, ()))"

section \<open>\_machine and read\<close>

definition event_of :: "command_row \<Rightarrow> account_event" where
  "event_of r = \<lparr>wv_sequence = cr_sequence r, wv_command = cr_command r, wv_occurred_at = cr_occurred_at r,
     wv_state_hash = cr_state_hash r\<rparr>"

fun events_of :: "(account_artefact \<Rightarrow> string) \<Rightarrow> command_row list \<Rightarrow> durable_error + account_event list" where
  "events_of H [] = Inr []"
| "events_of H (r # rs) =
     (if H (ACommand (cr_command r)) \<noteq> cr_request_hash r then Inl AccountCommandCorrupt
      else bindE (events_of H rs) (\<lambda>es. Inr (event_of r # es)))"

definition machine_of ::
    "(account_artefact \<Rightarrow> string) \<Rightarrow> (account_json \<Rightarrow> int) \<Rightarrow> (risk_request \<Rightarrow> bool) \<Rightarrow> account_row \<Rightarrow> durable_error + account_machine" where
  "machine_of H bytes fits row =
     (if H (ADefinition (aw_definition row)) \<noteq> aw_definition_hash row then Inl AccountDefinitionCorrupt
      else
        bindE (events_of H (aw_commands row)) (\<lambda>es.
        bindE (reconstruct H bytes fits (aw_definition row) es) (\<lambda>machine.
        if am_sequence machine \<noteq> aw_head_sequence row \<or> am_chain machine \<noteq> aw_head_hash row then Inl AccountHeadMismatch
        else
          bindE (ledger_do (snapshot (am_ledger machine))) (\<lambda>s.
          if rt_state (aw_head_receipt row) \<noteq> s \<or> rt_state_hash (aw_head_receipt row) \<noteq> am_chain machine
          then Inl AccountProjectionMismatch else Inr machine))))"

definition repo_read ::
    "(account_artefact \<Rightarrow> string) \<Rightarrow> (account_json \<Rightarrow> int) \<Rightarrow> (risk_request \<Rightarrow> bool) \<Rightarrow> engine_db \<Rightarrow> account_ref \<Rightarrow>
     durable_error + account_receipt" where
  "repo_read H bytes fits db ref =
     bindE (account_row_of db ref) (\<lambda>row.
     bindE (machine_of H bytes fits row) (\<lambda>_. Inr (aw_head_receipt row)))"

section \<open>commit\_in\_transaction\<close>

definition command_market :: "account_command \<Rightarrow> (string \<times> int) option" where
  "command_market c = (case ac_book c of None \<Rightarrow> None
     | Some book \<Rightarrow> Some (i_value (bk_instrument_id book), bk_sequence book))"

text \<open>Lines 195-219: what was committed before under the key, or for the same market event.\<close>

definition prior_receipt ::
    "(account_artefact \<Rightarrow> string) \<Rightarrow> account_row \<Rightarrow> account_command \<Rightarrow> durable_error + account_receipt option" where
  "prior_receipt H row c =
     (case List.find (\<lambda>r. cr_key r = ac_key c) (aw_commands row) of
        Some r \<Rightarrow> if cr_request_hash r \<noteq> H (ACommand c) then Inl CommandIdempotencyConflict else Inr (Some (cr_receipt r))
      | None \<Rightarrow>
         (case ac_book c of None \<Rightarrow> Inr None
          | Some book \<Rightarrow>
             (case List.find (\<lambda>r. cr_market r = command_market c) (aw_commands row) of None \<Rightarrow> Inr None
              | Some r \<Rightarrow> if cr_market_hash r \<noteq> Some (H (ABook book)) then Inl AccountMarketConflict
                          else Inr (Some (cr_receipt r)))))"

definition lease_stale :: "account_row \<Rightarrow> lease \<Rightarrow> datetime \<Rightarrow> bool" where
  "lease_stale row l now \<longleftrightarrow> aw_lease_token row \<noteq> le_token l \<or> aw_lease_owner row \<noteq> Some (le_owner l) \<or>
     (case aw_lease_until row of None \<Rightarrow> True | Some until \<Rightarrow> min until (le_expires_at l) \<le> now)"

text \<open>The row of the new command; the unique constraints of the table can refuse it.\<close>

definition new_row ::
    "(account_artefact \<Rightarrow> string) \<Rightarrow> lease \<Rightarrow> account_command \<Rightarrow> account_receipt \<Rightarrow> datetime \<Rightarrow> command_row" where
  "new_row H l c receipt now =
     \<lparr>cr_sequence = rt_sequence receipt, cr_key = ac_key c, cr_command = c, cr_request_hash = H (ACommand c),
      cr_receipt = receipt, cr_state_hash = rt_state_hash receipt, cr_occurred_at = now, cr_lease_token = le_token l,
      cr_market = command_market c,
      cr_market_hash = (case ac_book c of None \<Rightarrow> None | Some book \<Rightarrow> Some (H (ABook book)))\<rparr>"

definition row_conflicts :: "command_row list \<Rightarrow> command_row \<Rightarrow> bool" where
  "row_conflicts rs r \<longleftrightarrow> list_ex (\<lambda>q. cr_sequence q = cr_sequence r \<or> cr_key q = cr_key r \<or>
     (cr_market r \<noteq> None \<and> cr_market q = cr_market r)) rs"

definition add_outbox ::
    "(account_artefact \<Rightarrow> string) \<Rightarrow> engine_db \<Rightarrow> lease \<Rightarrow> account_receipt \<Rightarrow> engine_db" where
  "add_outbox H db l receipt =
     (let key = (ref_workspace_id l, ''evt_'' @ drop 7 (H (AOutbox (ref_account_id l) (rt_sequence receipt)))) in
      if map_of (db_outbox db) key \<noteq> None then db
      else db\<lparr>db_outbox := db_outbox db @ [(key, ref_account_id l, rt_sequence receipt, rt_state_hash receipt)]\<rparr>)"

text \<open>Lines 232-291, with the machine of the account.\<close>

definition commit_new ::
    "(account_artefact \<Rightarrow> string) \<Rightarrow> (account_json \<Rightarrow> int) \<Rightarrow> (risk_request \<Rightarrow> bool) \<Rightarrow> engine_db \<Rightarrow> lease \<Rightarrow> account_row \<Rightarrow>
     account_machine \<Rightarrow> account_command \<Rightarrow> datetime \<Rightarrow> datetime \<Rightarrow> datetime \<Rightarrow> (account_receipt \<times> bool) transaction" where
  "commit_new H bytes fits db l row machine c now before_write after_write =
     (case machine_apply H bytes fits machine c now of (m, Inl e) \<Rightarrow> Inl e
      | (m, Inr receipt) \<Rightarrow>
        bindE (encode bytes (JCommand c)) (\<lambda>encoded.
        bindE (encode bytes (JReceipt receipt)) (\<lambda>receipt_json.
        let growth = max 0 (receipt_json - bytes (JReceipt (aw_head_receipt row)));
            size = aw_bytes_used row + (encoded + receipt_json) + growth;
            expired = (\<lambda>t. case aw_lease_until row of None \<Rightarrow> True | Some until \<Rightarrow> min until (le_expires_at l) \<le> t);
            r = new_row H l c receipt now in
        if MAX_BYTES < size then Inl AccountCapacityExhausted
        else if expired before_write then Inl LeaseExpiredDuringCommand
        else if row_conflicts (aw_commands row) r then Inl DatabaseConflict
        else if expired after_write then Inl LeaseExpiredDuringCommand
        else Inr (add_outbox H (put_row db (row_key l)
               (row\<lparr>aw_head_sequence := rt_sequence receipt, aw_head_hash := rt_state_hash receipt, aw_head_receipt := receipt,
                    aw_bytes_used := size, aw_commands := aw_commands row @ [r]\<rparr>)) l receipt, (receipt, False)))))"

definition commit_in_transaction ::
    "(account_artefact \<Rightarrow> string) \<Rightarrow> (account_json \<Rightarrow> int) \<Rightarrow> (risk_request \<Rightarrow> bool) \<Rightarrow> engine_db \<Rightarrow> lease \<Rightarrow> account_command \<Rightarrow>
     datetime \<times> datetime \<times> datetime \<times> datetime \<Rightarrow> (account_receipt \<times> bool) transaction" where
  "commit_in_transaction H bytes fits db l c readings = (case readings of (checked, now, before_write, after_write) \<Rightarrow>
     bindE (account_row_of db l) (\<lambda>row.
     bindE (prior_receipt H row c) (\<lambda>prior.
     case prior of Some receipt \<Rightarrow> Inr (db, (receipt, True))
     | None \<Rightarrow>
        if lease_stale row l checked then Inl StaleExecutionLease
        else if 1000 \<le> aw_head_sequence row then Inl AccountCapacityExhausted
        else bindE (machine_of H bytes fits row) (\<lambda>machine.
             commit_new H bytes fits db l row machine c now before_write after_write))))"

definition repo_commit ::
    "(account_artefact \<Rightarrow> string) \<Rightarrow> (account_json \<Rightarrow> int) \<Rightarrow> (risk_request \<Rightarrow> bool) \<Rightarrow> engine_db \<Rightarrow> lease \<Rightarrow> account_command \<Rightarrow>
     datetime \<times> datetime \<times> datetime \<times> datetime \<Rightarrow> (account_receipt \<times> bool) transaction" where
  "repo_commit H bytes fits db l c readings =
     bindE (ledger_do (detached bytes JCommand c)) (\<lambda>c. commit_in_transaction H bytes fits db l c readings)"

end
