(* ===== verification/WorkflowSteps.thy ===== *)
theory WorkflowSteps
  imports WorkflowAccounts PaperBroker
begin

text \<open>
  The account machine: what every part of a command keeps, its invariant, and what replaying events says of
  the intents it has processed.
\<close>

section \<open>Requests of a risk session\<close>

definition same_requests :: "risk_session \<Rightarrow> risk_session \<Rightarrow> bool" where
  "same_requests s t \<longleftrightarrow> (\<forall>oid e. map_of (ss_entries t) oid = Some e \<longrightarrow>
     (\<exists>e0. map_of (ss_entries s) oid = Some e0 \<and> en_request e0 = en_request e))"

lemma same_requests_refl [simp]: "same_requests s s"
  by (simp add: same_requests_def)

lemma same_requests_trans: "same_requests s t \<Longrightarrow> same_requests t u \<Longrightarrow> same_requests s u"
  unfolding same_requests_def by metis

lemma same_requests_entries: "ss_entries t = ss_entries s \<Longrightarrow> same_requests s t"
  by (simp add: same_requests_def)

lemma same_requests_controls [simp]: "same_requests s (s\<lparr>ss_controls := controls\<rparr>)"
  by (simp add: same_requests_def)

lemma then_do_requests:
  assumes "same_requests s (fst m)" "\<And>t x. m = (t, Inr x) \<Longrightarrow> same_requests t (fst (f t x))"
  shows "same_requests s (fst (then_do m f))"
  using assms by (cases m) (auto simp: then_do_def split: sum.splits intro: same_requests_trans)

lemma take_now_requests [simp]: "same_requests s (fst (take_now s r))"
  by (cases "take_now s r") (auto elim!: take_now_cases intro: same_requests_entries)

lemma audit_event_requests [simp]: "same_requests s (fst (audit_event H s kind out h now reasons))"
  by (auto simp: audit_event_def intro: same_requests_entries)

lemma set_entry_requests:
  "map_of (ss_entries s) oid = Some e \<Longrightarrow> en_request e' = en_request e \<Longrightarrow> same_requests s (set_entry s oid e')"
  by (auto simp: same_requests_def update_Some_unfold)

lemma audited_entry_requests:
  assumes "map_of (ss_entries s) oid = Some e" "en_request e' = en_request e"
  shows "same_requests s (fst (then_do (audit_event H s kind out h now reasons) (\<lambda>s1 _. (set_entry s1 oid e', y))))"
proof (rule then_do_requests)
  show "same_requests t (fst (set_entry t oid e', y))" if "audit_event H s kind out h now reasons = (t, Inr x)" for t x
    using that assms by (auto elim!: audit_event_cases intro!: set_entry_requests)
qed simp

lemma handoff_open_requests:
  assumes "map_of (ss_entries s) oid = Some e"
  shows "same_requests s (fst (handoff_open H s ws oid token e now))"
  using assms
  by (auto simp: handoff_open_def issue_permit_def Let_def intro!: audited_entry_requests split: sum.split option.split)

lemma handoff_requests: "same_requests s (fst (handoff H s ws oid token reading))"
  by (auto simp: handoff_def intro!: then_do_requests handoff_open_requests dest: take_now_entries split: option.split)

lemma execution_allowed_requests: "same_requests s (fst (execution_allowed H s ws oid token reading))"
  by (auto simp: execution_allowed_def intro!: then_do_requests split: option.split sum.split)

lemma guard_loop_requests: "same_requests s (fst (guard_loop H s ws commands))"
proof (induction commands arbitrary: s)
  case (Cons c commands s)
  then show ?case by (cases c) (auto intro!: then_do_requests execution_allowed_requests)
qed simp

lemma execution_guard_requests: "same_requests s (fst (execution_guard H s ws commands))"
  by (simp add: execution_guard_def guard_loop_requests)

lemma update_controls_requests: "same_requests s (fst (update_controls H s fresh r1 r2))"
  by (auto simp: update_controls_def intro!: then_do_requests)

lemma session_evaluate_requests:
  assumes "map_of (ss_entries (fst (session_evaluate H fits s request reading))) oid = Some e"
  shows "en_request e = request \<or> (\<exists>e0. map_of (ss_entries s) oid = Some e0 \<and> en_request e0 = en_request e)"
  using assms
  by (auto simp: session_evaluate_def Let_def then_do_def take_now_def audit_event_def update_Some_unfold
      split: option.splits sum.splits if_split_asm prod.splits)

lemma requests_known_same: "same_requests s t \<Longrightarrow> requests_known s \<Longrightarrow> requests_known t"
  unfolding same_requests_def requests_known_def by metis

lemma requests_known_evaluate:
  assumes "requests_known s" "instrument_error (oi_instrument_id (rq_intent request)) = None"
  shows "requests_known (fst (session_evaluate H fits s request reading))"
  unfolding requests_known_def
proof (intro allI impI)
  fix oid e assume "map_of (ss_entries (fst (session_evaluate H fits s request reading))) oid = Some e"
  from session_evaluate_requests[OF this] assms show "instrument_error (oi_instrument_id (rq_intent (en_request e))) = None"
    unfolding requests_known_def by metis
qed

section \<open>Parts of a command\<close>

lemma machine_do_Inr:
  assumes "machine_do r f = (m', Inr y)"
  obtains m x where "r = (m, Inr x)" "f m x = (m', Inr y)"
  using assms by (cases r) (auto simp: machine_do_def split: sum.splits)

text \<open>A relation between machines that each part keeps is kept by a command's effect.\<close>

locale machine_steps =
  fixes H :: "account_artefact \<Rightarrow> string" and fits :: "risk_request \<Rightarrow> bool"
    and R :: "account_machine \<Rightarrow> account_machine \<Rightarrow> bool" and ok :: "account_command \<Rightarrow> bool"
  assumes same: "R m m" and trans: "R m m1 \<Longrightarrow> R m1 m2 \<Longrightarrow> R m m2"
    and request: "process_request H fits now m r = (m', Inr x) \<Longrightarrow> r \<in> set (ac_requests c) \<Longrightarrow> ok c \<Longrightarrow> R m m'"
    and market: "market_step H m book now = (m', Inr ()) \<Longrightarrow> R m m'"
    and cancel: "ledger_step H m (cancel_command now cid) = (m', Inr ()) \<Longrightarrow> R m m'"
    and controls: "controls_step H m fresh = (m', Inr ()) \<Longrightarrow> R m m'"
    and advance: "advance_step H m now = (m', Inr ()) \<Longrightarrow> R m m'"
    and reconcile: "R m (m\<lparr>am_ledger := (am_ledger m)\<lparr>ld_as_of := now\<rparr>\<rparr>)"
begin

lemma requests_R:
  "process_requests H fits now m rs = (m', Inr xs) \<Longrightarrow> set rs \<subseteq> set (ac_requests c) \<Longrightarrow> ok c \<Longrightarrow> R m m'"
proof (induction rs arbitrary: m xs)
  case (Cons r rs m xs)
  obtain m1 x where s: "process_request H fits now m r = (m1, Inr x)" "\<exists>ys. process_requests H fits now m1 rs = (m', Inr ys)"
    using Cons.prems(1) by (fastforce elim!: machine_do_Inr)
  then show ?case using Cons.IH Cons.prems(2,3) request[OF s(1) _ Cons.prems(3)] trans by auto
qed (simp add: same)

lemma effect_R:
  assumes "machine_effect H fits m c now = (m', Inr records)" "ok c"
  shows "R m m'"
proof (cases "ac_kind c")
  case AOrders
  then have "process_requests H fits now m (ac_requests c) = (m', Inr records)" using assms(1) by (simp add: machine_effect_def)
  then show ?thesis by (rule requests_R[OF _ subset_refl assms(2)])
qed (use assms in \<open>auto simp: machine_effect_def reconcile elim!: machine_do_Inr split: option.splits
    intro: market cancel controls advance\<close>)

end

definition kept_frame :: "account_machine \<Rightarrow> account_machine \<Rightarrow> bool" where
  "kept_frame m m' \<longleftrightarrow> am_definition m' = am_definition m \<and> am_sequence m' = am_sequence m \<and> am_chain m' = am_chain m \<and>
     am_now m' = am_now m"

lemma step_defs_Inr:
  "ledger_step H m c = (m', Inr u) \<Longrightarrow> \<exists>l. apply_command (paper_hash H) (am_ledger m) c = Inr l \<and> m' = m\<lparr>am_ledger := l\<rparr>"
  "evaluate_step H fits m request = (m', Inr result) \<Longrightarrow>
     \<exists>risk. session_evaluate (session_hash H) fits (am_risk m) request (Some (am_now m)) = (risk, Inr result) \<and> m' = m\<lparr>am_risk := risk\<rparr>"
  "handoff_step H m oid = (m', Inr permit) \<Longrightarrow>
     \<exists>risk. handoff (session_hash H) (am_risk m) (workspace_of m) oid (rc_fencing_token (am_controls m)) (Some (am_now m)) = (risk, Inr permit) \<and>
       m' = m\<lparr>am_risk := risk\<rparr>"
  by (auto simp: ledger_step_def evaluate_step_def handoff_step_def split: sum.splits prod.splits)

text \<open>A request that was processed: evaluated, handed off, and submitted when a permit was issued.\<close>

lemma process_requestE:
  assumes "process_request H fits now m request = (m', Inr result)"
  obtains s risk1 risk permit l where
    "oi_order_intent_id (rq_intent request) \<notin> set (am_intent_ids m)" "oi_decision_id (rq_intent request) \<notin> set (am_decision_ids m)"
    "\<not> ld_sealed (am_ledger m)" "snapshot (am_ledger m) = Inr s" "pf_is_reconciled (ps_portfolio s)"
    "session_evaluate (session_hash H) fits (am_risk m) request (Some (am_now m)) = (risk1, Inr result)"
    "handoff (session_hash H) risk1 (workspace_of m) (oi_order_intent_id (rq_intent request)) (rc_fencing_token (am_controls m)) (Some (am_now m)) = (risk, Inr permit)"
    "(case permit of None \<Rightarrow> l = am_ledger m | Some p \<Rightarrow> apply_command (paper_hash H) (am_ledger m) (submit_command now p) = Inr l)"
    "m' = m\<lparr>am_risk := risk, am_ledger := l,
        am_intent_ids := List.insert (oi_order_intent_id (rq_intent request)) (am_intent_ids m),
        am_decision_ids := List.insert (oi_decision_id (rq_intent request)) (am_decision_ids m)\<rparr>"
proof -
  let ?oid = "oi_order_intent_id (rq_intent request)"
  obtain s where pre: "?oid \<notin> set (am_intent_ids m)" "oi_decision_id (rq_intent request) \<notin> set (am_decision_ids m)"
      "\<not> ld_sealed (am_ledger m)" "snapshot (am_ledger m) = Inr s" "pf_is_reconciled (ps_portfolio s)"
    using assms by (auto simp: process_request_def Let_def split: if_split_asm sum.splits)
  have run: "machine_do (evaluate_step H fits m request) (\<lambda>m result.
      machine_do (handoff_step H m ?oid) (\<lambda>m permit.
      machine_do (case permit of None \<Rightarrow> (m, Inr ()) | Some p \<Rightarrow> ledger_step H m (submit_command now p)) (\<lambda>m _.
      (m\<lparr>am_intent_ids := List.insert ?oid (am_intent_ids m),
         am_decision_ids := List.insert (oi_decision_id (rq_intent request)) (am_decision_ids m)\<rparr>, Inr result)))) = (m', Inr result)"
    using assms pre by (simp add: process_request_def Let_def)
  obtain m1 y where m1: "evaluate_step H fits m request = (m1, Inr y)"
      "machine_do (handoff_step H m1 ?oid) (\<lambda>m permit.
      machine_do (case permit of None \<Rightarrow> (m, Inr ()) | Some p \<Rightarrow> ledger_step H m (submit_command now p)) (\<lambda>m _.
      (m\<lparr>am_intent_ids := List.insert ?oid (am_intent_ids m),
         am_decision_ids := List.insert (oi_decision_id (rq_intent request)) (am_decision_ids m)\<rparr>, Inr y))) = (m', Inr result)"
    by (rule machine_do_Inr[OF run])
  obtain m2 permit where m2: "handoff_step H m1 ?oid = (m2, Inr permit)"
      "machine_do (case permit of None \<Rightarrow> (m2, Inr ()) | Some p \<Rightarrow> ledger_step H m2 (submit_command now p)) (\<lambda>m _.
      (m\<lparr>am_intent_ids := List.insert ?oid (am_intent_ids m),
         am_decision_ids := List.insert (oi_decision_id (rq_intent request)) (am_decision_ids m)\<rparr>, Inr y)) = (m', Inr result)"
    by (rule machine_do_Inr[OF m1(2)])
  obtain m3 where m3: "(case permit of None \<Rightarrow> (m2, Inr ()) | Some p \<Rightarrow> ledger_step H m2 (submit_command now p)) = (m3, Inr ())"
      "m' = m3\<lparr>am_intent_ids := List.insert ?oid (am_intent_ids m3),
         am_decision_ids := List.insert (oi_decision_id (rq_intent request)) (am_decision_ids m3)\<rparr>" "y = result"
    by (rule machine_do_Inr[OF m2(2)]) simp
  obtain risk1 where r1: "session_evaluate (session_hash H) fits (am_risk m) request (Some (am_now m)) = (risk1, Inr result)" "m1 = m\<lparr>am_risk := risk1\<rparr>"
    using step_defs_Inr(2)[OF m1(1)] m3(3) by blast
  obtain risk where r2: "handoff (session_hash H) risk1 (workspace_of m) ?oid (rc_fencing_token (am_controls m)) (Some (am_now m)) = (risk, Inr permit)"
      "m2 = m\<lparr>am_risk := risk\<rparr>"
    using step_defs_Inr(3)[OF m2(1)] r1(2) by (auto simp: workspace_of_def)
  obtain l where "case permit of None \<Rightarrow> l = am_ledger m | Some p \<Rightarrow> apply_command (paper_hash H) (am_ledger m) (submit_command now p) = Inr l"
      "m3 = m\<lparr>am_risk := risk, am_ledger := l\<rparr>"
    using m3(1) r2(2) by (cases permit) (auto dest!: step_defs_Inr(1))
  then show ?thesis using that pre r1(1) r2(1) m3(2) by simp
qed

lemma market_stepE:
  assumes "market_step H m book now = (m', Inr ())"
  obtains risk blocked l where
    "execution_guard (session_hash H) (am_risk m) (workspace_of m) (orders_to_recheck (am_ledger m) book now) = (risk, Inr blocked)"
    "apply_command (paper_hash H) (am_ledger m) (market_command now book blocked) = Inr l" "m' = m\<lparr>am_risk := risk, am_ledger := l\<rparr>"
  using assms by (auto simp: market_step_def dest!: step_defs_Inr(1) split: prod.splits sum.splits)

lemma controls_stepE:
  assumes "controls_step H m fresh = (m', Inr ())"
  obtains risk where "update_controls (session_hash H) (am_risk m) fresh (Some (am_now m)) (Some (am_now m)) = (risk, Inr ())"
    "m' = m\<lparr>am_risk := risk, am_controls := fresh\<rparr>"
  using assms by (auto simp: controls_step_def split: prod.splits sum.splits)

lemma advance_stepE:
  assumes "advance_step H m now = (m', Inr ())"
  obtains l risk where "begin_generation (am_ledger m) now = Inr l" "machine_risk H (am_definition m) l (am_controls m) = Inr risk"
    "m' = m\<lparr>am_ledger := l, am_generation := am_generation m + 1, am_risk := risk\<rparr>"
  using assms by (auto simp: advance_step_def Let_def split: sum.splits)

interpretation frame: machine_steps H fits kept_frame "\<lambda>_. True" for H fits
  by unfold_locales
    (auto simp: kept_frame_def elim!: process_requestE market_stepE controls_stepE advance_stepE dest!: step_defs_Inr(1))

lemma machine_applyE:
  assumes "machine_apply H bytes fits m c now = (m', Inr receipt)"
  obtains m1 records where
    "bytes (JCommand c) \<le> MAX_ARTIFACT_BYTES" "ac_generation c = am_generation m" "am_now m \<le> now"
    "machine_effect H fits (m\<lparr>am_now := now\<rparr>) c now = (m1, Inr records)" "snapshot (am_ledger m1) = Inr (rt_state receipt)"
    "m' = m1\<lparr>am_sequence := am_sequence m + 1, am_chain := rt_state_hash receipt\<rparr>" "kept_frame (m\<lparr>am_now := now\<rparr>) m1"
    "rt_sequence receipt = am_sequence m + 1" "rt_risk_records receipt = records"
    "rt_state_hash receipt = H (AChain (am_chain m) (am_sequence m + 1) (am_generation m1) c now (rt_state receipt) (ss_audit (am_risk m1)))"
proof -
  have pre: "bytes (JCommand c) \<le> MAX_ARTIFACT_BYTES" "ac_generation c = am_generation m" "am_now m \<le> now"
    using assms by (auto simp: machine_apply_def detached_def not_less split: if_split_asm)
  then obtain m1 records where e: "machine_effect H fits (m\<lparr>am_now := now\<rparr>) c now = (m1, Inr records)" "seal_step H m1 c now records = (m', Inr receipt)"
    using assms by (auto simp: machine_apply_def detached_def elim!: machine_do_Inr split: if_split_asm)
  have k: "kept_frame (m\<lparr>am_now := now\<rparr>) m1" by (rule frame.effect_R[OF e(1)]) simp
  then show ?thesis
    using that[OF pre e(1)] e(2) by (auto simp: seal_step_def Let_def kept_frame_def split: sum.splits)
qed

end
