(* ===== verification/WorkflowRuns.thy ===== *)
theory WorkflowRuns
  imports WorkflowSteps
begin

text \<open>
  The account machine over a journal: the accounting invariant of its ledger through every command and
  generation, and the ids of the intents and decisions it has processed.
\<close>

section \<open>The invariant of a machine\<close>

definition machine_ok :: "(account_artefact \<Rightarrow> string) \<Rightarrow> account_machine \<Rightarrow> bool" where
  "machine_ok H m \<longleftrightarrow> session_ok (session_hash H) (am_risk m) \<and> requests_known (am_risk m) \<and> ledger_ok (am_ledger m)"

lemma handed_off_sound:
  assumes "handoff H s ws oid token reading = (t, Inr (Some p))" "session_ok H s" "requests_known t"
  shows "permit_sound p"
proof -
  have "issued t p" by (rule handoff_issued(1)[OF assms(1,2)])
  then show ?thesis using assms(3) by (fastforce simp: permit_sound_def issued_def requests_known_def)
qed

lemma init_requests_known: "init_session H environment portfolio controls registrations capacity = Inr s \<Longrightarrow> requests_known s"
  by (auto simp: init_session_def requests_known_def bindE_Inr_iff)

lemma machine_risk_ok:
  "machine_risk H d l controls = Inr s \<Longrightarrow> session_ok (session_hash H) s \<and> requests_known s"
  by (auto simp: machine_risk_def intro: init_session_ok init_requests_known split: sum.splits)

lemma ledger_ok_as_of: "ledger_ok (l\<lparr>ld_as_of := now\<rparr>) = ledger_ok l"
  by (rule iffI; erule ledger_ok_frame[rotated -1]; simp add: held_def)

lemma process_request_ok:
  assumes run: "process_request H fits now m r = (m', Inr x)" and known: "instrument_error (oi_instrument_id (rq_intent r)) = None"
    and ok: "machine_ok H m"
  shows "machine_ok H m'"
proof (rule process_requestE[OF run])
  fix s risk1 risk permit l
  let ?oid = "oi_order_intent_id (rq_intent r)"
  assume e: "session_evaluate (session_hash H) fits (am_risk m) r (Some (am_now m)) = (risk1, Inr x)"
    and h: "handoff (session_hash H) risk1 (workspace_of m) ?oid (rc_fencing_token (am_controls m)) (Some (am_now m)) = (risk, Inr permit)"
    and l: "case permit of None \<Rightarrow> l = am_ledger m | Some p \<Rightarrow> apply_command (paper_hash H) (am_ledger m) (submit_command now p) = Inr l"
    and m': "m' = m\<lparr>am_risk := risk, am_ledger := l, am_intent_ids := List.insert ?oid (am_intent_ids m),
        am_decision_ids := List.insert (oi_decision_id (rq_intent r)) (am_decision_ids m)\<rparr>"
  have ok0: "session_ok (session_hash H) (am_risk m)" "requests_known (am_risk m)" "ledger_ok (am_ledger m)"
    using ok by (simp_all add: machine_ok_def)
  have c1: "changes (session_hash H) (am_risk m) risk1"
    using session_evaluate_changes[of "session_hash H" "am_risk m" fits r "Some (am_now m)"] e by simp
  have c2: "changes (session_hash H) risk1 risk"
    using handoff_changes[of "session_hash H" risk1] h by (metis fst_conv)
  have s1: "session_ok (session_hash H) risk1" by (rule risk_gate.changes_inv[OF c1 ok0(1)])
  have s2: "session_ok (session_hash H) risk" by (rule risk_gate.changes_inv[OF c2 s1])
  have k1: "requests_known risk1" using requests_known_evaluate[OF ok0(2) known, of "session_hash H" fits "Some (am_now m)"] e by simp
  have "same_requests risk1 risk" using handoff_requests[of risk1 "session_hash H"] h by (metis fst_conv)
  then have k2: "requests_known risk" using requests_known_same k1 by blast
  have "ledger_ok l"
  proof (cases permit)
    case (Some p)
    have "permit_sound p" using handed_off_sound[OF h[unfolded Some] s1 k2] .
    then show ?thesis
      using ledger_ok_apply_sound[OF ok0(3), of "paper_hash H" "submit_command now p" l] l Some by (simp add: submit_command_def)
  qed (use l ok0(3) in simp)
  then show ?thesis using s2 k2 m' by (simp add: machine_ok_def)
qed

interpretation sound: machine_steps H fits "\<lambda>m m'. machine_ok H m \<longrightarrow> machine_ok H m'"
    "\<lambda>c. account_command_error c = None" for H fits
proof
  show "machine_ok H m \<longrightarrow> machine_ok H m'"
    if "process_request H fits now m r = (m', Inr x)" "r \<in> set (ac_requests c)" "account_command_error c = None" for now m r m' x c
  proof -
    have "instrument_error (oi_instrument_id (rq_intent r)) = None"
      using that(2,3) by (auto simp: account_command_error_def list_ex_iff split: if_split_asm)
    then show ?thesis using process_request_ok[OF that(1)] by blast
  qed
  show "machine_ok H m \<longrightarrow> machine_ok H m'" if "market_step H m book now = (m', Inr ())" for m book now m'
  proof (rule market_stepE[OF that])
    fix risk blocked l
    assume g: "execution_guard (session_hash H) (am_risk m) (workspace_of m) (orders_to_recheck (am_ledger m) book now) = (risk, Inr blocked)"
      and a: "apply_command (paper_hash H) (am_ledger m) (market_command now book blocked) = Inr l" and m': "m' = m\<lparr>am_risk := risk, am_ledger := l\<rparr>"
    have c: "changes (session_hash H) (am_risk m) risk" "same_requests (am_risk m) risk"
      using execution_guard_changes[of "session_hash H" "am_risk m"] execution_guard_requests[of "am_risk m" "session_hash H"] g by (metis fst_conv)+
    show ?thesis
      using risk_gate.changes_inv[OF c(1)] requests_known_same[OF c(2)] ledger_ok_apply_sound[OF _ a] m'
      by (auto simp: machine_ok_def market_command_def)
  qed
  show "machine_ok H m \<longrightarrow> machine_ok H m'" if "ledger_step H m (cancel_command now cid) = (m', Inr ())" for m now cid m'
    using step_defs_Inr(1)[OF that] ledger_ok_apply_sound[of "am_ledger m" "paper_hash H" "cancel_command now cid"]
    by (auto simp: machine_ok_def cancel_command_def)
  show "machine_ok H m \<longrightarrow> machine_ok H m'" if "controls_step H m fresh = (m', Inr ())" for m fresh m'
  proof (rule controls_stepE[OF that])
    fix risk
    assume u: "update_controls (session_hash H) (am_risk m) fresh (Some (am_now m)) (Some (am_now m)) = (risk, Inr ())"
      and m': "m' = m\<lparr>am_risk := risk, am_controls := fresh\<rparr>"
    have c: "changes (session_hash H) (am_risk m) risk" "same_requests (am_risk m) risk"
      using update_controls_changes[of "session_hash H" "am_risk m" fresh] update_controls_requests[of "am_risk m" "session_hash H" fresh] u
      by (metis fst_conv)+
    show ?thesis using risk_gate.changes_inv[OF c(1)] requests_known_same[OF c(2)] m' by (auto simp: machine_ok_def)
  qed
  show "machine_ok H m \<longrightarrow> machine_ok H m'" if "advance_step H m now = (m', Inr ())" for m now m'
    using that machine_risk_ok by (auto simp: machine_ok_def intro: ledger_ok_generation elim!: advance_stepE)
qed (auto simp: machine_ok_def ledger_ok_as_of)

lemma machine_apply_ok:
  assumes "machine_apply H bytes fits m c now = (m', Inr receipt)" "account_command_error c = None" "machine_ok H m"
  shows "machine_ok H m'"
proof (rule machine_applyE[OF assms(1)])
  fix m1 records
  assume e: "machine_effect H fits (m\<lparr>am_now := now\<rparr>) c now = (m1, Inr records)"
    and m': "m' = m1\<lparr>am_sequence := am_sequence m + 1, am_chain := rt_state_hash receipt\<rparr>"
  have "machine_ok H m1" using sound.effect_R[OF e assms(2)] assms(3) by (simp add: machine_ok_def)
  then show ?thesis by (simp add: m' machine_ok_def)
qed

lemma machine_init_ok:
  assumes "machine_init H bytes d = Inr m" "account_definition_error H d = None"
  shows "machine_ok H m"
proof -
  have v: "portfolio_error (df_initial_portfolio d) = None" "paper_config_error (df_config d) = None"
    using assms(2) by (auto simp: account_definition_error_def Let_def split: if_split_asm)
  obtain l risk where "ledger_init (df_account_id d) (df_initial_portfolio d) (df_config d) = Inr l" "am_ledger m = l"
      "machine_risk H d l (df_controls d) = Inr risk" "am_risk m = risk"
    using assms(1) by (fastforce simp: machine_init_def ledger_do_def detached_def elim!: bindE_InrE split: sum.splits if_split_asm)
  then show ?thesis using ledger_ok_init[OF _ v] machine_risk_ok by (fastforce simp: machine_ok_def)
qed

lemma replay_events_ok:
  "replay_events H bytes fits m es = Inr m' \<Longrightarrow> machine_ok H m \<Longrightarrow>
   \<forall>e \<in> set es. account_command_error (wv_command e) = None \<Longrightarrow> machine_ok H m'"
proof (induction es arbitrary: m)
  case (Cons e es m)
  obtain m1 r where s: "machine_apply H bytes fits m (wv_command e) (wv_occurred_at e) = (m1, Inr r)" "replay_events H bytes fits m1 es = Inr m'"
    using Cons.prems(1) by (auto split: if_split_asm prod.splits sum.splits)
  then show ?case using Cons.IH machine_apply_ok[OF s(1)] Cons.prems(2,3) by simp
qed simp

lemma reconstruct_ok:
  assumes "reconstruct H bytes fits d es = Inr m" "account_definition_error H d = None"
    and "\<forall>e \<in> set es. account_command_error (wv_command e) = None"
  shows "machine_ok H m"
  using assms machine_init_ok replay_events_ok by (auto simp: reconstruct_def elim!: bindE_InrE)

section \<open>Journals\<close>

lemma replay_events_append:
  "replay_events H bytes fits m (es @ fs) = bindE (replay_events H bytes fits m es) (\<lambda>m. replay_events H bytes fits m fs)"
  by (induction es arbitrary: m) (auto split: prod.split sum.split)

lemma replay_events_sequences:
  "replay_events H bytes fits m es = Inr m' \<Longrightarrow>
   am_sequence m' = am_sequence m + int (length es) \<and> (\<forall>e \<in> set es. am_sequence m < wv_sequence e \<and> wv_sequence e \<le> am_sequence m')"
proof (induction es arbitrary: m)
  case (Cons e es m)
  obtain m1 r where s: "machine_apply H bytes fits m (wv_command e) (wv_occurred_at e) = (m1, Inr r)" "replay_events H bytes fits m1 es = Inr m'"
      "wv_sequence e = am_sequence m + 1"
    using Cons.prems(1) by (auto split: if_split_asm prod.splits sum.splits)
  have m1: "am_sequence m1 = am_sequence m + 1" by (rule machine_applyE[OF s(1)]) simp
  then show ?case using Cons.IH[OF s(2)] s(3) by force
qed simp

section \<open>Intents are processed once\<close>

definition command_orders :: "account_command \<Rightarrow> risk_request list" where
  "command_orders c = (if ac_kind c = AOrders then ac_requests c else [])"

definition order_ids :: "risk_request list \<Rightarrow> string list" where
  "order_ids rs = map (\<lambda>r. oi_order_intent_id (rq_intent r)) rs"

definition decision_ids :: "risk_request list \<Rightarrow> string list" where
  "decision_ids rs = map (\<lambda>r. oi_decision_id (rq_intent r)) rs"

text \<open>The machine has taken the requests: their ids were new, and now they are known.\<close>

definition takes :: "account_machine \<Rightarrow> risk_request list \<Rightarrow> account_machine \<Rightarrow> bool" where
  "takes m rs m' \<longleftrightarrow> distinct (order_ids rs) \<and> distinct (decision_ids rs) \<and>
     set (order_ids rs) \<inter> set (am_intent_ids m) = {} \<and> set (decision_ids rs) \<inter> set (am_decision_ids m) = {} \<and>
     set (am_intent_ids m') = set (order_ids rs) \<union> set (am_intent_ids m) \<and>
     set (am_decision_ids m') = set (decision_ids rs) \<union> set (am_decision_ids m)"

lemma takes_append: "takes m rs m1 \<Longrightarrow> takes m1 qs m2 \<Longrightarrow> takes m (rs @ qs) m2"
  by (auto simp: takes_def order_ids_def decision_ids_def)

lemma takes_nothing: "am_intent_ids m' = am_intent_ids m \<Longrightarrow> am_decision_ids m' = am_decision_ids m \<Longrightarrow> takes m [] m'"
  by (simp add: takes_def order_ids_def decision_ids_def)

lemma process_request_takes: "process_request H fits now m r = (m', Inr x) \<Longrightarrow> takes m [r] m'"
  by (erule process_requestE) (simp add: takes_def order_ids_def decision_ids_def)

lemma process_requests_take: "process_requests H fits now m rs = (m', Inr xs) \<Longrightarrow> takes m rs m'"
proof (induction rs arbitrary: m xs)
  case (Cons r rs m xs)
  obtain m1 x where s: "process_request H fits now m r = (m1, Inr x)" "\<exists>ys. process_requests H fits now m1 rs = (m', Inr ys)"
    using Cons.prems(1) by (fastforce elim!: machine_do_Inr)
  then show ?case using Cons.IH takes_append[OF process_request_takes[OF s(1)], of rs m'] by auto
qed (simp add: takes_nothing)

lemma machine_effect_takes:
  assumes "machine_effect H fits m c now = (m', Inr records)"
  shows "takes m (command_orders c) m'"
proof (cases "ac_kind c = AOrders")
  case True
  then show ?thesis using assms process_requests_take by (simp add: machine_effect_def command_orders_def)
next
  case False
  have "am_intent_ids m' = am_intent_ids m \<and> am_decision_ids m' = am_decision_ids m"
    using assms False
    by (cases "ac_kind c") (auto simp: machine_effect_def dest!: step_defs_Inr(1) split: option.splits
        elim!: machine_do_Inr market_stepE controls_stepE advance_stepE)
  then show ?thesis using False takes_nothing by (simp add: command_orders_def)
qed

lemma machine_apply_takes:
  assumes "machine_apply H bytes fits m c now = (m', Inr receipt)"
  shows "takes m (command_orders c) m'"
  using assms by (rule machine_applyE) (use machine_effect_takes in \<open>fastforce simp: takes_def\<close>)

lemma replay_events_take:
  "replay_events H bytes fits m es = Inr m' \<Longrightarrow> takes m (concat (map (\<lambda>e. command_orders (wv_command e)) es)) m'"
proof (induction es arbitrary: m)
  case (Cons e es m)
  obtain m1 r where s: "machine_apply H bytes fits m (wv_command e) (wv_occurred_at e) = (m1, Inr r)" "replay_events H bytes fits m1 es = Inr m'"
    using Cons.prems(1) by (auto split: if_split_asm prod.splits sum.splits)
  then show ?case using takes_append[OF machine_apply_takes[OF s(1)] Cons.IH[OF s(2)]] by simp
qed (simp add: takes_nothing)

end
