(* ===== verification/WorkflowRepo.thy ===== *)
theory WorkflowRepo
  imports WorkflowRuns
begin

text \<open>
  The account repository over sequences of transactions: what every row of a reachable database satisfies, what
  stays of a row whatever follows, and what the unique constraints of the tables can still refuse.
\<close>

section \<open>Transactions\<close>

datatype repo_call =
    RepoCreate account_definition
  | RepoAcquire account_ref string int datetime
  | RepoRelease lease datetime
  | RepoCommit lease account_command "datetime \<times> datetime \<times> datetime \<times> datetime"

definition repo_transaction ::
    "(account_artefact \<Rightarrow> string) \<Rightarrow> (account_json \<Rightarrow> int) \<Rightarrow> (risk_request \<Rightarrow> bool) \<Rightarrow> engine_db \<Rightarrow> repo_call \<Rightarrow> durable_error + engine_db" where
  "repo_transaction H bytes fits db call =
     (case call of
        RepoCreate d \<Rightarrow> bindE (repo_create H bytes db d) (\<lambda>(db', _). Inr db')
      | RepoAcquire ref owner duration now \<Rightarrow> bindE (repo_acquire db ref owner duration now) (\<lambda>(db', _). Inr db')
      | RepoRelease l now \<Rightarrow> bindE (repo_release db l now) (\<lambda>(db', _). Inr db')
      | RepoCommit l c readings \<Rightarrow> bindE (repo_commit H bytes fits db l c readings) (\<lambda>(db', _). Inr db'))"

text \<open>
  A store under transactions: one that raises is rolled back. What every committed transaction keeps, and how it
  relates the store before to the store after, holds of a whole run.
\<close>

fun transact :: "('s \<Rightarrow> 'c \<Rightarrow> 'e + 's) \<Rightarrow> 's \<Rightarrow> 'c list \<Rightarrow> 's" where
  "transact step s [] = s"
| "transact step s (c # cs) = transact step (case step s c of Inl e \<Rightarrow> s | Inr t \<Rightarrow> t) cs"

lemma transact_append: "transact step s (cs @ ds) = transact step (transact step s cs) ds"
  by (induction cs arbitrary: s) simp_all

locale transactional =
  fixes step :: "'s \<Rightarrow> 'c \<Rightarrow> 'e + 's" and inv :: "'s \<Rightarrow> bool" and ok :: "'c \<Rightarrow> bool" and R :: "'s \<Rightarrow> 's \<Rightarrow> bool"
  assumes keeps: "step s c = Inr t \<Longrightarrow> inv s \<Longrightarrow> ok c \<Longrightarrow> inv t"
    and related: "step s c = Inr t \<Longrightarrow> inv s \<Longrightarrow> ok c \<Longrightarrow> R s t"
    and R_refl: "R s s" and R_trans: "R s t \<Longrightarrow> R t u \<Longrightarrow> R s u"
begin

lemma transact_keeps: "inv s \<Longrightarrow> list_all ok cs \<Longrightarrow> inv (transact step s cs) \<and> R s (transact step s cs)"
proof (induction cs arbitrary: s)
  case (Cons c cs)
  show ?case
  proof (cases "step s c")
    case (Inr t)
    then show ?thesis using Cons keeps[OF Inr] related[OF Inr] R_trans by auto
  qed (use Cons in simp)
qed (simp add: R_refl)

end

section \<open>Rows\<close>

definition row_ok :: "(account_artefact \<Rightarrow> string) \<Rightarrow> (account_json \<Rightarrow> int) \<Rightarrow> (risk_request \<Rightarrow> bool) \<Rightarrow> account_row \<Rightarrow> bool" where
  "row_ok H bytes fits row \<longleftrightarrow> aw_definition_hash row = H (ADefinition (aw_definition row)) \<and> 0 \<le> aw_lease_token row \<and>
     (\<forall>r \<in> set (aw_commands row). cr_request_hash r = H (ACommand (cr_command r)) \<and> cr_key r = ac_key (cr_command r) \<and>
        cr_market r = command_market (cr_command r)) \<and>
     (\<exists>m. reconstruct H bytes fits (aw_definition row) (map event_of (aw_commands row)) = Inr m \<and>
        am_sequence m = aw_head_sequence row \<and> am_chain m = aw_head_hash row \<and> rt_state_hash (aw_head_receipt row) = am_chain m \<and>
        snapshot (am_ledger m) = Inr (rt_state (aw_head_receipt row)))"

lemma events_of_ok:
  "\<forall>r \<in> set rs. cr_request_hash r = H (ACommand (cr_command r)) \<Longrightarrow> events_of H rs = Inr (map event_of rs)"
  by (induction rs) simp_all

lemma machine_of_ok:
  assumes "row_ok H bytes fits row"
  obtains m where "machine_of H bytes fits row = Inr m" "reconstruct H bytes fits (aw_definition row) (map event_of (aw_commands row)) = Inr m"
    "am_sequence m = aw_head_sequence row" "am_chain m = aw_head_hash row" "snapshot (am_ledger m) = Inr (rt_state (aw_head_receipt row))"
    "rt_state_hash (aw_head_receipt row) = am_chain m"
proof -
  obtain m where m: "reconstruct H bytes fits (aw_definition row) (map event_of (aw_commands row)) = Inr m"
      "am_sequence m = aw_head_sequence row" "am_chain m = aw_head_hash row" "rt_state_hash (aw_head_receipt row) = am_chain m"
      "snapshot (am_ledger m) = Inr (rt_state (aw_head_receipt row))"
    using assms unfolding row_ok_def by blast
  have e: "events_of H (aw_commands row) = Inr (map event_of (aw_commands row))"
    using assms by (intro events_of_ok) (simp add: row_ok_def)
  have "machine_of H bytes fits row = Inr m"
    using assms m by (simp add: machine_of_def row_ok_def e ledger_do_def)
  then show ?thesis using that m by blast
qed

lemma machine_of_Inr:
  "machine_of H bytes fits row = Inr m \<Longrightarrow> row_ok H bytes fits row \<Longrightarrow>
   reconstruct H bytes fits (aw_definition row) (map event_of (aw_commands row)) = Inr m"
  by (erule machine_of_ok) simp

lemma row_sequences:
  assumes "row_ok H bytes fits row"
  shows "aw_head_sequence row = int (length (aw_commands row))" "\<forall>r \<in> set (aw_commands row). cr_sequence r \<le> aw_head_sequence row"
proof -
  obtain m m0 where m: "am_sequence m = aw_head_sequence row" "machine_init H bytes (aw_definition row) = Inr m0"
      "replay_events H bytes fits m0 (map event_of (aw_commands row)) = Inr m"
    using assms by (auto simp: row_ok_def reconstruct_def elim!: bindE_InrE)
  have m0: "am_sequence m0 = 0" using m(2) by (auto simp: machine_init_def elim!: bindE_InrE)
  show "aw_head_sequence row = int (length (aw_commands row))" "\<forall>r \<in> set (aw_commands row). cr_sequence r \<le> aw_head_sequence row"
    using replay_events_sequences[OF m(3)] m(1) m0 by (auto simp: event_of_def)
qed

text \<open>The row of an account that a run keeps: the definition, the commands so far, and a token
  that never decreases and stays with its owner.\<close>

definition row_extends :: "account_row \<Rightarrow> account_row \<Rightarrow> bool" where
  "row_extends row row' \<longleftrightarrow> aw_definition row' = aw_definition row \<and> aw_lease_token row \<le> aw_lease_token row' \<and>
     (aw_lease_token row' = aw_lease_token row \<longrightarrow> aw_lease_owner row' = aw_lease_owner row) \<and> (\<exists>rs. aw_commands row' = aw_commands row @ rs)"

lemma row_extends_refl [simp]: "row_extends row row"
  by (simp add: row_extends_def)

lemma row_extends_trans: "row_extends a b \<Longrightarrow> row_extends b c \<Longrightarrow> row_extends a c"
  by (force simp: row_extends_def)

definition db_extends :: "engine_db \<Rightarrow> engine_db \<Rightarrow> bool" where
  "db_extends db db' \<longleftrightarrow> (\<forall>key row. map_of (db_accounts db) key = Some row \<longrightarrow>
     (\<exists>row'. map_of (db_accounts db') key = Some row' \<and> row_extends row row'))"

definition db_ok :: "(account_artefact \<Rightarrow> string) \<Rightarrow> (account_json \<Rightarrow> int) \<Rightarrow> (risk_request \<Rightarrow> bool) \<Rightarrow> engine_db \<Rightarrow> bool" where
  "db_ok H bytes fits db \<longleftrightarrow> (\<forall>key row. map_of (db_accounts db) key = Some row \<longrightarrow> row_ok H bytes fits row)"

lemma db_extends_refl [simp]: "db_extends db db"
  by (simp add: db_extends_def)

lemma db_extends_trans: "db_extends a b \<Longrightarrow> db_extends b c \<Longrightarrow> db_extends a c"
  unfolding db_extends_def by (meson row_extends_trans)

lemma put_row_keeps:
  assumes "map_of (db_accounts db) key = Some row" "row_extends row row'"
  shows "db_extends db (put_row db key row')"
  using assms by (auto simp: db_extends_def put_row_def update_Some_unfold update_conv)

lemma put_row_ok: "db_ok H bytes fits db \<Longrightarrow> row_ok H bytes fits row \<Longrightarrow> db_ok H bytes fits (put_row db key row)"
  by (auto simp: db_ok_def put_row_def update_Some_unfold)

lemma put_row_accounts [simp]: "map_of (db_accounts (put_row db key row)) key = Some row"
  by (simp add: put_row_def update_conv)

lemma add_outbox_accounts [simp]: "db_accounts (add_outbox H db l receipt) = db_accounts db"
  by (simp add: add_outbox_def Let_def)

lemma add_outbox_db [simp]:
  "db_ok H bytes fits (add_outbox H db l receipt) = db_ok H bytes fits db" "db_extends a (add_outbox H db l receipt) = db_extends a db"
  by (simp_all add: db_ok_def db_extends_def)

lemma account_row_of_Inr: "account_row_of db ref = Inr row \<longleftrightarrow> map_of (db_accounts db) (row_key ref) = Some row"
  by (auto simp: account_row_of_def of_option_def split: option.splits)

lemma db_ok_row: "db_ok H bytes fits db \<Longrightarrow> account_row_of db ref = Inr row \<Longrightarrow> row_ok H bytes fits row"
  unfolding db_ok_def account_row_of_Inr by metis

section \<open>Each transaction\<close>

definition opened_row ::
    "(account_artefact \<Rightarrow> string) \<Rightarrow> account_definition \<Rightarrow> account_receipt \<Rightarrow> int \<Rightarrow> account_row" where
  "opened_row H d receipt used =
     \<lparr>aw_definition = d, aw_definition_hash = H (ADefinition d), aw_head_sequence = 0, aw_head_hash = H (ADefinition d),
      aw_head_receipt = receipt, aw_bytes_used = used, aw_lease_token = 0, aw_lease_owner = None, aw_lease_until = None,
      aw_commands = []\<rparr>"

lemma machine_init_fields:
  "machine_init H bytes d = Inr m \<Longrightarrow> am_definition m = d \<and> am_sequence m = 0 \<and> am_chain m = H (ADefinition d) \<and>
   workspace_of m = pf_workspace_id (df_initial_portfolio d)"
  by (auto simp: machine_init_def ledger_do_def detached_def workspace_of_def elim!: bindE_InrE split: sum.splits if_split_asm)

lemma opened_row_ok:
  assumes "machine_init H bytes d = Inr m" "initial_receipt m = Inr receipt"
  shows "row_ok H bytes fits (opened_row H d receipt used)"
  using assms machine_init_fields[OF assms(1)]
  by (auto simp: row_ok_def opened_row_def reconstruct_def initial_receipt_def ledger_do_def elim!: bindE_InrE split: sum.splits)

lemma repo_createE:
  assumes "repo_create H bytes db d = Inr (db', receipt)"
  obtains (existing) row where "map_of (db_accounts db) (pf_workspace_id (df_initial_portfolio d), df_account_id d) = Some row" "db' = db"
      "aw_definition_hash row = H (ADefinition d)" "receipt = aw_head_receipt row"
  | (fresh) m used where "map_of (db_accounts db) (pf_workspace_id (df_initial_portfolio d), df_account_id d) = None"
      "machine_init H bytes d = Inr m" "initial_receipt m = Inr receipt"
      "db' = db\<lparr>db_accounts := db_accounts db @ [((pf_workspace_id (df_initial_portfolio d), df_account_id d), opened_row H d receipt used)]\<rparr>"
proof -
  let ?key = "(pf_workspace_id (df_initial_portfolio d), df_account_id d)"
  obtain m r where m: "machine_init H bytes d = Inr m" "initial_receipt m = Inr r"
    using assms by (auto simp: repo_create_def ledger_do_def detached_def Let_def elim!: bindE_InrE split: sum.splits if_split_asm)
  note w = machine_init_fields[OF m(1)]
  show ?thesis
  proof (cases "map_of (db_accounts db) ?key")
    case None
    then show ?thesis
      using assms m w fresh[OF None m(1)]
      by (auto simp: repo_create_def ledger_do_def detached_def Let_def of_option_def map_add_def opened_row_def
          elim!: bindE_InrE split: sum.splits if_split_asm)
  next
    case (Some row)
    then show ?thesis
      using assms m w existing[OF Some]
      by (auto simp: repo_create_def ledger_do_def detached_def Let_def of_option_def elim!: bindE_InrE split: sum.splits if_split_asm)
  qed
qed

lemma repo_acquireE:
  assumes "repo_acquire db ref owner duration now = Inr (db', l)"
  obtains row where "map_of (db_accounts db) (row_key ref) = Some row" "\<not> (lease_active row now \<and> aw_lease_owner row \<noteq> Some owner)"
    "le_token l = (if lease_active row now then aw_lease_token row else aw_lease_token row + 1)" "le_owner l = owner"
    "le_expires_at l = now + seconds duration" "row_key l = row_key ref"
    "db' = put_row db (row_key ref) (row\<lparr>aw_lease_owner := Some owner, aw_lease_token := le_token l, aw_lease_until := Some (le_expires_at l)\<rparr>)"
  using assms by (auto simp: repo_acquire_def Let_def account_row_of_Inr row_key_def elim!: bindE_InrE split: if_split_asm)

lemma repo_releaseE:
  assumes "repo_release db l now = Inr (db', u)"
  obtains "db' = db" | row where "map_of (db_accounts db) (row_key l) = Some row" "db' = put_row db (row_key l) (row\<lparr>aw_lease_until := Some now\<rparr>)"
  using assms by (auto simp: repo_release_def split: option.splits if_split_asm)

text \<open>The row a commit writes.\<close>

definition committed_row ::
    "(account_artefact \<Rightarrow> string) \<Rightarrow> lease \<Rightarrow> account_row \<Rightarrow> account_command \<Rightarrow> account_receipt \<Rightarrow> int \<Rightarrow> datetime \<Rightarrow> account_row" where
  "committed_row H l row c receipt used now = row\<lparr>aw_head_sequence := rt_sequence receipt, aw_head_hash := rt_state_hash receipt,
     aw_head_receipt := receipt, aw_bytes_used := used, aw_commands := aw_commands row @ [new_row H l c receipt now]\<rparr>"

lemma repo_commitE:
  assumes "repo_commit H bytes fits db l c (checked, now, t1, t2) = Inr (db', (receipt, replayed))"
  obtains (replay) row where "replayed" "db' = db" "map_of (db_accounts db) (row_key l) = Some row" "prior_receipt H row c = Inr (Some receipt)"
  | (fresh) row m m' used where "\<not> replayed" "map_of (db_accounts db) (row_key l) = Some row" "prior_receipt H row c = Inr None"
      "\<not> lease_stale row l checked" "machine_of H bytes fits row = Inr m" "machine_apply H bytes fits m c now = (m', Inr receipt)"
      "db' = add_outbox H (put_row db (row_key l) (committed_row H l row c receipt used now)) l receipt" "used \<le> MAX_BYTES"
proof -
  obtain row prior where r: "account_row_of db l = Inr row" "prior_receipt H row c = Inr prior"
    using assms by (auto simp: repo_commit_def commit_in_transaction_def ledger_do_def detached_def elim!: bindE_InrE split: if_split_asm sum.splits)
  note row = r(1)[unfolded account_row_of_Inr]
  show ?thesis
  proof (cases prior)
    case (Some x)
    then show ?thesis
      using assms r replay[OF _ _ row]
      by (auto simp: repo_commit_def commit_in_transaction_def ledger_do_def detached_def elim!: bindE_InrE split: if_split_asm sum.splits)
  next
    case None
    obtain m where m: "machine_of H bytes fits row = Inr m" "\<not> lease_stale row l checked"
        "commit_new H bytes fits db l row m c now t1 t2 = Inr (db', (receipt, replayed))"
      using assms r None
      by (auto simp: repo_commit_def commit_in_transaction_def ledger_do_def detached_def elim!: bindE_InrE split: if_split_asm sum.splits)
    then show ?thesis
      using fresh[OF _ row r(2)[unfolded None] m(2,1)]
      by (auto simp: commit_new_def Let_def committed_row_def elim!: bindE_InrE split: prod.splits sum.splits if_split_asm)
  qed
qed

lemma committed_row_ok:
  assumes ok: "row_ok H bytes fits row" and m: "machine_of H bytes fits row = Inr m" and a: "machine_apply H bytes fits m c now = (m', Inr receipt)"
  shows "row_ok H bytes fits (committed_row H l row c receipt used now)"
    "machine_of H bytes fits (committed_row H l row c receipt used now) = Inr m'"
proof -
  have m': "am_sequence m' = rt_sequence receipt" "am_chain m' = rt_state_hash receipt" "snapshot (am_ledger m') = Inr (rt_state receipt)"
      "rt_sequence receipt = am_sequence m + 1"
    by (rule machine_applyE[OF a]; simp)+
  have "reconstruct H bytes fits (aw_definition row) (map event_of (aw_commands row)) = Inr m"
    by (rule machine_of_Inr[OF m ok])
  then have r: "reconstruct H bytes fits (aw_definition row) (map event_of (aw_commands row @ [new_row H l c receipt now])) = Inr m'"
    using a m'(4) by (auto simp: reconstruct_def replay_events_append event_of_def new_row_def elim!: bindE_InrE)
  then show new: "row_ok H bytes fits (committed_row H l row c receipt used now)"
    using ok m' by (auto simp: row_ok_def committed_row_def new_row_def)
  show "machine_of H bytes fits (committed_row H l row c receipt used now) = Inr m'"
    by (rule machine_of_ok[OF new]) (use r in \<open>simp add: committed_row_def\<close>)
qed

lemma lease_fields_ok:
  "row_ok H bytes fits row \<Longrightarrow> 0 \<le> token \<Longrightarrow>
   row_ok H bytes fits (row\<lparr>aw_lease_owner := owner, aw_lease_token := token, aw_lease_until := until\<rparr>)"
  by (simp add: row_ok_def)

lemma repo_transaction_ok:
  assumes "repo_transaction H bytes fits db call = Inr db'" "db_ok H bytes fits db"
  shows "db_ok H bytes fits db' \<and> db_extends db db'"
proof (cases call)
  case (RepoCreate d)
  then obtain receipt where "repo_create H bytes db d = Inr (db', receipt)"
    using assms(1) by (auto simp: repo_transaction_def elim!: bindE_InrE)
  then show ?thesis
  proof (cases rule: repo_createE)
    case (fresh m used)
    have "row_ok H bytes fits (opened_row H d receipt used)" by (rule opened_row_ok[OF fresh(2,3)])
    then show ?thesis using assms(2) fresh(1,4) by (auto simp: db_ok_def db_extends_def map_add_Some_iff)
  qed (use assms(2) in simp)
next
  case (RepoAcquire ref owner duration now)
  then obtain l where "repo_acquire db ref owner duration now = Inr (db', l)"
    using assms(1) by (auto simp: repo_transaction_def elim!: bindE_InrE)
  then show ?thesis
  proof (cases rule: repo_acquireE)
    case (1 row)
    let ?row = "row\<lparr>aw_lease_owner := Some owner, aw_lease_token := le_token l, aw_lease_until := Some (le_expires_at l)\<rparr>"
    have ok: "row_ok H bytes fits row" using db_ok_row[OF assms(2)] 1(1) by (simp add: account_row_of_Inr)
    have tok: "0 \<le> aw_lease_token row" using ok by (simp add: row_ok_def)
    then have new: "0 \<le> le_token l" "aw_lease_token row \<le> le_token l" using 1(3) by (auto split: if_split_asm)
    then have "row_ok H bytes fits ?row" using lease_fields_ok[OF ok] by simp
    moreover have "row_extends row ?row" using new(2) 1(2,3) by (auto simp: row_extends_def split: if_split_asm)
    ultimately show ?thesis using 1(7) put_row_ok[OF assms(2)] put_row_keeps[OF 1(1)] by simp
  qed
next
  case (RepoRelease l now)
  then obtain u where "repo_release db l now = Inr (db', u)"
    using assms(1) by (auto simp: repo_transaction_def elim!: bindE_InrE)
  then show ?thesis
  proof (cases rule: repo_releaseE)
    case (2 row)
    have ok: "row_ok H bytes fits row" using db_ok_row[OF assms(2)] 2(1) by (simp add: account_row_of_Inr)
    have "row_ok H bytes fits (row\<lparr>aw_lease_until := Some now\<rparr>)" "row_extends row (row\<lparr>aw_lease_until := Some now\<rparr>)"
      using ok by (simp_all add: row_ok_def row_extends_def)
    then show ?thesis using 2(2) put_row_ok[OF assms(2)] put_row_keeps[OF 2(1)] by simp
  qed (use assms(2) in simp)
next
  case (RepoCommit l c readings)
  obtain checked now t1 t2 where rs: "readings = (checked, now, t1, t2)" by (cases readings)
  obtain receipt replayed where "repo_commit H bytes fits db l c (checked, now, t1, t2) = Inr (db', (receipt, replayed))"
    using assms(1) by (auto simp: repo_transaction_def RepoCommit rs elim!: bindE_InrE)
  then show ?thesis
  proof (cases rule: repo_commitE)
    case (fresh row m m' used)
    have ok: "row_ok H bytes fits row" using db_ok_row[OF assms(2)] fresh(2) by (simp add: account_row_of_Inr)
    have "row_extends row (committed_row H l row c receipt used now)" by (simp add: row_extends_def committed_row_def)
    then show ?thesis
      using fresh(7) put_row_ok[OF assms(2) committed_row_ok(1)[OF ok fresh(5,6)]] put_row_keeps[OF fresh(2)] by simp
  qed (use assms(2) in simp)
qed

interpretation repository: transactional "repo_transaction H bytes fits" "db_ok H bytes fits" "\<lambda>_. True" db_extends for H bytes fits
  using repo_transaction_ok db_extends_trans by unfold_locales auto

end
