(* ===== verification/WorkflowProps.thy ===== *)
theory WorkflowProps
  imports WorkflowRepo
begin

text \<open>
  What the properties of the account repository rest on: validated calls, the errors a commit can raise, the lookup
  of earlier commands, and the fencing of leases.
\<close>

section \<open>Validated calls\<close>

definition empty_db :: engine_db where
  "empty_db = \<lparr>db_accounts = [], db_outbox = []\<rparr>"

lemma empty_db_ok [simp]: "db_ok H bytes fits empty_db"
  by (simp add: db_ok_def empty_db_def)

lemma reachable_ok:
  "db = transact (repo_transaction H bytes fits) empty_db calls \<Longrightarrow> db_ok H bytes fits db"
  using repository.transact_keeps[of H bytes fits empty_db calls] by (simp add: list_all_iff)

lemma run_extends_db:
  "db_ok H bytes fits db \<Longrightarrow> db' = transact (repo_transaction H bytes fits) db calls \<Longrightarrow>
   db_ok H bytes fits db' \<and> db_extends db db'"
  using repository.transact_keeps[of H bytes fits db calls] by (simp add: list_all_iff)

definition call_valid :: "(account_artefact \<Rightarrow> string) \<Rightarrow> repo_call \<Rightarrow> bool" where
  "call_valid H call \<longleftrightarrow> (case call of RepoCreate d \<Rightarrow> account_definition_error H d = None
     | RepoAcquire _ _ _ _ \<Rightarrow> True | RepoRelease _ _ \<Rightarrow> True | RepoCommit _ c _ \<Rightarrow> account_command_error c = None)"

definition row_valid :: "(account_artefact \<Rightarrow> string) \<Rightarrow> account_row \<Rightarrow> bool" where
  "row_valid H row \<longleftrightarrow> account_definition_error H (aw_definition row) = None \<and>
     (\<forall>r \<in> set (aw_commands row). account_command_error (cr_command r) = None)"

definition db_valid :: "(account_artefact \<Rightarrow> string) \<Rightarrow> engine_db \<Rightarrow> bool" where
  "db_valid H db \<longleftrightarrow> (\<forall>key row. map_of (db_accounts db) key = Some row \<longrightarrow> row_valid H row)"

lemma put_row_valid: "db_valid H db \<Longrightarrow> row_valid H row \<Longrightarrow> db_valid H (put_row db key row)"
  by (auto simp: db_valid_def put_row_def update_Some_unfold)

lemma db_validD: "db_valid H db \<Longrightarrow> map_of (db_accounts db) key = Some row \<Longrightarrow> row_valid H row"
  unfolding db_valid_def by blast

lemma repo_transaction_valid:
  assumes "repo_transaction H bytes fits db call = Inr db'" "db_valid H db" "call_valid H call"
  shows "db_valid H db'"
proof (cases call)
  case (RepoCreate d)
  then obtain receipt where "repo_create H bytes db d = Inr (db', receipt)"
    using assms(1) by (auto simp: repo_transaction_def elim!: bindE_InrE)
  then show ?thesis
  proof (cases rule: repo_createE)
    case (fresh m used)
    have "row_valid H (opened_row H d receipt used)"
      using assms(3) RepoCreate by (simp add: row_valid_def opened_row_def call_valid_def)
    then show ?thesis using assms(2) fresh(4) by (auto simp: db_valid_def map_add_Some_iff)
  qed (use assms(2) in simp)
next
  case (RepoAcquire ref owner duration now)
  then obtain l where "repo_acquire db ref owner duration now = Inr (db', l)"
    using assms(1) by (auto simp: repo_transaction_def elim!: bindE_InrE)
  then show ?thesis
  proof (cases rule: repo_acquireE)
    case (1 row)
    show ?thesis unfolding 1(7) using db_validD[OF assms(2) 1(1)] by (intro put_row_valid[OF assms(2)]) (simp add: row_valid_def)
  qed
next
  case (RepoRelease l now)
  then obtain u where "repo_release db l now = Inr (db', u)"
    using assms(1) by (auto simp: repo_transaction_def elim!: bindE_InrE)
  then show ?thesis
  proof (cases rule: repo_releaseE)
    case (2 row)
    show ?thesis unfolding 2(2) using db_validD[OF assms(2) 2(1)] by (intro put_row_valid[OF assms(2)]) (simp add: row_valid_def)
  qed (use assms(2) in simp)
next
  case (RepoCommit l c readings)
  obtain checked now t1 t2 where rs: "readings = (checked, now, t1, t2)" by (cases readings)
  obtain receipt replayed where "repo_commit H bytes fits db l c (checked, now, t1, t2) = Inr (db', (receipt, replayed))"
    using assms(1) by (auto simp: repo_transaction_def RepoCommit rs elim!: bindE_InrE)
  then show ?thesis
  proof (cases rule: repo_commitE)
    case (fresh row m m' used)
    have "row_valid H (committed_row H l row c receipt used now)"
      using db_validD[OF assms(2) fresh(2)] assms(3) RepoCommit
      by (auto simp: row_valid_def committed_row_def new_row_def call_valid_def)
    then have "db_valid H (put_row db (row_key l) (committed_row H l row c receipt used now))" by (rule put_row_valid[OF assms(2)])
    then show ?thesis by (simp add: fresh(7) db_valid_def)
  qed (use assms(2) in simp)
qed

interpretation validated_repository: transactional "repo_transaction H bytes fits" "db_valid H" "call_valid H" "\<lambda>_ _. True" for H bytes fits
  using repo_transaction_valid by unfold_locales auto

lemma reachable_valid:
  "db = transact (repo_transaction H bytes fits) empty_db calls \<Longrightarrow> list_all (call_valid H) calls \<Longrightarrow> db_valid H db"
  using validated_repository.transact_keeps[of H empty_db calls] by (simp add: db_valid_def empty_db_def)

lemma row_machine_ok:
  assumes "row_ok H bytes fits row" "row_valid H row" "machine_of H bytes fits row = Inr m"
  shows "machine_ok H m"
proof (rule reconstruct_ok[OF machine_of_Inr[OF assms(3,1)]])
  show "account_definition_error H (aw_definition row) = None"
    "\<forall>e \<in> set (map event_of (aw_commands row)). account_command_error (wv_command e) = None"
    using assms(2) by (auto simp: row_valid_def event_of_def)
qed

section \<open>Earlier commands\<close>

lemma find_key:
  "List.find P xs = Some x \<Longrightarrow> P x \<and> x \<in> set xs"
  by (induction xs) (auto split: if_split_asm)

lemma find_append: "List.find P (xs @ ys) = (case List.find P xs of None \<Rightarrow> List.find P ys | Some x \<Rightarrow> Some x)"
  by (induction xs) simp_all

lemma prior_none:
  assumes "prior_receipt H row c = Inr None"
  shows "\<forall>r \<in> set (aw_commands row). cr_key r \<noteq> ac_key c"
    "command_market c \<noteq> None \<Longrightarrow> \<forall>r \<in> set (aw_commands row). cr_market r \<noteq> command_market c"
proof -
  have k: "List.find (\<lambda>r. cr_key r = ac_key c) (aw_commands row) = None"
    using assms by (auto simp: prior_receipt_def split: option.splits if_split_asm)
  then show "\<forall>r \<in> set (aw_commands row). cr_key r \<noteq> ac_key c" by (simp add: find_None_iff)
  show "\<forall>r \<in> set (aw_commands row). cr_market r \<noteq> command_market c" if "command_market c \<noteq> None"
    using assms k that by (auto simp: prior_receipt_def command_market_def find_None_iff split: option.splits if_split_asm)
qed

text \<open>What the row holds after a fresh commit is found again in every extension of the row.\<close>

lemma committed_prior:
  assumes "prior_receipt H row c = Inr None" "row_extends (committed_row H l row c receipt used now) row'"
  shows "prior_receipt H row' c = Inr (Some receipt)"
proof -
  have none: "List.find (\<lambda>r. cr_key r = ac_key c) (aw_commands row) = None"
    using prior_none(1)[OF assms(1)] by (simp add: find_None_iff)
  obtain rs where rs: "aw_commands row' = (aw_commands row @ [new_row H l c receipt now]) @ rs"
    using assms(2) by (auto simp: row_extends_def committed_row_def)
  have "List.find (\<lambda>r. cr_key r = ac_key c) (aw_commands row') = Some (new_row H l c receipt now)"
    unfolding rs find_append using none by (simp add: new_row_def)
  then show ?thesis by (simp add: prior_receipt_def new_row_def)
qed

lemma prior_commit:
  assumes "prior_receipt H row c = Inr (Some receipt)" "map_of (db_accounts db) (row_key l) = Some row" "bytes (JCommand c) \<le> MAX_ARTIFACT_BYTES"
  shows "repo_commit H bytes fits db l c readings = Inr (db, (receipt, True))"
  using assms by (cases readings)
    (simp add: repo_commit_def commit_in_transaction_def detached_def ledger_do_def account_row_of_def of_option_def not_less)

lemma new_row_never_conflicts:
  assumes ok: "row_ok H bytes fits row" and p: "prior_receipt H row c = Inr None" and s: "rt_sequence receipt = aw_head_sequence row + 1"
  shows "\<not> row_conflicts (aw_commands row) (new_row H l c receipt now)"
  using row_sequences(2)[OF ok] prior_none[OF p] s by (fastforce simp: row_conflicts_def new_row_def list_ex_iff)

text \<open>A commit under a live lease with room for its artefacts.\<close>

definition alive :: "account_row \<Rightarrow> lease \<Rightarrow> datetime \<Rightarrow> bool" where
  "alive row l now \<longleftrightarrow> (case aw_lease_until row of None \<Rightarrow> False | Some until \<Rightarrow> now < min until (le_expires_at l))"

lemma fresh_commit:
  assumes row: "map_of (db_accounts db) (row_key l) = Some row" and ok: "row_ok H bytes fits row" and prior: "prior_receipt H row c = Inr None"
    and lease: "aw_lease_token row = le_token l" "aw_lease_owner row = Some (le_owner l)" "alive row l checked" "alive row l t1" "alive row l t2"
    and machine: "machine_of H bytes fits row = Inr m" "machine_apply H bytes fits m c now = (m', Inr receipt)"
    and used: "aw_head_sequence row < 1000" "bytes (JCommand c) \<le> MAX_ARTIFACT_BYTES" "bytes (JCommand c) \<le> MAX_BYTES"
      "bytes (JReceipt receipt) \<le> bytes (JReceipt (aw_head_receipt row))"
      "used = aw_bytes_used row + (bytes (JCommand c) + bytes (JReceipt receipt))" "used \<le> MAX_BYTES" "0 \<le> aw_bytes_used row" "0 \<le> bytes (JCommand c)"
  shows "repo_commit H bytes fits db l c (checked, now, t1, t2) =
    Inr (add_outbox H (put_row db (row_key l) (committed_row H l row c receipt used now)) l receipt, (receipt, False))"
proof -
  have seq: "rt_sequence receipt = aw_head_sequence row + 1"
    by (rule machine_applyE[OF machine(2)]) (use machine_of_ok[OF ok] machine(1) in auto)
  have live: "\<not> lease_stale row l checked" using lease by (auto simp: alive_def lease_stale_def split: option.splits)
  have expired: "\<not> (case aw_lease_until row of None \<Rightarrow> True | Some until \<Rightarrow> min until (le_expires_at l) \<le> t)" if "alive row l t" for t
    using that by (auto simp: alive_def split: option.splits)
  have "commit_new H bytes fits db l row m c now t1 t2 =
    Inr (add_outbox H (put_row db (row_key l) (committed_row H l row c receipt used now)) l receipt, (receipt, False))"
    using machine(2) used expired[OF lease(4)] expired[OF lease(5)] new_row_never_conflicts[OF ok prior seq]
    by (simp add: commit_new_def encode_def committed_row_def Let_def max_def)
  then show ?thesis
    using row prior live machine(1) used(1,2)
    by (simp add: repo_commit_def commit_in_transaction_def detached_def ledger_do_def account_row_of_def of_option_def)
qed

section \<open>Errors of a commit\<close>

definition integrity_error :: "durable_error \<Rightarrow> bool" where
  "integrity_error e \<longleftrightarrow> e \<in> {AccountDefinitionCorrupt, AccountCommandCorrupt, AccountHeadMismatch, AccountProjectionMismatch,
     AccountJournalGap, AccountJournalMismatch, DatabaseConflict}"

lemma machine_do_Inl:
  assumes "machine_do r f = (m', Inl e)"
  obtains "r = (m', Inl e)" | m x where "r = (m, Inr x)" "f m x = (m', Inl e)"
  using assms by (cases r) (auto simp: machine_do_def split: sum.splits)

lemma step_errors:
  "ledger_step H m c' = (m', Inl e) \<Longrightarrow> \<not> integrity_error e"
  "evaluate_step H fits m r = (m', Inl e) \<Longrightarrow> \<not> integrity_error e"
  "handoff_step H m oid = (m', Inl e) \<Longrightarrow> \<not> integrity_error e"
  "controls_step H m fresh = (m', Inl e) \<Longrightarrow> \<not> integrity_error e"
  by (auto simp: ledger_step_def evaluate_step_def handoff_step_def controls_step_def integrity_error_def split: sum.splits prod.splits)

lemma market_errors: "market_step H m book now = (m', Inl e) \<Longrightarrow> \<not> integrity_error e"
  by (auto simp: market_step_def dest: step_errors(1) split: sum.splits prod.splits) (auto simp: integrity_error_def)

lemma advance_errors: "advance_step H m now = (m', Inl e) \<Longrightarrow> \<not> integrity_error e"
  by (auto simp: advance_step_def machine_risk_def Let_def integrity_error_def split: sum.splits)

lemma process_errors:
  assumes "process_request H fits now m r = (m', Inl e)"
  shows "\<not> integrity_error e"
proof (rule notI)
  assume i: "integrity_error e"
  then have "e \<noteq> DecisionAlreadyProcessed" "e \<noteq> AccountBatchSealed" "e \<noteq> AccountReconciliationRequired" "\<And>x. e \<noteq> LedgerRaised x"
    by (auto simp: integrity_error_def)
  then show False
    using assms i step_errors(1-3)
    by (fastforce simp: process_request_def Let_def elim!: machine_do_Inl split: if_split_asm sum.splits option.splits)
qed

lemma requests_errors: "process_requests H fits now m rs = (m', Inl e) \<Longrightarrow> \<not> integrity_error e"
  by (induction rs arbitrary: m) (auto elim!: machine_do_Inl dest: process_errors)

lemma effect_errors:
  assumes "machine_effect H fits m c now = (m', Inl e)"
  shows "\<not> integrity_error e"
proof -
  have "\<not> integrity_error AccountAssertion" "\<not> integrity_error (LedgerRaised x)" for x by (simp_all add: integrity_error_def)
  then show ?thesis
    using assms by (cases "ac_kind c") (auto simp: machine_effect_def elim!: machine_do_Inl
        dest: requests_errors market_errors advance_errors step_errors split: option.splits)
qed

lemma machine_apply_errors:
  assumes "machine_apply H bytes fits m c now = (m', Inl e)"
  shows "\<not> integrity_error e"
proof (rule notI)
  assume i: "integrity_error e"
  then have "e \<noteq> GenerationConflict" "e \<noteq> AccountClockReversed" "e \<noteq> AccountDayRolloverRequired" "\<And>x. e \<noteq> LedgerRaised x"
    by (auto simp: integrity_error_def)
  then obtain m1 records where s: "seal_step H m1 c now records = (m', Inl e)"
    using assms i effect_errors
    by (fastforce simp: machine_apply_def detached_def elim!: machine_do_Inl split: if_split_asm sum.splits)
  then show False using i by (auto simp: seal_step_def Let_def integrity_error_def split: sum.splits)
qed

lemma commit_errors:
  assumes ok: "db_ok H bytes fits db" and e: "repo_commit H bytes fits db l c readings = Inl e"
  shows "\<not> integrity_error e"
proof (rule notI)
  assume i: "integrity_error e"
  obtain checked now t1 t2 where rs: "readings = (checked, now, t1, t2)" by (cases readings)
  have simple: "e \<noteq> AccountNotFound" "\<And>x. e \<noteq> LedgerRaised x" "e \<noteq> StaleExecutionLease" "e \<noteq> AccountCapacityExhausted"
      "e \<noteq> CommandIdempotencyConflict" "e \<noteq> AccountMarketConflict" "e \<noteq> LeaseExpiredDuringCommand" "e \<noteq> ArtifactTooLarge"
    using i by (auto simp: integrity_error_def)
  obtain row where row: "account_row_of db l = Inr row"
    using e simple by (auto simp: rs repo_commit_def commit_in_transaction_def detached_def ledger_do_def bindE_def
        account_row_of_def of_option_def split: if_split_asm sum.splits option.splits)
  have prior: "prior_receipt H row c \<noteq> Inl e" using simple by (auto simp: prior_receipt_def split: option.splits if_split_asm)
  have rok: "row_ok H bytes fits row" by (rule db_ok_row[OF ok row])
  obtain m where m: "machine_of H bytes fits row = Inr m" "am_sequence m = aw_head_sequence row" by (rule machine_of_ok[OF rok])
  have new: "prior_receipt H row c = Inr None" "commit_new H bytes fits db l row m c now t1 t2 = Inl e"
    using e simple row prior m(1)
    by (auto simp: rs repo_commit_def commit_in_transaction_def detached_def ledger_do_def bindE_def split: if_split_asm sum.splits option.splits)
  obtain m' receipt where a: "machine_apply H bytes fits m c now = (m', Inr receipt)"
    using new(2) machine_apply_errors i by (auto simp: commit_new_def split: prod.splits sum.splits)
  have "rt_sequence receipt = aw_head_sequence row + 1" by (rule machine_applyE[OF a]) (simp add: m(2))
  then have "\<not> row_conflicts (aw_commands row) (new_row H l c receipt now)" by (rule new_row_never_conflicts[OF rok new(1)])
  then show False
    using new(2) a simple by (auto simp: commit_new_def Let_def encode_def bindE_def split: if_split_asm)
qed

section \<open>Fencing\<close>

text \<open>A lease whose token is behind the token of the row commits nothing.\<close>

lemma old_token_fenced:
  assumes row: "map_of (db_accounts db) (row_key l) = Some row" and old: "le_token l < aw_lease_token row"
    and c: "repo_commit H bytes fits db l c readings = Inr (db', (receipt, replayed))"
  shows "replayed \<and> db' = db"
proof -
  obtain checked now t1 t2 where rs: "readings = (checked, now, t1, t2)" by (cases readings)
  show ?thesis
    using c[unfolded rs]
  proof (cases rule: repo_commitE)
    case (fresh row' m m' used)
    then show ?thesis using row old by (simp add: lease_stale_def)
  qed simp
qed

lemma db_extendsD:
  assumes "db_extends db db'" "map_of (db_accounts db) key = Some row"
  obtains row' where "map_of (db_accounts db') key = Some row'" "row_extends row row'"
  using assms unfolding db_extends_def by blast

lemma acquired_token:
  assumes "repo_acquire db ref owner duration now = Inr (db', l)"
  shows "row_key l = row_key ref \<and> le_owner l = owner \<and> (\<exists>row. map_of (db_accounts db') (row_key ref) = Some row \<and>
     aw_lease_token row = le_token l \<and> aw_lease_owner row = Some owner)"
  using assms by (cases rule: repo_acquireE) simp

lemma acquire_after:
  assumes "repo_acquire db ref owner duration now = Inr (db', l)" "map_of (db_accounts db) (row_key ref) = Some row"
  shows "aw_lease_token row \<le> le_token l \<and> (aw_lease_owner row \<noteq> Some owner \<longrightarrow> aw_lease_token row < le_token l)"
  using assms(1) by (cases rule: repo_acquireE) (use assms(2) in \<open>auto split: if_split_asm\<close>)

text \<open>The token of another owner's later lease is greater.\<close>

lemma later_owner_token:
  assumes "row_extends row row'" "aw_lease_token row = token" "aw_lease_owner row = Some owner"
    and "repo_acquire db ref owner' duration now = Inr (db', l)" "map_of (db_accounts db) (row_key ref) = Some row'" "owner' \<noteq> owner"
  shows "token < le_token l"
  using assms(1-3,6) acquire_after[OF assms(4,5)] by (cases "aw_lease_token row' = token") (auto simp: row_extends_def)

end
