(* ===== verification/WorkflowSamples.thy ===== *)
theory WorkflowSamples
  imports WorkflowProps PaperVenueSamples
begin

text \<open>An account with an order, a market event, and leases of two owners.\<close>

definition w_hash :: "account_artefact \<Rightarrow> string" where
  "w_hash a = (case a of
       APaper p \<Rightarrow> v_hash p
     | ADefinition d \<Rightarrow> ''definition:'' @ df_account_id d
     | ACommand c \<Rightarrow> ''command:'' @ ac_key c
     | ABook b \<Rightarrow> ''book''
     | AChain previous sequence generation c now s audit \<Rightarrow> previous @ ''+''
     | AOutbox account sequence \<Rightarrow> ''sha256:outbox'')"

definition w_bytes :: "account_json \<Rightarrow> int" where
  "w_bytes j = 100"

definition w_definition :: account_definition where
  "w_definition = \<lparr>df_account_id = ''acct'', df_initial_portfolio = p_portfolio, df_config = p_config,
     df_controls = sample_controls, df_registrations = [sample_registration]\<rparr>"

definition w_command :: "string \<Rightarrow> account_kind \<Rightarrow> account_command" where
  "w_command key kind = \<lparr>ac_key = key, ac_generation = 1, ac_kind = kind, ac_requests = [], ac_book = None,
     ac_client_order_id = None, ac_controls = None\<rparr>"

definition w_orders :: account_command where
  "w_orders = (w_command ''orders-1'' AOrders)\<lparr>ac_requests := [sample_request]\<rparr>"

definition w_again :: account_command where
  "w_again = (w_command ''orders-2'' AOrders)\<lparr>ac_requests := [sample_request]\<rparr>"

definition w_market :: account_command where
  "w_market = (w_command ''market-1'' AMarket)\<lparr>ac_book := Some p_btc_book\<rparr>"

definition w_ref :: account_ref where
  "w_ref = \<lparr>ref_workspace_id = ''ws'', ref_account_id = ''acct''\<rparr>"

definition w_lease :: "string \<Rightarrow> int \<Rightarrow> datetime \<Rightarrow> lease" where
  "w_lease owner token expires = \<lparr>ref_workspace_id = ''ws'', ref_account_id = ''acct'', le_owner = owner, le_token = token,
     le_expires_at = expires\<rparr>"

definition w_alice :: lease where
  "w_alice = w_lease ''alice'' 1 1900000"

definition w_bob :: lease where
  "w_bob = w_lease ''bob'' 2 4000000"

definition w_calls :: "repo_call list" where
  "w_calls = [RepoCreate w_definition, RepoAcquire w_ref ''alice'' 1 900000,
     RepoCommit w_alice w_orders (1000000, 1000000, 1000000, 1000000), RepoCommit w_alice w_market (1300000, 1300000, 1300000, 1300000)]"

text \<open>The machine of the account, evaluated once.\<close>

definition w_start :: account_machine where
  "w_start = projr (machine_init w_hash w_bytes w_definition)"

definition w_order_step :: "account_receipt machine_outcome" where
  "w_order_step = machine_apply w_hash w_bytes any_size w_start w_orders 1000000"

definition w_market_step :: "account_receipt machine_outcome" where
  "w_market_step = machine_apply w_hash w_bytes any_size (fst w_order_step) w_market 1300000"

lemma w_evaluated:
  "case machine_init w_hash w_bytes w_definition of Inl e \<Rightarrow> False | Inr m0 \<Rightarrow> returns (initial_receipt m0) \<and>
     (case machine_apply w_hash w_bytes any_size m0 w_orders 1000000 of (m1, Inl e) \<Rightarrow> False
      | (m1, Inr r1) \<Rightarrow>
         (case machine_apply w_hash w_bytes any_size m1 w_market 1300000 of (m2, Inl e) \<Rightarrow> False
          | (m2, Inr r2) \<Rightarrow> map (\<lambda>(cid, w). (o_status (wo_order w), filled_units w)) (ld_orders (am_ledger m2)) = [(Cancelled, 498000000000)]))"
  by code_simp

definition w_receipt0 :: account_receipt where
  "w_receipt0 = projr (initial_receipt w_start)"

definition w_receipt1 :: account_receipt where
  "w_receipt1 = projr (snd w_order_step)"

definition w_receipt2 :: account_receipt where
  "w_receipt2 = projr (snd w_market_step)"

lemma w_steps:
  "machine_init w_hash w_bytes w_definition = Inr w_start" "initial_receipt w_start = Inr w_receipt0"
  "w_order_step = (fst w_order_step, Inr w_receipt1)" "w_market_step = (fst w_market_step, Inr w_receipt2)"
proof -
  obtain m0 where m0: "machine_init w_hash w_bytes w_definition = Inr m0" "returns (initial_receipt m0)"
    using w_evaluated by (cases "machine_init w_hash w_bytes w_definition") auto
  obtain m1 o1 where m1: "machine_apply w_hash w_bytes any_size m0 w_orders 1000000 = (m1, o1)" by fastforce
  obtain m2 o2 where m2: "machine_apply w_hash w_bytes any_size m1 w_market 1300000 = (m2, o2)" by fastforce
  obtain r1 r2 where "o1 = Inr r1" "o2 = Inr r2"
    using w_evaluated unfolding m0(1) sum.case m1 prod.case m2 by (cases o1; cases o2) auto
  note s = m0 m1[unfolded this] m2[unfolded this]
  show "machine_init w_hash w_bytes w_definition = Inr w_start" using s(1) by (simp add: w_start_def)
  then show "initial_receipt w_start = Inr w_receipt0" "w_order_step = (fst w_order_step, Inr w_receipt1)"
    "w_market_step = (fst w_market_step, Inr w_receipt2)"
    using s by (auto simp: w_receipt0_def w_receipt1_def w_receipt2_def w_order_step_def w_market_step_def returns_def split: sum.splits)
qed

text \<open>The rows of the account: created, leased by alice, with one and with two commands.\<close>

definition w_row0 :: account_row where
  "w_row0 = opened_row w_hash w_definition w_receipt0 200"

definition w_row1 :: account_row where
  "w_row1 = w_row0\<lparr>aw_lease_owner := Some ''alice'', aw_lease_token := 1, aw_lease_until := Some 1900000\<rparr>"

definition w_row2 :: account_row where
  "w_row2 = committed_row w_hash w_alice w_row1 w_orders w_receipt1 400 1000000"

definition w_row3 :: account_row where
  "w_row3 = committed_row w_hash w_alice w_row2 w_market w_receipt2 600 1300000"

definition w_db :: "account_row \<Rightarrow> engine_db" where
  "w_db row = \<lparr>db_accounts = [((''ws'', ''acct''), row)], db_outbox = []\<rparr>"

definition w_created :: engine_db where
  "w_created = w_db w_row0"

definition w_held :: engine_db where
  "w_held = w_db w_row1"

definition w_ordered :: engine_db where
  "w_ordered = add_outbox w_hash (put_row w_held (''ws'', ''acct'') w_row2) w_alice w_receipt1"

definition w_traded :: engine_db where
  "w_traded = add_outbox w_hash (put_row w_ordered (''ws'', ''acct'') w_row3) w_alice w_receipt2"

lemma w_key [simp]: "row_key w_ref = (''ws'', ''acct'')" "row_key w_alice = (''ws'', ''acct'')" "row_key w_bob = (''ws'', ''acct'')"
  by (simp_all add: row_key_def w_ref_def w_alice_def w_bob_def w_lease_def)

lemma w_leases [simp]:
  "le_owner w_alice = ''alice''" "le_token w_alice = 1" "le_expires_at w_alice = 1900000"
  "le_owner w_bob = ''bob''" "le_token w_bob = 2" "le_expires_at w_bob = 4000000"
  by (simp_all add: w_alice_def w_bob_def w_lease_def)

lemmas w_row_defs = w_row3_def w_row2_def w_row1_def w_row0_def opened_row_def committed_row_def new_row_def
lemmas w_command_defs = w_orders_def w_market_def w_again_def w_command_def
lemmas w_bound_defs = w_bytes_def MAX_ARTIFACT_BYTES_def MAX_BYTES_def

lemma w_rows [simp]:
  "map_of (db_accounts w_created) (''ws'', ''acct'') = Some w_row0" "map_of (db_accounts w_held) (''ws'', ''acct'') = Some w_row1"
  "map_of (db_accounts w_ordered) (''ws'', ''acct'') = Some w_row2" "map_of (db_accounts w_traded) (''ws'', ''acct'') = Some w_row3"
  by (simp_all add: w_created_def w_held_def w_db_def w_ordered_def w_traded_def)

lemma w_create: "repo_create w_hash w_bytes empty_db w_definition = Inr (w_created, w_receipt0)"
  using w_steps(1,2) machine_init_fields[OF w_steps(1)]
  by (simp add: repo_create_def detached_def ledger_do_def w_bytes_def MAX_ARTIFACT_BYTES_def encode_def MAX_BYTES_def p_portfolio_def
      empty_db_def w_created_def w_db_def w_row0_def opened_row_def w_definition_def of_option_def)

lemma w_acquire: "repo_acquire w_created w_ref ''alice'' 1 900000 = Inr (w_held, w_alice)"
  by (simp add: repo_acquire_def account_row_of_def of_option_def lease_active_def w_row0_def opened_row_def w_alice_def w_lease_def w_ref_def
      row_key_def w_created_def w_db_def w_held_def w_row1_def put_row_def seconds_def risk_name_ok_def risk_name_char_def Let_def)

end
