(* ===== verification/WorkflowTheorems.thy ===== *)
theory WorkflowTheorems
  imports WorkflowSamples
begin

text \<open>The properties of the account repository, over every sequence of its transactions.\<close>

section \<open>The sample run\<close>

lemma w_held_reached: "w_held = transact (repo_transaction w_hash w_bytes any_size) empty_db (take 2 w_calls)"
  using w_create w_acquire by (simp add: w_calls_def repo_transaction_def)

lemma w_row1_ok: "row_ok w_hash w_bytes any_size w_row1" "machine_of w_hash w_bytes any_size w_row1 = Inr w_start"
proof -
  show ok: "row_ok w_hash w_bytes any_size w_row1"
    using reachable_ok[OF w_held_reached] w_rows(2) unfolding db_ok_def by blast
  show "machine_of w_hash w_bytes any_size w_row1 = Inr w_start"
    by (rule machine_of_ok[OF ok]) (use w_steps(1) in \<open>simp add: w_row1_def w_row0_def opened_row_def reconstruct_def\<close>)
qed

lemmas w_row2_ok = committed_row_ok[OF w_row1_ok w_steps(3)[unfolded w_order_step_def], of w_alice 400,
  folded w_order_step_def w_row2_def]

lemma w_commit_orders:
  "repo_commit w_hash w_bytes any_size w_held w_alice w_orders (1000000, 1000000, 1000000, 1000000) = Inr (w_ordered, (w_receipt1, False))"
proof -
  have "repo_commit w_hash w_bytes any_size w_held w_alice w_orders (1000000, 1000000, 1000000, 1000000) =
      Inr (add_outbox w_hash (put_row w_held (row_key w_alice) w_row2) w_alice w_receipt1, (w_receipt1, False))"
    unfolding w_row2_def
  proof (rule fresh_commit[OF _ w_row1_ok(1) _ _ _ _ _ _ w_row1_ok(2) w_steps(3)[unfolded w_order_step_def]])
    show "prior_receipt w_hash w_row1 w_orders = Inr None"
      by (simp add: prior_receipt_def w_row_defs w_command_defs)
  qed (simp_all add: w_row_defs alive_def w_bound_defs)
  then show ?thesis by (simp add: w_ordered_def)
qed

lemma w_commit_market:
  "repo_commit w_hash w_bytes any_size w_ordered w_alice w_market (1300000, 1300000, 1300000, 1300000) = Inr (w_traded, (w_receipt2, False))"
proof -
  have "rt_sequence w_receipt1 = am_sequence w_start + 1"
    using w_steps(3) unfolding w_order_step_def by (rule machine_applyE) simp
  then have seq: "rt_sequence w_receipt1 = 1" using machine_init_fields[OF w_steps(1)] by simp
  have "repo_commit w_hash w_bytes any_size w_ordered w_alice w_market (1300000, 1300000, 1300000, 1300000) =
      Inr (add_outbox w_hash (put_row w_ordered (row_key w_alice) w_row3) w_alice w_receipt2, (w_receipt2, False))"
    unfolding w_row3_def
  proof (rule fresh_commit[OF _ w_row2_ok(1) _ _ _ _ _ _ w_row2_ok(2) w_steps(4)[unfolded w_market_step_def]])
    show "prior_receipt w_hash w_row2 w_market = Inr None"
      by (simp add: prior_receipt_def w_row_defs w_command_defs command_market_def)
  qed (simp_all add: seq w_row_defs alive_def w_bound_defs)
  then show ?thesis by (simp add: w_traded_def)
qed

lemma w_traded_reached: "w_traded = transact (repo_transaction w_hash w_bytes any_size) empty_db w_calls"
  using w_create w_acquire w_commit_orders w_commit_market by (simp add: w_calls_def repo_transaction_def)

lemma w_later: "w_traded = transact (repo_transaction w_hash w_bytes any_size) w_held (drop 2 w_calls)"
  using w_commit_orders w_commit_market by (simp add: w_calls_def repo_transaction_def)

lemma w_takeover:
  obtains db where "repo_acquire w_traded w_ref ''bob'' 1 3000000 = Inr (db, w_bob)"
proof -
  have "\<exists>db. repo_acquire w_traded w_ref ''bob'' 1 3000000 = Inr (db, w_bob)"
    by (simp add: repo_acquire_def account_row_of_def of_option_def lease_active_def w_row_defs w_bob_def w_lease_def w_ref_def seconds_def risk_name_ok_def risk_name_char_def Let_def row_key_def
        w_rows(4)[unfolded w_ref_def])
  then show ?thesis using that by blast
qed

section \<open>Reading\<close>

text \<open>
  C30. The journal of a durable account is the account: after any transactions, in any order and whichever of them
  raised, replaying the stored commands of an account succeeds, ends in the stored head, and a read returns the head
  receipt, whose state is the snapshot of the replayed ledger.
\<close>

theorem durable_journal_replays:
  assumes "db = transact (repo_transaction H bytes fits) empty_db calls" "map_of (db_accounts db) (row_key ref) = Some row"
  shows "\<exists>m. reconstruct H bytes fits (aw_definition row) (map event_of (aw_commands row)) = Inr m \<and>
    am_sequence m = int (length (aw_commands row)) \<and> am_chain m = rt_state_hash (aw_head_receipt row) \<and>
    snapshot (am_ledger m) = Inr (rt_state (aw_head_receipt row)) \<and> repo_read H bytes fits db ref = Inr (aw_head_receipt row)"
proof -
  have ok: "row_ok H bytes fits row" using db_ok_row[OF reachable_ok[OF assms(1)]] assms(2) by (simp add: account_row_of_Inr)
  show ?thesis
  proof (rule machine_of_ok[OF ok])
    fix m assume m: "machine_of H bytes fits row = Inr m"
      "reconstruct H bytes fits (aw_definition row) (map event_of (aw_commands row)) = Inr m" "am_sequence m = aw_head_sequence row"
      "snapshot (am_ledger m) = Inr (rt_state (aw_head_receipt row))" "rt_state_hash (aw_head_receipt row) = am_chain m"
    then show ?thesis using row_sequences(1)[OF ok] assms(2) by (simp add: repo_read_def account_row_of_def of_option_def)
  qed
qed

theorem durable_journal_replays_witness:
  "\<exists>m. reconstruct w_hash w_bytes any_size (aw_definition w_row3) (map event_of (aw_commands w_row3)) = Inr m \<and> am_sequence m = 2 \<and>
     repo_read w_hash w_bytes any_size w_traded w_ref = Inr (aw_head_receipt w_row3)"
  using durable_journal_replays[OF w_traded_reached, of w_ref w_row3]
  by (force simp: w_row_defs)

text \<open>
  C31. No transaction can corrupt an account: on a database that transactions made, a commit never raises one of the
  corruption errors (definition, command, head, projection, gap or hash mismatch), nor does a unique constraint of the
  command table refuse its row.
\<close>

theorem commit_never_corrupt:
  assumes "db = transact (repo_transaction H bytes fits) empty_db calls" "repo_commit H bytes fits db l c readings = Inl e"
  shows "e \<notin> {AccountDefinitionCorrupt, AccountCommandCorrupt, AccountHeadMismatch, AccountProjectionMismatch,
    AccountJournalGap, AccountJournalMismatch, DatabaseConflict}"
  using commit_errors[OF reachable_ok[OF assms(1)] assms(2)] by (simp add: integrity_error_def)

theorem commit_never_corrupt_witness:
  "repo_commit w_hash w_bytes any_size w_traded w_bob w_again (3100000, 3100000, 3100000, 3100000) = Inl StaleExecutionLease \<and>
   StaleExecutionLease \<noteq> DatabaseConflict"
proof
  show e: "repo_commit w_hash w_bytes any_size w_traded w_bob w_again (3100000, 3100000, 3100000, 3100000) = Inl StaleExecutionLease"
    by (simp add: repo_commit_def detached_def w_bound_defs ledger_do_def commit_in_transaction_def account_row_of_def of_option_def
        prior_receipt_def w_row_defs w_command_defs lease_stale_def)
  show "StaleExecutionLease \<noteq> DatabaseConflict" using commit_never_corrupt[OF w_traded_reached e] by simp
qed

section \<open>Committing once\<close>

text \<open>
  C32. A committed command is final: committing the same command again, at any later point, under any lease on the
  account and at any time, returns the receipt of the first commit and changes nothing.
\<close>

theorem committed_command_is_final:
  assumes "db = transact (repo_transaction H bytes fits) empty_db calls" "repo_commit H bytes fits db l c readings = Inr (db1, (receipt, False))"
    and "db2 = transact (repo_transaction H bytes fits) db1 later" "row_key l' = row_key l"
  shows "repo_commit H bytes fits db2 l' c readings' = Inr (db2, (receipt, True))"
proof -
  obtain checked now t1 t2 where rs: "readings = (checked, now, t1, t2)" by (cases readings)
  have size: "bytes (JCommand c) \<le> MAX_ARTIFACT_BYTES"
    using assms(2) by (auto simp: repo_commit_def detached_def ledger_do_def split: if_split_asm)
  have db1: "db_ok H bytes fits db1"
    using repo_transaction_ok[OF _ reachable_ok[OF assms(1)], of "RepoCommit l c readings" db1] assms(2) by (simp add: repo_transaction_def)
  show ?thesis
    using assms(2)[unfolded rs]
  proof (cases rule: repo_commitE)
    case (fresh row m m' used)
    have "map_of (db_accounts db1) (row_key l) = Some (committed_row H l row c receipt used now)" by (simp add: fresh(7))
    then obtain row' where row': "map_of (db_accounts db2) (row_key l) = Some row'" "row_extends (committed_row H l row c receipt used now) row'"
      using db_extendsD run_extends_db[OF db1 assms(3)] by blast
    have look: "map_of (db_accounts db2) (row_key l') = Some row'" using row'(1) assms(4) by simp
    show ?thesis by (rule prior_commit[OF committed_prior[OF fresh(3) row'(2)] look]) (rule size)
  qed simp
qed

theorem committed_command_is_final_witness:
  "repo_commit w_hash w_bytes any_size w_traded w_bob w_orders (5000000, 5000000, 5000000, 5000000) = Inr (w_traded, (w_receipt1, True))"
proof (rule committed_command_is_final[OF w_held_reached w_commit_orders])
  show "w_traded = transact (repo_transaction w_hash w_bytes any_size) w_ordered (drop 3 w_calls)"
    using w_commit_market by (simp add: w_calls_def repo_transaction_def)
qed simp

text \<open>
  C33. No order intent and no decision is processed twice in the life of an account, over all its generations: the
  intents of the order commands stored for it are distinct, and so are their decisions.
\<close>

theorem intents_are_processed_once:
  assumes "db = transact (repo_transaction H bytes fits) empty_db calls" "map_of (db_accounts db) key = Some row"
  shows "distinct (order_ids (concat (map (\<lambda>r. command_orders (cr_command r)) (aw_commands row)))) \<and>
    distinct (decision_ids (concat (map (\<lambda>r. command_orders (cr_command r)) (aw_commands row))))"
proof -
  have "row_ok H bytes fits row" using reachable_ok[OF assms(1)] assms(2) unfolding db_ok_def by blast
  then obtain m0 m where "replay_events H bytes fits m0 (map event_of (aw_commands row)) = Inr m"
    by (auto simp: row_ok_def reconstruct_def elim!: bindE_InrE)
  from replay_events_take[OF this] show ?thesis by (simp add: takes_def event_of_def o_def)
qed

theorem intents_are_processed_once_witness:
  "order_ids (concat (map (\<lambda>r. command_orders (cr_command r)) (aw_commands w_row3))) = [''o1''] \<and>
   distinct (order_ids (concat (map (\<lambda>r. command_orders (cr_command r)) (aw_commands w_row3))))"
  using intents_are_processed_once[OF w_traded_reached w_rows(4)]
  by (simp add: w_row_defs command_orders_def w_command_defs order_ids_def sample_request_def sample_request_at_def sample_intent_def)

section \<open>Fencing\<close>

text \<open>
  C34. A lease that another owner has taken over is fenced off: its token is smaller, and whatever happens afterwards
  a commit under it writes nothing; it raises or returns the receipt of a command that was committed before.
\<close>

theorem overtaken_lease_is_fenced:
  assumes "db = transact (repo_transaction H bytes fits) empty_db calls" "repo_acquire db ref owner duration t = Inr (db1, l)"
    and "db2 = transact (repo_transaction H bytes fits) db1 calls1"
    and "repo_acquire db2 ref owner' duration' t' = Inr (db3, l')" "owner' \<noteq> owner"
    and "db4 = transact (repo_transaction H bytes fits) db3 calls2"
  shows "le_token l < le_token l' \<and>
    (\<forall>c readings. case repo_commit H bytes fits db4 l c readings of Inl e \<Rightarrow> True | Inr (db5, receipt, replayed) \<Rightarrow> replayed \<and> db5 = db4)"
proof -
  have ok1: "db_ok H bytes fits db1"
    using repo_transaction_ok[OF _ reachable_ok[OF assms(1)], of "RepoAcquire ref owner duration t" db1] assms(2) by (simp add: repo_transaction_def)
  obtain row1 where row1: "row_key l = row_key ref" "map_of (db_accounts db1) (row_key ref) = Some row1" "aw_lease_token row1 = le_token l"
      "aw_lease_owner row1 = Some owner" using acquired_token[OF assms(2)] by blast
  note run2 = run_extends_db[OF ok1 assms(3)]
  obtain row2 where row2: "map_of (db_accounts db2) (row_key ref) = Some row2" "row_extends row1 row2"
    using db_extendsD[OF _ row1(2)] run2 by blast
  have less: "le_token l < le_token l'" by (rule later_owner_token[OF row2(2) row1(3,4) assms(4) row2(1) assms(5)])
  have ok3: "db_ok H bytes fits db3"
    using repo_transaction_ok[OF _ conjunct1[OF run2], of "RepoAcquire ref owner' duration' t'" db3] assms(4) by (simp add: repo_transaction_def)
  obtain row3 where row3: "map_of (db_accounts db3) (row_key ref) = Some row3" "aw_lease_token row3 = le_token l'"
    using acquired_token[OF assms(4)] by blast
  obtain row4 where row4: "map_of (db_accounts db4) (row_key l) = Some row4" "row_extends row3 row4"
    using db_extendsD[OF _ row3(1)] run_extends_db[OF ok3 assms(6)] row1(1) by metis
  have "le_token l < aw_lease_token row4" using row4(2) row3(2) less by (simp add: row_extends_def)
  then have "case repo_commit H bytes fits db4 l c readings of Inl e \<Rightarrow> True | Inr (db5, receipt, replayed) \<Rightarrow> replayed \<and> db5 = db4" for c readings
    using old_token_fenced[OF row4(1), of H bytes fits c readings] by (auto split: sum.split)
  with less show ?thesis by blast
qed

theorem overtaken_lease_is_fenced_witness:
  "case repo_acquire w_traded w_ref ''bob'' 1 3000000 of Inl e \<Rightarrow> False
   | Inr (db, l) \<Rightarrow> (case repo_commit w_hash w_bytes any_size db w_alice w_again (3100000, 3100000, 3100000, 3100000) of
       Inl e \<Rightarrow> True | Inr (db', receipt, replayed) \<Rightarrow> replayed \<and> db' = db)"
proof (rule w_takeover)
  fix db assume b: "repo_acquire w_traded w_ref ''bob'' 1 3000000 = Inr (db, w_bob)"
  have created: "w_created = transact (repo_transaction w_hash w_bytes any_size) empty_db (take 1 w_calls)"
    using w_create by (simp add: w_calls_def repo_transaction_def)
  have "db = transact (repo_transaction w_hash w_bytes any_size) db []" by simp
  from overtaken_lease_is_fenced[OF created w_acquire w_later b _ this] b show ?thesis by simp
qed

section \<open>Accounting\<close>

text \<open>
  A durable account keeps its accounting invariant through all commands and generations, when its definition and
  commands are validated: in the ledger its stored commands replay to, cash covers what the open orders may spend, no
  holding and no basis is negative, and holdings cover the open sells.
\<close>

theorem durable_account_stays_covered:
  assumes "db = transact (repo_transaction H bytes fits) empty_db calls" "list_all (call_valid H) calls"
    and "map_of (db_accounts db) key = Some row"
  shows "\<exists>m reserved. machine_of H bytes fits row = Inr m \<and> reserved_cash (am_ledger m) = Inr reserved \<and> 0 \<le> reserved \<and>
    reserved \<le> ld_cash (am_ledger m) \<and>
    (\<forall>key h. map_of (ld_holdings (am_ledger m)) key = Some h \<longrightarrow> 0 \<le> h_quantity h \<and> 0 \<le> h_basis h) \<and>
    (\<forall>key. total_of (sell_of key) (am_ledger m) \<le> held (am_ledger m) key)"
proof -
  have ok: "row_ok H bytes fits row" using reachable_ok[OF assms(1)] assms(3) unfolding db_ok_def by blast
  obtain m where m: "machine_of H bytes fits row = Inr m" by (rule machine_of_ok[OF ok])
  have "ledger_ok (am_ledger m)"
    using row_machine_ok[OF ok db_validD[OF reachable_valid[OF assms(1,2)] assms(3)] m] by (simp add: machine_ok_def)
  then show ?thesis using m reserved_cash_total[of "am_ledger m"] ledger_ok_cash(1)[of "am_ledger m"] by (auto simp: ledger_ok_def)
qed

end
