(* ===== verification/ModelContracts.thy ===== *)
theory ModelContracts
  imports DomainNumeric RiskEvaluator
begin

text \<open>
  \<open>kavrigo_model_gateway/contracts.py\<close> and the call record of \<open>kavrigo_domain/decision.py\<close>: what the model gateway
  and its budget exchange. Money is counted in picodollars.
\<close>

datatype failure_code =
    InvalidInput | UnsupportedRoute | ModelMismatch | SchemaInvalid | ProviderUnavailable | ProviderRefused | IncompleteReply
  | CallTimeout | CallCancelled | UsageInvalid | CostBudget | RateBudget | CallBudget | IdempotencyConflict | InProgress
  | CapacityReached | ReplayMismatch

datatype model_profile = ExtractFast | ClassifyFast | ReasonBalanced | ReasonDeep | EmbedProfile

record call_scope =
  cs_workspace_id :: string
  cs_agent_id :: string
  cs_agent_version_id :: string
  cs_decision_id :: string
  cs_mode :: trading_mode

record model_request =
  mr_scope :: call_scope
  mr_idempotency_key :: string
  mr_profile :: model_profile
  mr_prompt_key :: string
  mr_input_json :: string
  mr_pinned_model_identifier :: "string option"

definition model_request_error :: "model_request \<Rightarrow> domain_error option" where
  "model_request_error r = first_error
     [(cs_mode (mr_scope r) = Live, LiveGated),
      (\<not> gateway_name_ok (mr_idempotency_key r), BadPattern),
      (\<not> gateway_name_ok (mr_prompt_key r), BadPattern),
      (length (mr_input_json r) < 2 \<or> 131072 < int (length (mr_input_json r)), OutOfRange),
      (case mr_pinned_model_identifier r of None \<Rightarrow> False | Some m \<Rightarrow> m = [] \<or> 128 < length m, OutOfRange),
      (cs_mode (mr_scope r) = Backtest \<and> mr_pinned_model_identifier r = None, ReferenceMismatch)]"

record route =
  ro_profile :: model_profile
  ro_provider :: string
  ro_model_identifier :: string
  ro_pricing_version :: string
  ro_input_usd_per_million :: decimal
  ro_output_usd_per_million :: decimal
  ro_max_input_tokens :: int
  ro_max_output_tokens :: int
  ro_timeout_ms :: int
  ro_max_output_bytes :: int
  ro_embedding_dimensions :: "int option"

text \<open>\<open>Usd\<close>: not negative, at most 24 digits and 12 decimal places.\<close>

definition usd_error :: "decimal \<Rightarrow> domain_error option" where
  "usd_error d = first_error
     [(coeff d < 0, NegativeLimit),
      (expo d < -12, UnsupportedPrecision),
      (24 < ndigits \<bar>coeff d\<bar> + max 0 (expo d) \<or> 24 < - expo d, OutOfRange)]"

definition route_error :: "route \<Rightarrow> domain_error option" where
  "route_error r = first_error
     [(\<not> gateway_name_ok (ro_provider r) \<or> \<not> gateway_name_ok (ro_pricing_version r), BadPattern),
      (ro_model_identifier r = [] \<or> 128 < length (ro_model_identifier r), OutOfRange),
      (usd_error (ro_input_usd_per_million r) \<noteq> None \<or> usd_error (ro_output_usd_per_million r) \<noteq> None, OutOfRange),
      (ro_max_input_tokens r < 1 \<or> 1000000 < ro_max_input_tokens r, OutOfRange),
      (ro_max_output_tokens r < 1 \<or> 32768 < ro_max_output_tokens r, OutOfRange),
      (ro_timeout_ms r < 1 \<or> 600000 < ro_timeout_ms r, OutOfRange),
      (ro_max_output_bytes r < 2 \<or> 1048576 < ro_max_output_bytes r, OutOfRange),
      (case ro_embedding_dimensions r of None \<Rightarrow> False | Some n \<Rightarrow> n < 1 \<or> 4096 < n, OutOfRange),
      ((ro_profile r = EmbedProfile) \<noteq> (ro_embedding_dimensions r \<noteq> None), ReferenceMismatch)]"

definition usd_units :: "decimal \<Rightarrow> int" where
  "usd_units value = dec_trunc (ctx_mul value (dec_int (10 ^ 12)))"

definition units_usd :: "int \<Rightarrow> decimal" where
  "units_usd value = ctx_div (dec_int value) (dec_int (10 ^ 12))"

definition cost_units :: "route \<Rightarrow> int \<Rightarrow> int \<Rightarrow> int" where
  "cost_units r input_tokens output_tokens =
     (usd_units (ro_input_usd_per_million r) * input_tokens + usd_units (ro_output_usd_per_million r) * output_tokens + 999999)
     div 1000000"

record usage =
  us_input_tokens :: int
  us_output_tokens :: int

datatype reply_status = StatusCompleted | StatusRefused | StatusIncomplete

record provider_reply =
  rp_model_identifier :: string
  rp_status :: reply_status
  rp_output_json :: string
  rp_usage :: "usage option"

record provider_request =
  pq_model_identifier :: string
  pq_system_text :: string
  pq_input_json :: string
  pq_output_schema_json :: string
  pq_max_output_tokens :: int

record model_call_record =
  mc_profile :: model_profile
  mc_resolved_model_identifier :: string
  mc_prompt_hash :: string
  mc_input_tokens :: int
  mc_output_tokens :: int
  mc_cost :: money
  mc_latency_ms :: int
  mc_tool_calls :: int
  mc_schema_validation_failed :: bool
  mc_scope :: "(string \<times> string \<times> string \<times> string) option"
  mc_request_hash :: "string option"
  mc_output_hash :: "string option"
  mc_schema_hash :: "string option"
  mc_route_hash :: "string option"
  mc_outcome :: "failure_code option"
  mc_usage_known :: bool
  mc_cost_is_reservation :: bool

definition model_call_error :: "model_call_record \<Rightarrow> domain_error option" where
  "model_call_error r = first_error
     [(mc_input_tokens r < 0 \<or> mc_output_tokens r < 0 \<or> mc_latency_ms r < 0 \<or> mc_tool_calls r < 0, OutOfRange),
      (m_currency (mc_cost r) \<noteq> ''USD'' \<or> is_negative (m_amount (mc_cost r)), OutOfRange),
      (mc_cost_is_reservation r \<and> mc_usage_known r, ReferenceMismatch)]"

record recorded_response =
  re_request_hash :: string
  re_output_json :: string
  re_record :: model_call_record

record scope_budget =
  sb_daily_usd :: decimal
  sb_calls_per_minute :: int
  sb_calls_per_day :: int

record decision_budget =
  dg_max_usd :: decimal
  dg_max_calls :: int
  dg_timeout_ms :: int

record agent_access =
  aa_workspace_id :: string
  aa_agent_id :: string
  aa_agent_version_id :: string
  aa_profiles :: "model_profile list"
  aa_prompt_keys :: "string list"
  aa_expected_prompt_hash :: "string option"
  aa_daily_budget :: scope_budget
  aa_decision_budget :: decision_budget
  aa_max_output_tokens :: int

section \<open>Costs\<close>

lemma usd_units_nonneg: "0 \<le> coeff d \<Longrightarrow> 0 \<le> usd_units d"
  by (simp add: usd_units_def dec_trunc_nonneg ctx_mul_nonneg dec_int_def)

lemma route_prices:
  assumes "route_error r = None"
  shows "0 \<le> usd_units (ro_input_usd_per_million r)" "0 \<le> usd_units (ro_output_usd_per_million r)"
  using assms by (auto simp: route_error_def usd_error_def intro!: usd_units_nonneg split: if_split_asm)

lemma cost_units_mono:
  assumes "route_error r = None" "i \<le> i'" "o1 \<le> o2"
  shows "cost_units r i o1 \<le> cost_units r i' o2"
  using route_prices[OF assms(1)] assms(2,3) unfolding cost_units_def
  by (intro zdiv_mono1 add_mono mult_left_mono) auto

end
