(* ===== verification/EventLog.thy ===== *)
theory EventLog
  imports Prelude
begin

text \<open>
  Components that are observed through the events of their operations: a run gives the final state and the events in
  order. When each operation keeps a relation between the state and a view computed from the events, so does a run.
\<close>

fun run_events :: "('s \<Rightarrow> 'c \<Rightarrow> 's \<times> 'e list) \<Rightarrow> 's \<Rightarrow> 'c list \<Rightarrow> 's \<times> 'e list" where
  "run_events step s [] = (s, [])"
| "run_events step s (c # cs) =
     (case step s c of (s1, es) \<Rightarrow> (case run_events step s1 cs of (s2, fs) \<Rightarrow> (s2, es @ fs)))"

lemma run_events_Cons:
  assumes "run_events step s (c # cs) = (t, es)"
  obtains s1 es1 es2 where "step s c = (s1, es1)" "run_events step s1 cs = (t, es2)" "es = es1 @ es2"
  using assms by (auto split: prod.splits)

lemma run_events_append:
  "run_events step s (cs @ ds) =
     (case run_events step s cs of (s1, es) \<Rightarrow> (case run_events step s1 ds of (s2, fs) \<Rightarrow> (s2, es @ fs)))"
  by (induction cs arbitrary: s) (auto split: prod.splits)

locale event_sourced =
  fixes step :: "'s \<Rightarrow> 'c \<Rightarrow> 's \<times> 'e list" and view :: "'b \<Rightarrow> 'e \<Rightarrow> 'b" and R :: "'s \<Rightarrow> 'b \<Rightarrow> bool"
  assumes simulates: "R s b \<Longrightarrow> step s c = (t, es) \<Longrightarrow> R t (foldl view b es)"
begin

lemma run_simulates: "R s b \<Longrightarrow> run_events step s cs = (t, es) \<Longrightarrow> R t (foldl view b es)"
proof (induction cs arbitrary: s b es)
  case (Cons c cs)
  obtain s1 es1 es2 where s: "step s c = (s1, es1)" "run_events step s1 cs = (t, es2)" "es = es1 @ es2"
    by (rule run_events_Cons[OF Cons.prems(2)])
  show ?case using Cons.IH[OF simulates[OF Cons.prems(1) s(1)] s(2)] s(3) by simp
qed simp

end

end
