(* ===== verification/ModelBudget.thy ===== *)
theory ModelBudget
  imports ModelContracts EventLog
begin

text \<open>
  \<open>kavrigo_model_gateway/budget.py\<close>: the reservations of model spend within one process. A ticket holds references to
  counters that other tickets share; a reference is the key under which the counter is stored, which never changes, so
  an update through a ticket is an update of the stored counter. Seconds of the monotonic clock are rationals (the
  rounding of floats is not modelled), the wall clock is a datetime; both readings are arguments.
\<close>

record budget_counter =
  bc_units :: int
  bc_calls :: int

datatype counter_ref = DayCounter "string list" int | CycleCounter "string \<times> string \<times> string"

record budget_ticket =
  tk_fingerprint :: string
  tk_reserved_units :: int
  tk_counters :: "counter_ref list"
  tk_deadline :: rat
  tk_record :: "model_call_record option"
  tk_artifact :: "recorded_response option"

record budget_cycle =
  cy_version :: string
  cy_deadline :: rat
  cy_counter :: budget_counter

record budget_ledger =
  bl_capacity :: int
  bl_tickets :: "((string \<times> string) \<times> budget_ticket) list"
  bl_days :: "((string list \<times> int) \<times> budget_counter) list"
  bl_rates :: "(string list \<times> rat list) list"
  bl_cycles :: "((string \<times> string \<times> string) \<times> budget_cycle) list"

datatype budget_error = NotLocal | BadCapacity | AlreadyFinalized | NoTicket | ArtifactInvalid

definition budget_init :: "string \<Rightarrow> int \<Rightarrow> budget_error + budget_ledger" where
  "budget_init environment capacity =
     (if environment \<noteq> ''local'' then Inl NotLocal
      else if capacity < 1 then Inl BadCapacity
      else Inr \<lparr>bl_capacity = capacity, bl_tickets = [], bl_days = [], bl_rates = [], bl_cycles = []\<rparr>)"

definition no_calls :: budget_counter where
  "no_calls = \<lparr>bc_units = 0, bc_calls = 0\<rparr>"

definition day_counter :: "budget_ledger \<Rightarrow> string list \<Rightarrow> int \<Rightarrow> budget_counter" where
  "day_counter l identity day = (case map_of (bl_days l) (identity, day) of None \<Rightarrow> no_calls | Some c \<Rightarrow> c)"

definition rate_of :: "budget_ledger \<Rightarrow> string list \<Rightarrow> rat list" where
  "rate_of l identity = (case map_of (bl_rates l) identity of None \<Rightarrow> [] | Some ts \<Rightarrow> ts)"

text \<open>Lines 129-131: the deque is pruned in place when it is stored.\<close>

definition prune_rate :: "budget_ledger \<Rightarrow> string list \<Rightarrow> rat \<Rightarrow> budget_ledger" where
  "prune_rate l identity now =
     (case map_of (bl_rates l) identity of None \<Rightarrow> l
      | Some ts \<Rightarrow> l\<lparr>bl_rates := AList.update identity (dropWhile (\<lambda>t. t \<le> now - 60) ts) (bl_rates l)\<rparr>)"

text \<open>Lines 123-134 for one scope.\<close>

definition admit_scope ::
    "budget_ledger \<Rightarrow> string list \<Rightarrow> scope_budget \<Rightarrow> int \<Rightarrow> rat \<Rightarrow> int \<Rightarrow> budget_ledger \<times> (failure_code + unit)" where
  "admit_scope l identity policy cost now day =
     (let counter = day_counter l identity day in
      if usd_units (sb_daily_usd policy) < bc_units counter + cost then (l, Inl CostBudget)
      else if sb_calls_per_day policy \<le> bc_calls counter then (l, Inl CallBudget)
      else
        let l' = prune_rate l identity now in
        if sb_calls_per_minute policy \<le> int (length (rate_of l' identity)) then (l', Inl RateBudget) else (l', Inr ()))"

definition ticket_key :: "model_request \<Rightarrow> string \<times> string" where
  "ticket_key r = (cs_workspace_id (mr_scope r), mr_idempotency_key r)"

definition cycle_key :: "model_request \<Rightarrow> string \<times> string \<times> string" where
  "cycle_key r = (cs_workspace_id (mr_scope r), cs_agent_id (mr_scope r), cs_decision_id (mr_scope r))"

definition cycle_of :: "budget_ledger \<Rightarrow> model_request \<Rightarrow> agent_access \<Rightarrow> rat \<Rightarrow> budget_cycle" where
  "cycle_of l r access now =
     (case map_of (bl_cycles l) (cycle_key r) of Some c \<Rightarrow> c
      | None \<Rightarrow> \<lparr>cy_version = cs_agent_version_id (mr_scope r),
          cy_deadline = now + of_int (dg_timeout_ms (aa_decision_budget access)) / 1000, cy_counter = no_calls\<rparr>)"

definition add_call :: "int \<Rightarrow> budget_counter \<Rightarrow> budget_counter" where
  "add_call cost c = \<lparr>bc_units = bc_units c + cost, bc_calls = bc_calls c + 1\<rparr>"

text \<open>Lines 139-149: the counters of the day, the rates and the cycle are charged and the ticket is stored.\<close>

definition charge_day :: "string list \<Rightarrow> int \<Rightarrow> int \<Rightarrow> rat \<Rightarrow> budget_ledger \<Rightarrow> budget_ledger" where
  "charge_day identity day cost now l = l\<lparr>
     bl_days := AList.update (identity, day) (add_call cost (day_counter l identity day)) (bl_days l),
     bl_rates := AList.update identity (rate_of l identity @ [now]) (bl_rates l)\<rparr>"

definition store_ticket :: "model_request \<Rightarrow> budget_ticket \<Rightarrow> budget_cycle \<Rightarrow> budget_ledger \<Rightarrow> budget_ledger" where
  "store_ticket r ticket cycle l = l\<lparr>
     bl_cycles := AList.update (cycle_key r) (cycle\<lparr>cy_counter := add_call (tk_reserved_units ticket) (cy_counter cycle)\<rparr>) (bl_cycles l),
     bl_tickets := AList.update (ticket_key r) ticket (bl_tickets l)\<rparr>"

definition reserve ::
    "budget_ledger \<Rightarrow> model_request \<Rightarrow> string \<Rightarrow> int \<Rightarrow> agent_access \<Rightarrow> scope_budget \<Rightarrow> rat \<Rightarrow> datetime \<Rightarrow>
     budget_ledger \<times> (failure_code + budget_ticket \<times> bool)" where
  "reserve l r fingerprint cost access workspace_budget now wall =
     (case map_of (bl_tickets l) (ticket_key r) of
        Some previous \<Rightarrow>
          if tk_fingerprint previous \<noteq> fingerprint then (l, Inl IdempotencyConflict)
          else if tk_record previous = None then (l, Inl InProgress)
          else (l, Inr (previous, False))
      | None \<Rightarrow>
          if bl_capacity l \<le> int (length (bl_tickets l)) then (l, Inl CapacityReached)
          else
            let day = date_of wall; cycle = cycle_of l r access now;
                ws = [cs_workspace_id (mr_scope r)]; agent = [cs_workspace_id (mr_scope r), cs_agent_id (mr_scope r)] in
            if cy_version cycle \<noteq> cs_agent_version_id (mr_scope r) then (l, Inl IdempotencyConflict)
            else if cy_deadline cycle \<le> now then (l, Inl CallTimeout)
            else (case admit_scope l ws workspace_budget cost now day of (l1, Inl e) \<Rightarrow> (l1, Inl e)
            | (l1, Inr _) \<Rightarrow> (case admit_scope l1 agent (aa_daily_budget access) cost now day of (l2, Inl e) \<Rightarrow> (l2, Inl e)
            | (l2, Inr _) \<Rightarrow>
                if usd_units (dg_max_usd (aa_decision_budget access)) < bc_units (cy_counter cycle) + cost then (l2, Inl CostBudget)
                else if dg_max_calls (aa_decision_budget access) \<le> bc_calls (cy_counter cycle) then (l2, Inl CallBudget)
                else
                  let ticket = \<lparr>tk_fingerprint = fingerprint, tk_reserved_units = cost,
                        tk_counters = [DayCounter ws day, DayCounter agent day, CycleCounter (cycle_key r)],
                        tk_deadline = cy_deadline cycle, tk_record = None, tk_artifact = None\<rparr> in
                  (store_ticket r ticket cycle (charge_day agent day cost now (charge_day ws day cost now l2)), Inr (ticket, True)))))"

definition record_for :: "budget_ledger \<Rightarrow> model_request \<Rightarrow> string \<Rightarrow> failure_code + model_call_record option" where
  "record_for l r fingerprint =
     (case map_of (bl_tickets l) (ticket_key r) of None \<Rightarrow> Inr None
      | Some t \<Rightarrow> if tk_fingerprint t \<noteq> fingerprint then Inl IdempotencyConflict else Inr (tk_record t))"

text \<open>\<open>finish\<close>: the counters of the ticket are corrected by the difference, and the ticket is closed.\<close>

definition add_units :: "int \<Rightarrow> budget_counter \<Rightarrow> budget_counter" where
  "add_units delta c = c\<lparr>bc_units := bc_units c + delta\<rparr>"

fun adjust :: "int \<Rightarrow> counter_ref \<Rightarrow> budget_ledger \<Rightarrow> budget_ledger" where
  "adjust delta (DayCounter identity day) l =
     (case map_of (bl_days l) (identity, day) of None \<Rightarrow> l
      | Some c \<Rightarrow> l\<lparr>bl_days := AList.update (identity, day) (add_units delta c) (bl_days l)\<rparr>)"
| "adjust delta (CycleCounter key) l =
     (case map_of (bl_cycles l) key of None \<Rightarrow> l
      | Some c \<Rightarrow> l\<lparr>bl_cycles := AList.update key (c\<lparr>cy_counter := add_units delta (cy_counter c)\<rparr>) (bl_cycles l)\<rparr>)"

definition settle_ticket :: "budget_ledger \<Rightarrow> budget_ticket \<Rightarrow> int option \<Rightarrow> budget_ledger" where
  "settle_ticket l t actual =
     (case actual of None \<Rightarrow> l | Some cost \<Rightarrow> fold (adjust (cost - tk_reserved_units t)) (tk_counters t) l)"

definition finish ::
    "budget_ledger \<Rightarrow> string \<times> string \<Rightarrow> int option \<Rightarrow> model_call_record \<Rightarrow> string option \<Rightarrow> budget_ledger \<times> (budget_error + unit)" where
  "finish l key actual result output_json =
     (case map_of (bl_tickets l) key of None \<Rightarrow> (l, Inl NoTicket)
      | Some t \<Rightarrow>
          if tk_record t \<noteq> None then (l, Inl AlreadyFinalized)
          else
            let l1 = settle_ticket l t actual; t1 = t\<lparr>tk_record := Some result\<rparr>;
                put = (\<lambda>t. l1\<lparr>bl_tickets := AList.update key t (bl_tickets l1)\<rparr>) in
            (case output_json of None \<Rightarrow> (put t1, Inr ())
             | Some text \<Rightarrow>
                 if length text < 2 \<or> 1048576 < length text then (put t1, Inl ArtifactInvalid)
                 else (put (t1\<lparr>tk_artifact := Some \<lparr>re_request_hash = tk_fingerprint t, re_output_json = text, re_record = result\<rparr>\<rparr>), Inr ())))"

section \<open>Sequences of calls\<close>

datatype budget_call =
    Reserve model_request string int agent_access scope_budget rat datetime
  | Finish "string \<times> string" "int option" model_call_record "string option"

text \<open>What a call did: a fresh reservation of a ticket, or the settlement of one.\<close>

datatype budget_event =
    Admitted "string \<times> string" "counter_ref list" int rat
  | Settled "string \<times> string" int int

definition budget_step :: "budget_ledger \<Rightarrow> budget_call \<Rightarrow> budget_ledger \<times> budget_event list" where
  "budget_step l call =
     (case call of
        Reserve r fingerprint cost access budget now wall \<Rightarrow>
          (case reserve l r fingerprint cost access budget now wall of
             (l', Inr (t, True)) \<Rightarrow> (l', [Admitted (ticket_key r) (tk_counters t) cost now]) | (l', _) \<Rightarrow> (l', []))
      | Finish key actual result output \<Rightarrow>
          (fst (finish l key actual result output),
           (case map_of (bl_tickets l) key of None \<Rightarrow> []
            | Some t \<Rightarrow> (case actual of Some a \<Rightarrow> if tk_record t = None then [Settled key (tk_reserved_units t) a] else [] | None \<Rightarrow> []))))"

abbreviation budget_run :: "budget_ledger \<Rightarrow> budget_call list \<Rightarrow> budget_ledger \<times> budget_event list" where
  "budget_run \<equiv> run_events budget_step"

end
