(* ===== verification/ModelBudgetProps.thy ===== *)
theory ModelBudgetProps
  imports ModelBudget
begin

text \<open>
  The budget refines a flat book of charges: one entry per reservation, with the counters it is charged to and its
  charge, which is the reservation until a reported usage replaces it. Every counter is a projection of that book.
\<close>

declare split_paired_All [simp del] split_paired_Ex [simp del] map_of_eq_Some_iff [simp del] Some_eq_map_of_iff [simp del]

section \<open>The book\<close>

type_synonym charge_book = "((string \<times> string) \<times> counter_ref list \<times> int) list"

definition book_event :: "charge_book \<Rightarrow> budget_event \<Rightarrow> charge_book" where
  "book_event b e = (case e of
       Admitted key refs cost now \<Rightarrow> b @ [(key, refs, cost)]
     | Settled key reserved actual \<Rightarrow> (case map_of b key of None \<Rightarrow> b | Some (refs, cost) \<Rightarrow> AList.update key (refs, actual) b))"

definition book_units :: "charge_book \<Rightarrow> counter_ref \<Rightarrow> int" where
  "book_units b ref = sum_list (map (\<lambda>(key, refs, cost). if ref \<in> set refs then cost else 0) b)"

definition book_calls :: "charge_book \<Rightarrow> counter_ref \<Rightarrow> int" where
  "book_calls b ref = sum_list (map (\<lambda>(key, refs, cost). if ref \<in> set refs then 1 else 0) b)"

lemma sum_replaced:
  fixes f :: "'k \<times> 'v \<Rightarrow> int"
  shows "distinct (map fst xs) \<Longrightarrow> map_of xs k = Some v \<Longrightarrow>
    sum_list (map f (AList.update k v' xs)) = sum_list (map f xs) - f (k, v) + f (k, v')"
  by (induction xs) (auto split: if_split_asm)

section \<open>Counters\<close>

fun counter_at :: "budget_ledger \<Rightarrow> counter_ref \<Rightarrow> budget_counter" where
  "counter_at l (DayCounter identity day) = day_counter l identity day"
| "counter_at l (CycleCounter key) = (case map_of (bl_cycles l) key of None \<Rightarrow> no_calls | Some c \<Rightarrow> cy_counter c)"

fun present :: "budget_ledger \<Rightarrow> counter_ref \<Rightarrow> bool" where
  "present l (DayCounter identity day) \<longleftrightarrow> map_of (bl_days l) (identity, day) \<noteq> None"
| "present l (CycleCounter key) \<longleftrightarrow> map_of (bl_cycles l) key \<noteq> None"

lemma adjust_counter:
  "present l ref \<Longrightarrow> counter_at (adjust d ref l) r = (if r = ref then add_units d (counter_at l r) else counter_at l r)"
  by (cases ref; cases r) (auto simp: day_counter_def update_conv add_units_def split: option.splits)

lemma adjust_present [simp]: "present (adjust d ref l) r = present l r"
  by (cases ref; cases r) (auto simp: update_conv split: option.splits)

lemma adjust_frame [simp]:
  "bl_tickets (adjust d ref l) = bl_tickets l" "bl_rates (adjust d ref l) = bl_rates l" "bl_capacity (adjust d ref l) = bl_capacity l"
  by (cases ref; simp split: option.split)+

lemma adjust_all_counter:
  "distinct refs \<Longrightarrow> \<forall>ref \<in> set refs. present l ref \<Longrightarrow>
   counter_at (fold (adjust d) refs l) r = (if r \<in> set refs then add_units d (counter_at l r) else counter_at l r)"
  by (induction refs arbitrary: l) (auto simp: adjust_counter)

lemma adjust_all_frame [simp]:
  "present (fold (adjust d) refs l) r = present l r" "bl_tickets (fold (adjust d) refs l) = bl_tickets l"
  "bl_rates (fold (adjust d) refs l) = bl_rates l" "bl_capacity (fold (adjust d) refs l) = bl_capacity l"
  by (induction refs arbitrary: l) simp_all

text \<open>What does not consume quota: deques lose timestamps older than a minute.\<close>

definition only_pruned :: "rat \<Rightarrow> budget_ledger \<Rightarrow> budget_ledger \<Rightarrow> bool" where
  "only_pruned now l l' \<longleftrightarrow> bl_tickets l' = bl_tickets l \<and> bl_days l' = bl_days l \<and> bl_cycles l' = bl_cycles l \<and>
     bl_capacity l' = bl_capacity l \<and>
     (\<forall>identity. \<exists>old. rate_of l identity = old @ rate_of l' identity \<and> (\<forall>t \<in> set old. t \<le> now - 60))"

lemma only_pruned_refl [simp]: "only_pruned now l l"
  by (simp add: only_pruned_def)

lemma only_pruned_trans: "only_pruned now l l1 \<Longrightarrow> only_pruned now l1 l2 \<Longrightarrow> only_pruned now l l2"
  unfolding only_pruned_def by (auto; metis append.assoc Un_iff set_append)

lemma rate_of_prune:
  "rate_of (prune_rate l identity now) i = (if i = identity then dropWhile (\<lambda>t. t \<le> now - 60) (rate_of l i) else rate_of l i)"
  by (auto simp: prune_rate_def rate_of_def update_conv split: option.splits)

lemma prune_only_pruned: "only_pruned now l (prune_rate l identity now)"
proof -
  have "\<exists>old. rate_of l i = old @ rate_of (prune_rate l identity now) i \<and> (\<forall>t \<in> set old. t \<le> now - 60)" for i
    by (rule exI[of _ "if i = identity then takeWhile (\<lambda>t. t \<le> now - 60) (rate_of l i) else []"])
      (auto simp: rate_of_prune dest: set_takeWhileD)
  then show ?thesis by (simp add: only_pruned_def prune_rate_def split: option.split)
qed

lemma admit_scope_pruned: "only_pruned now l (fst (admit_scope l identity policy cost now day))"
  by (simp add: admit_scope_def Let_def prune_only_pruned)

lemma admit_scopeE:
  assumes "admit_scope l identity policy cost now day = (l', Inr u)"
  obtains "bc_units (day_counter l identity day) + cost \<le> usd_units (sb_daily_usd policy)"
    "bc_calls (day_counter l identity day) < sb_calls_per_day policy" "l' = prune_rate l identity now"
    "int (length (rate_of l' identity)) < sb_calls_per_minute policy"
  using assms by (auto simp: admit_scope_def Let_def not_less split: if_split_asm)

lemma only_pruned_counter [simp]: "only_pruned now l l' \<Longrightarrow> counter_at l' ref = counter_at l ref"
  by (cases ref) (simp_all add: only_pruned_def day_counter_def)

lemma only_pruned_day: "only_pruned now l l' \<Longrightarrow> day_counter l' identity day = day_counter l identity day"
  by (simp add: only_pruned_def day_counter_def)

section \<open>Reservations\<close>

abbreviation ws_of :: "model_request \<Rightarrow> string list" where
  "ws_of r \<equiv> [cs_workspace_id (mr_scope r)]"

abbreviation agent_of :: "model_request \<Rightarrow> string list" where
  "agent_of r \<equiv> [cs_workspace_id (mr_scope r), cs_agent_id (mr_scope r)]"

definition refs_of :: "model_request \<Rightarrow> datetime \<Rightarrow> counter_ref list" where
  "refs_of r wall = [DayCounter (ws_of r) (date_of wall), DayCounter (agent_of r) (date_of wall), CycleCounter (cycle_key r)]"

lemma distinct_refs_of [simp]: "distinct (refs_of r wall)"
  by (simp add: refs_of_def)

text \<open>A fresh reservation: what was checked, and the ledger it leaves.\<close>

lemma reserve_fresh:
  assumes "reserve l r fingerprint cost access budget now wall = (l', Inr (t, True))"
  obtains l2 where "map_of (bl_tickets l) (ticket_key r) = None" "int (length (bl_tickets l)) < bl_capacity l"
    "only_pruned now l l2"
    "l2 = prune_rate (prune_rate l (ws_of r) now) (agent_of r) now"
    "cy_version (cycle_of l r access now) = cs_agent_version_id (mr_scope r)" "now < cy_deadline (cycle_of l r access now)"
    "bc_units (day_counter l (ws_of r) (date_of wall)) + cost \<le> usd_units (sb_daily_usd budget)"
    "bc_calls (day_counter l (ws_of r) (date_of wall)) < sb_calls_per_day budget"
    "int (length (rate_of l2 (ws_of r))) < sb_calls_per_minute budget"
    "bc_units (day_counter l (agent_of r) (date_of wall)) + cost \<le> usd_units (sb_daily_usd (aa_daily_budget access))"
    "bc_calls (day_counter l (agent_of r) (date_of wall)) < sb_calls_per_day (aa_daily_budget access)"
    "int (length (rate_of l2 (agent_of r))) < sb_calls_per_minute (aa_daily_budget access)"
    "bc_units (counter_at l (CycleCounter (cycle_key r))) + cost \<le> usd_units (dg_max_usd (aa_decision_budget access))"
    "bc_calls (counter_at l (CycleCounter (cycle_key r))) < dg_max_calls (aa_decision_budget access)"
    "t = \<lparr>tk_fingerprint = fingerprint, tk_reserved_units = cost, tk_counters = refs_of r wall,
        tk_deadline = cy_deadline (cycle_of l r access now), tk_record = None, tk_artifact = None\<rparr>"
    "l' = store_ticket r t (cycle_of l r access now) (charge_day (agent_of r) (date_of wall) cost now (charge_day (ws_of r) (date_of wall) cost now l2))"
proof -
  let ?day = "date_of wall"
  have none: "map_of (bl_tickets l) (ticket_key r) = None" using assms by (auto simp: reserve_def split: option.splits if_split_asm)
  obtain l1 where a1: "admit_scope l (ws_of r) budget cost now ?day = (l1, Inr ())"
    using assms none by (auto simp: reserve_def Let_def split: option.splits if_split_asm prod.splits sum.splits)
  obtain l2 where a2: "admit_scope l1 (agent_of r) (aa_daily_budget access) cost now ?day = (l2, Inr ())"
    using assms none a1 by (auto simp: reserve_def Let_def split: option.splits if_split_asm prod.splits sum.splits)
  have p1: "only_pruned now l l1" using admit_scope_pruned[of now l] a1 by (metis fst_conv)
  have p2: "only_pruned now l1 l2" using admit_scope_pruned[of now l1] a2 by (metis fst_conv)
  note p = only_pruned_trans[OF p1 p2]
  have cycle: "cy_counter (cycle_of l r access now) = counter_at l (CycleCounter (cycle_key r))"
    by (simp add: cycle_of_def split: option.split)
  show ?thesis
    by (rule admit_scopeE[OF a1], rule admit_scopeE[OF a2], rule that[of l2])
      (use assms none a1 a2 p cycle only_pruned_day[OF p1] in
        \<open>auto simp: reserve_def Let_def refs_of_def not_less not_le rate_of_prune split: if_split_asm\<close>)
qed

lemma reserve_refused:
  "reserve l r fingerprint cost access budget now wall = (l', Inl e) \<Longrightarrow> only_pruned now l l'"
  "reserve l r fingerprint cost access budget now wall = (l', Inr (t, False)) \<Longrightarrow> l' = l"
proof -
  assume e: "reserve l r fingerprint cost access budget now wall = (l', Inl e)"
  let ?a1 = "admit_scope l (ws_of r) budget cost now (date_of wall)"
  let ?a2 = "admit_scope (fst ?a1) (agent_of r) (aa_daily_budget access) cost now (date_of wall)"
  have "only_pruned now l (fst ?a1)" "only_pruned now (fst ?a1) (fst ?a2)" by (rule admit_scope_pruned)+
  moreover from this have "only_pruned now l (fst ?a2)" by (rule only_pruned_trans)
  ultimately show "only_pruned now l l'"
    using e by (auto simp: reserve_def Let_def split: option.splits if_split_asm prod.splits sum.splits)
next
  assume "reserve l r fingerprint cost access budget now wall = (l', Inr (t, False))"
  then show "l' = l" by (auto simp: reserve_def Let_def split: option.splits if_split_asm prod.splits sum.splits)
qed

lemma charged_counter:
  assumes "only_pruned now l l2"
  shows "counter_at (store_ticket r t (cycle_of l r access now) (charge_day (agent_of r) day (tk_reserved_units t) now (charge_day (ws_of r) day (tk_reserved_units t) now l2))) ref =
    (if ref \<in> {DayCounter (ws_of r) day, DayCounter (agent_of r) day, CycleCounter (cycle_key r)}
     then add_call (tk_reserved_units t) (counter_at l ref) else counter_at l ref)"
  using assms
  by (cases ref) (auto simp: store_ticket_def charge_day_def day_counter_def update_conv cycle_of_def only_pruned_def split: option.splits)

lemma charged_present:
  assumes "only_pruned now l l2"
  shows "present (store_ticket r t c (charge_day (agent_of r) day cost now (charge_day (ws_of r) day cost now l2))) ref \<longleftrightarrow>
    ref \<in> {DayCounter (ws_of r) day, DayCounter (agent_of r) day, CycleCounter (cycle_key r)} \<or> present l ref"
  using assms by (cases ref) (auto simp: store_ticket_def charge_day_def update_conv only_pruned_def)

section \<open>The refinement\<close>

definition refines :: "budget_ledger \<Rightarrow> charge_book \<Rightarrow> bool" where
  "refines l b \<longleftrightarrow> distinct (map fst b) \<and>
     (\<forall>ref. counter_at l ref = \<lparr>bc_units = book_units b ref, bc_calls = book_calls b ref\<rparr>) \<and>
     (\<forall>key. map_of (bl_tickets l) key = None \<longleftrightarrow> map_of b key = None) \<and>
     (\<forall>key t. map_of (bl_tickets l) key = Some t \<longrightarrow> distinct (tk_counters t) \<and> (\<forall>ref \<in> set (tk_counters t). present l ref) \<and>
        (\<exists>c. map_of b key = Some (tk_counters t, c) \<and> (tk_record t = None \<longrightarrow> c = tk_reserved_units t)))"

lemma refines_pruned: "only_pruned now l l' \<Longrightarrow> refines l b \<Longrightarrow> refines l' b"
proof -
  assume p: "only_pruned now l l'" and r: "refines l b"
  have "present l' ref = present l ref" for ref using p by (cases ref) (simp_all add: only_pruned_def)
  moreover have "bl_tickets l' = bl_tickets l" using p by (simp add: only_pruned_def)
  ultimately show "refines l' b" using r only_pruned_counter[OF p] unfolding refines_def by simp
qed

lemma refines_reserve:
  assumes f: "reserve l r fingerprint cost access budget now wall = (l', Inr (t, True))" and r: "refines l b"
  shows "refines l' (b @ [(ticket_key r, tk_counters t, cost)])"
proof (rule reserve_fresh[OF f])
  fix l2
  assume none: "map_of (bl_tickets l) (ticket_key r) = None" and p: "only_pruned now l l2"
    and t: "t = \<lparr>tk_fingerprint = fingerprint, tk_reserved_units = cost, tk_counters = refs_of r wall,
        tk_deadline = cy_deadline (cycle_of l r access now), tk_record = None, tk_artifact = None\<rparr>"
    and l': "l' = store_ticket r t (cycle_of l r access now) (charge_day (agent_of r) (date_of wall) cost now (charge_day (ws_of r) (date_of wall) cost now l2))"
  have tick: "bl_tickets l' = AList.update (ticket_key r) t (bl_tickets l)"
    using p by (simp add: l' store_ticket_def charge_day_def only_pruned_def)
  have key: "ticket_key r \<notin> fst ` set b" "map_of b (ticket_key r) = None" using none r by (auto simp: refines_def map_of_eq_None_iff)
  have c: "counter_at l' ref = (if ref \<in> set (refs_of r wall) then add_call cost (counter_at l ref) else counter_at l ref)" for ref
    using charged_counter[OF p, of r t access "date_of wall" ref] t by (simp add: l' refs_of_def)
  have pr: "present l' ref \<longleftrightarrow> ref \<in> set (refs_of r wall) \<or> present l ref" for ref
    using charged_present[OF p, of r t "cycle_of l r access now" "date_of wall" cost ref] by (simp add: l' refs_of_def)
  show ?thesis
    unfolding refines_def
  proof (intro conjI allI impI)
    show "distinct (map fst (b @ [(ticket_key r, tk_counters t, cost)]))" using key r by (simp add: refines_def)
    show "counter_at l' ref = \<lparr>bc_units = book_units (b @ [(ticket_key r, tk_counters t, cost)]) ref,
        bc_calls = book_calls (b @ [(ticket_key r, tk_counters t, cost)]) ref\<rparr>" for ref
      using r by (simp add: c t refines_def add_call_def book_units_def book_calls_def)
    show "map_of (bl_tickets l') k = None \<longleftrightarrow> map_of (b @ [(ticket_key r, tk_counters t, cost)]) k = None" for k
      using r by (auto simp: tick update_conv refines_def map_add_def split: option.splits)
    fix k t' assume "map_of (bl_tickets l') k = Some t'"
    then have k: "(k = ticket_key r \<and> t' = t) \<or> (k \<noteq> ticket_key r \<and> map_of (bl_tickets l) k = Some t')"
      by (auto simp: tick update_conv split: if_split_asm)
    show "distinct (tk_counters t')" "\<forall>ref \<in> set (tk_counters t'). present l' ref"
      using k r by (auto simp: t pr refines_def)
    show "\<exists>c. map_of (b @ [(ticket_key r, tk_counters t, cost)]) k = Some (tk_counters t', c) \<and> (tk_record t' = None \<longrightarrow> c = tk_reserved_units t')"
    proof -
      have "\<exists>c. map_of b k = Some (tk_counters t', c) \<and> (tk_record t' = None \<longrightarrow> c = tk_reserved_units t')" if "k \<noteq> ticket_key r"
        using k that r by (auto simp: refines_def)
      then show ?thesis using k key(2) by (cases "k = ticket_key r") (auto simp: t map_add_def split: option.splits)
    qed
  qed
qed

lemma refines_finish:
  assumes r: "refines l b" and t: "map_of (bl_tickets l) key = Some t" "tk_record t = None"
    and l': "l' = (settle_ticket l t actual)\<lparr>bl_tickets := AList.update key t' (bl_tickets (settle_ticket l t actual))\<rparr>"
    and t': "tk_counters t' = tk_counters t" "tk_reserved_units t' = tk_reserved_units t" "tk_record t' \<noteq> None"
  shows "refines l' (case actual of None \<Rightarrow> b | Some a \<Rightarrow> book_event b (Settled key (tk_reserved_units t) a))"
proof -
  have b: "map_of b key = Some (tk_counters t, tk_reserved_units t)" "distinct (tk_counters t)" "\<forall>ref \<in> set (tk_counters t). present l ref"
      "distinct (map fst b)"
    using r t unfolding refines_def by fastforce+
  have frame: "bl_tickets l' = AList.update key t' (bl_tickets l)" by (cases actual) (simp_all add: l' settle_ticket_def)
  have pr: "present l' ref = present l ref" for ref
  proof -
    have "present l' ref = present (settle_ticket l t actual) ref" unfolding l' by (cases ref) simp_all
    then show ?thesis by (cases actual) (simp_all add: settle_ticket_def)
  qed
  have at: "counter_at l' ref = counter_at (settle_ticket l t actual) ref" for ref unfolding l' by (cases ref) (simp_all add: day_counter_def)
  show ?thesis
  proof (cases actual)
    case None
    have "counter_at l' ref = counter_at l ref" for ref by (simp add: at None settle_ticket_def)
    then show ?thesis
      using r t t' b(1) unfolding refines_def None option.case by (auto simp: frame update_conv pr)
  next
    case (Some a)
    let ?b = "AList.update key (tk_counters t, a) b"
    have ev: "book_event b (Settled key (tk_reserved_units t) a) = ?b" by (simp add: book_event_def b(1))
    have c: "counter_at l' ref = (if ref \<in> set (tk_counters t) then add_units (a - tk_reserved_units t) (counter_at l ref) else counter_at l ref)" for ref
      using adjust_all_counter[OF b(2,3)] by (simp add: at Some settle_ticket_def)
    have sums: "book_units ?b ref = book_units b ref + (if ref \<in> set (tk_counters t) then a - tk_reserved_units t else 0)"
        "book_calls ?b ref = book_calls b ref" for ref
      unfolding book_units_def book_calls_def sum_replaced[OF b(4,1)] by simp_all
    have "refines l' ?b"
      unfolding refines_def
    proof (intro conjI allI impI)
      show "distinct (map fst ?b)" using b(4) by (simp add: distinct_update)
      show "counter_at l' ref = \<lparr>bc_units = book_units ?b ref, bc_calls = book_calls ?b ref\<rparr>" for ref
        using r by (simp add: c sums refines_def add_units_def)
      show "map_of (bl_tickets l') k = None \<longleftrightarrow> map_of ?b k = None" for k
        using r by (simp add: frame update_conv refines_def)
      fix k u assume k: "map_of (bl_tickets l') k = Some u"
      show "distinct (tk_counters u)" "\<forall>ref \<in> set (tk_counters u). present l' ref"
        "\<exists>c. map_of ?b k = Some (tk_counters u, c) \<and> (tk_record u = None \<longrightarrow> c = tk_reserved_units u)"
        using k r t(1) t' b(2,3) by (auto simp: frame update_conv pr refines_def split: if_split_asm)
    qed
    then show ?thesis by (simp add: Some ev)
  qed
qed

lemma finishE:
  assumes "fst (finish l key actual result out) = l'"
  obtains "l' = l" "map_of (bl_tickets l) key = None"
  | t where "l' = l" "map_of (bl_tickets l) key = Some t" "tk_record t \<noteq> None"
  | t t' where "map_of (bl_tickets l) key = Some t" "tk_record t = None" "tk_counters t' = tk_counters t"
      "tk_reserved_units t' = tk_reserved_units t" "tk_record t' = Some result" "tk_fingerprint t' = tk_fingerprint t"
      "l' = (settle_ticket l t actual)\<lparr>bl_tickets := AList.update key t' (bl_tickets (settle_ticket l t actual))\<rparr>"
proof (cases "map_of (bl_tickets l) key")
  case None
  then show ?thesis using assms that(1) by (simp add: finish_def)
next
  case (Some t)
  show ?thesis
  proof (cases "tk_record t")
    case None
    show ?thesis
      using assms Some None that(3)[OF Some None, of "t\<lparr>tk_record := Some result\<rparr>"]
        that(3)[OF Some None, of "t\<lparr>tk_record := Some result, tk_artifact := Some
           \<lparr>re_request_hash = tk_fingerprint t, re_output_json = the out, re_record = result\<rparr>\<rparr>"]
      by (auto simp: finish_def Let_def split: if_split_asm option.splits)
  next
    case closed: (Some x)
    then show ?thesis using assms that(2)[OF _ Some] Some by (simp add: finish_def)
  qed
qed

lemma budget_step_reserve:
  assumes "budget_step l (Reserve r fingerprint cost access budget now wall) = (l', es)"
  obtains (fresh) t where "reserve l r fingerprint cost access budget now wall = (l', Inr (t, True))"
      "es = [Admitted (ticket_key r) (tk_counters t) cost now]"
  | (other) "only_pruned now l l'" "es = []"
proof (cases "reserve l r fingerprint cost access budget now wall")
  case (Pair l1 result)
  show ?thesis
  proof (cases result)
    case (Inl e)
    then show ?thesis using assms other Pair reserve_refused(1) by (simp add: budget_step_def)
  next
    case (Inr x)
    obtain t f where x: "x = (t, f)" by (cases x)
    have keep: "l1 = l" if "\<not> f" using Pair Inr x that by (auto dest: reserve_refused(2))
    show ?thesis using assms fresh[of t] other keep Pair Inr x by (cases f) (auto simp: budget_step_def)
  qed
qed

lemma budget_step_finish:
  assumes "budget_step l (Finish key actual result out) = (l', es)"
  obtains (closed) "l' = l" "es = []"
  | (settled) t t' where "map_of (bl_tickets l) key = Some t" "tk_record t = None" "tk_counters t' = tk_counters t"
      "tk_reserved_units t' = tk_reserved_units t" "tk_record t' = Some result" "tk_fingerprint t' = tk_fingerprint t"
      "l' = (settle_ticket l t actual)\<lparr>bl_tickets := AList.update key t' (bl_tickets (settle_ticket l t actual))\<rparr>"
      "es = (case actual of None \<Rightarrow> [] | Some a \<Rightarrow> [Settled key (tk_reserved_units t) a])"
proof -
  have l': "fst (finish l key actual result out) = l'" using assms by (simp add: budget_step_def)
  show ?thesis
  proof (rule finishE[OF l'])
    assume "l' = l" "map_of (bl_tickets l) key = None"
    then show ?thesis using assms closed by (simp add: budget_step_def)
  next
    fix t assume "l' = l" "map_of (bl_tickets l) key = Some t" "tk_record t \<noteq> None"
    then show ?thesis using assms closed by (simp add: budget_step_def split: option.splits)
  next
    fix t t' assume t: "map_of (bl_tickets l) key = Some t" "tk_record t = None" "tk_counters t' = tk_counters t"
      "tk_reserved_units t' = tk_reserved_units t" "tk_record t' = Some result" "tk_fingerprint t' = tk_fingerprint t"
      "l' = (settle_ticket l t actual)\<lparr>bl_tickets := AList.update key t' (bl_tickets (settle_ticket l t actual))\<rparr>"
    have "es = (case actual of None \<Rightarrow> [] | Some a \<Rightarrow> [Settled key (tk_reserved_units t) a])"
      using assms t(1,2) by (simp add: budget_step_def split: option.splits)
    then show ?thesis by (rule settled[OF t])
  qed
qed

lemma budget_step_refines:
  assumes r: "refines l b" and s: "budget_step l c = (l', es)"
  shows "refines l' (foldl book_event b es)"
proof (cases c)
  case (Reserve req fingerprint cost access budget now wall)
  show ?thesis
    using s[unfolded Reserve]
  proof (cases rule: budget_step_reserve)
    case (fresh t)
    then show ?thesis using refines_reserve[OF fresh(1) r] by (simp add: book_event_def)
  qed (use refines_pruned r in simp)
next
  case (Finish key actual result out)
  show ?thesis
    using s[unfolded Finish]
  proof (cases rule: budget_step_finish)
    case (settled t t')
    have "refines l' (case actual of None \<Rightarrow> b | Some a \<Rightarrow> book_event b (Settled key (tk_reserved_units t) a))"
      by (rule refines_finish[OF r settled(1,2,7,3,4)]) (simp add: settled(5))
    then show ?thesis using settled(8) by (cases actual) simp_all
  qed (use r in simp)
qed

interpretation budget_book: event_sourced budget_step book_event refines
  by unfold_locales (rule budget_step_refines)

lemma refines_init: "budget_init environment capacity = Inr l \<Longrightarrow> refines l []"
proof -
  assume "budget_init environment capacity = Inr l"
  then have l: "bl_tickets l = []" "bl_days l = []" "bl_cycles l = []" by (auto simp: budget_init_def split: if_split_asm)
  have "counter_at l ref = no_calls" for ref using l by (cases ref) (simp_all add: day_counter_def)
  then show "refines l []" using l by (simp add: refines_def book_units_def book_calls_def no_calls_def)
qed

section \<open>Limits\<close>

text \<open>The limits a reservation puts on a counter: picodollars and calls.\<close>

definition limits_of :: "model_request \<Rightarrow> agent_access \<Rightarrow> scope_budget \<Rightarrow> datetime \<Rightarrow> counter_ref \<Rightarrow> (int \<times> int) option" where
  "limits_of r access budget wall ref =
     (if ref = DayCounter (ws_of r) (date_of wall) then Some (usd_units (sb_daily_usd budget), sb_calls_per_day budget)
      else if ref = DayCounter (agent_of r) (date_of wall)
      then Some (usd_units (sb_daily_usd (aa_daily_budget access)), sb_calls_per_day (aa_daily_budget access))
      else if ref = CycleCounter (cycle_key r)
      then Some (usd_units (dg_max_usd (aa_decision_budget access)), dg_max_calls (aa_decision_budget access))
      else None)"

definition limited :: "int \<Rightarrow> int \<Rightarrow> counter_ref \<Rightarrow> budget_call \<Rightarrow> bool" where
  "limited u n ref call \<longleftrightarrow> (case call of
       Reserve r fingerprint cost access budget now wall \<Rightarrow>
         (case limits_of r access budget wall ref of None \<Rightarrow> True | Some (u', n') \<Rightarrow> u' \<le> u \<and> n' \<le> n)
     | Finish key actual result out \<Rightarrow> True)"

definition honest :: "budget_event \<Rightarrow> bool" where
  "honest e \<longleftrightarrow> (case e of Admitted key refs cost now \<Rightarrow> True | Settled key reserved actual \<Rightarrow> actual \<le> reserved)"

definition in_limits :: "int \<Rightarrow> int \<Rightarrow> counter_ref \<Rightarrow> budget_ledger \<Rightarrow> bool" where
  "in_limits u n ref l \<longleftrightarrow> bc_units (counter_at l ref) \<le> u \<and> bc_calls (counter_at l ref) \<le> n"

lemma reserve_counter:
  assumes "reserve l r fingerprint cost access budget now wall = (l', Inr (t, True))"
  shows "counter_at l' ref = (if ref \<in> set (refs_of r wall) then add_call cost (counter_at l ref) else counter_at l ref)"
    "tk_counters t = refs_of r wall"
proof -
  show "counter_at l' ref = (if ref \<in> set (refs_of r wall) then add_call cost (counter_at l ref) else counter_at l ref)"
    by (rule reserve_fresh[OF assms])
      (use charged_counter[where l = l and r = r and t = t and access = access and now = now and day = "date_of wall" and ref = ref] in
        \<open>simp add: refs_of_def\<close>)
  show "tk_counters t = refs_of r wall" by (rule reserve_fresh[OF assms]) simp
qed

lemma reserve_within:
  assumes f: "reserve l r fingerprint cost access budget now wall = (l', Inr (t, True))" and w: "in_limits u n ref l"
    and lim: "limited u n ref (Reserve r fingerprint cost access budget now wall)"
  shows "in_limits u n ref l'"
proof (cases "ref \<in> set (refs_of r wall)")
  case True
  obtain u' n' where l': "limits_of r access budget wall ref = Some (u', n')" using True by (auto simp: limits_of_def refs_of_def)
  have le: "u' \<le> u" "n' \<le> n" using lim l' by (simp_all add: limited_def)
  have "bc_units (counter_at l ref) + cost \<le> u' \<and> bc_calls (counter_at l ref) < n'"
    by (rule reserve_fresh[OF f]) (use l' in \<open>auto simp: limits_of_def split: if_split_asm\<close>)
  then show ?thesis using True le by (simp add: in_limits_def reserve_counter(1)[OF f] add_call_def)
qed (use w in \<open>simp add: in_limits_def reserve_counter(1)[OF f]\<close>)

lemma finish_counter:
  assumes r: "refines l b" and t: "map_of (bl_tickets l) key = Some t"
    and l': "l' = (settle_ticket l t actual)\<lparr>bl_tickets := ts\<rparr>"
  shows "counter_at l' ref = (case actual of None \<Rightarrow> counter_at l ref
    | Some a \<Rightarrow> if ref \<in> set (tk_counters t) then add_units (a - tk_reserved_units t) (counter_at l ref) else counter_at l ref)"
proof -
  have c: "distinct (tk_counters t)" "\<forall>ref \<in> set (tk_counters t). present l ref" using r t unfolding refines_def by blast+
  have "counter_at l' ref = counter_at (settle_ticket l t actual) ref" unfolding l' by (cases ref) (simp_all add: day_counter_def)
  then show ?thesis using adjust_all_counter[OF c] by (cases actual) (simp_all add: settle_ticket_def)
qed

lemma budget_step_within:
  assumes r: "refines l b" and s: "budget_step l c = (l', es)" and w: "in_limits u n ref l" and lim: "limited u n ref c" and h: "list_all honest es"
  shows "in_limits u n ref l'"
proof (cases c)
  case (Reserve req fingerprint cost access budget now wall)
  show ?thesis
    using s[unfolded Reserve]
  proof (cases rule: budget_step_reserve)
    case (fresh t)
    then show ?thesis using reserve_within[OF fresh(1) w lim[unfolded Reserve]] by simp
  next
    case other
    then show ?thesis using w by (simp add: in_limits_def)
  qed
next
  case (Finish key actual result out)
  show ?thesis
    using s[unfolded Finish]
  proof (cases rule: budget_step_finish)
    case (settled t t')
    then show ?thesis
      using w h finish_counter[OF r settled(1,7), of ref] by (cases actual) (auto simp: in_limits_def add_units_def honest_def)
  qed (use w in simp)
qed

lemma budget_run_within:
  "refines l b \<Longrightarrow> budget_run l cs = (l', events) \<Longrightarrow> in_limits u n ref l \<Longrightarrow> list_all (limited u n ref) cs \<Longrightarrow> list_all honest events \<Longrightarrow>
   in_limits u n ref l'"
proof (induction cs arbitrary: l b events)
  case (Cons c cs)
  obtain l1 es1 es2 where s: "budget_step l c = (l1, es1)" "budget_run l1 cs = (l', es2)" "events = es1 @ es2"
    by (rule run_events_Cons[OF Cons.prems(2)])
  have "in_limits u n ref l1" using budget_step_within[OF Cons.prems(1) s(1) Cons.prems(3)] Cons.prems(4,5) s(3) by simp
  then show ?case using Cons.IH[OF budget_step_refines[OF Cons.prems(1) s(1)] s(2)] Cons.prems(4,5) s(3) by simp
qed simp

section \<open>The rolling minute\<close>

definition touches :: "string list \<Rightarrow> counter_ref list \<Rightarrow> bool" where
  "touches identity refs \<longleftrightarrow> list_ex (\<lambda>ref. case ref of DayCounter i day \<Rightarrow> i = identity | CycleCounter key \<Rightarrow> False) refs"

text \<open>When the reservations of a workspace or an agent were admitted.\<close>

definition admissions :: "string list \<Rightarrow> budget_event list \<Rightarrow> rat list" where
  "admissions identity events = concat (map (\<lambda>e. case e of
       Admitted key refs cost now \<Rightarrow> if touches identity refs then [now] else [] | Settled key reserved actual \<Rightarrow> []) events)"

definition readings_of :: "budget_call list \<Rightarrow> rat list" where
  "readings_of calls = concat (map (\<lambda>c. case c of Reserve r fingerprint cost access budget now wall \<Rightarrow> [now]
     | Finish key actual result out \<Rightarrow> []) calls)"

definition rate_limited :: "int \<Rightarrow> string list \<Rightarrow> budget_call \<Rightarrow> bool" where
  "rate_limited n identity call \<longleftrightarrow> (case call of
       Reserve r fingerprint cost access budget now wall \<Rightarrow>
         (ws_of r = identity \<longrightarrow> sb_calls_per_minute budget \<le> n) \<and>
         (agent_of r = identity \<longrightarrow> sb_calls_per_minute (aa_daily_budget access) \<le> n)
     | Finish key actual result out \<Rightarrow> True)"

definition in_minute :: "rat \<Rightarrow> rat list \<Rightarrow> rat list" where
  "in_minute t ts = filter (\<lambda>s. t - 60 < s \<and> s \<le> t) ts"

definition rates_ok :: "int \<Rightarrow> string list \<Rightarrow> budget_ledger \<Rightarrow> budget_event list \<Rightarrow> rat \<Rightarrow> bool" where
  "rates_ok n identity l events clock \<longleftrightarrow>
     (\<exists>old. admissions identity events = old @ rate_of l identity \<and> (\<forall>t \<in> set old. t \<le> clock - 60)) \<and>
     (\<forall>t \<in> set (admissions identity events). t \<le> clock) \<and>
     (\<forall>t. int (length (in_minute t (admissions identity events))) \<le> n)"

lemma rates_ok_pruned:
  assumes "rates_ok n identity l events clock" "only_pruned now l l'" "clock \<le> now"
  shows "rates_ok n identity l' events now"
proof -
  obtain old where o1: "admissions identity events = old @ rate_of l identity" "\<forall>t \<in> set old. t \<le> clock - 60"
    using assms(1) by (auto simp: rates_ok_def)
  obtain more where o2: "rate_of l identity = more @ rate_of l' identity" "\<forall>t \<in> set more. t \<le> now - 60"
    using assms(2) unfolding only_pruned_def by metis
  have "admissions identity events = (old @ more) @ rate_of l' identity" "\<forall>t \<in> set (old @ more). t \<le> now - 60"
    using o1 o2 assms(3) by auto
  moreover have "\<forall>t \<in> set (admissions identity events). t \<le> now" using assms(1,3) by (force simp: rates_ok_def)
  ultimately show ?thesis using assms(1) unfolding rates_ok_def by blast
qed

lemma admissions_append [simp]: "admissions identity (events @ es) = admissions identity events @ admissions identity es"
  by (simp add: admissions_def)

text \<open>An admission at a time that is not before the earlier ones.\<close>

lemma rates_ok_admit:
  assumes ok: "rates_ok n identity l events now" and room: "int (length (rate_of l identity)) < n"
    and rate: "rate_of l' identity = rate_of l identity @ [now]" and e: "admissions identity es = [now]"
  shows "rates_ok n identity l' (events @ es) now"
proof -
  obtain old where old: "admissions identity events = old @ rate_of l identity" "\<forall>t \<in> set old. t \<le> now - 60"
    using ok by (auto simp: rates_ok_def)
  have before: "\<forall>t \<in> set (admissions identity events). t \<le> now" using ok by (simp add: rates_ok_def)
  have "int (length (in_minute t (admissions identity events @ [now]))) \<le> n" for t
  proof (cases "now \<le> t")
    case True
    have none: "filter (\<lambda>s. t - 60 < s \<and> s \<le> t) old = []" using old(2) True by (auto simp: filter_empty_conv)
    have "length (in_minute t (admissions identity events @ [now])) \<le> length (rate_of l identity) + 1"
      unfolding in_minute_def old(1) filter_append none by (simp add: le_SucI)
    then show ?thesis using room by linarith
  next
    case False
    then have "in_minute t (admissions identity events @ [now]) = in_minute t (admissions identity events)" by (simp add: in_minute_def)
    then show ?thesis using ok by (simp add: rates_ok_def)
  qed
  then show ?thesis using old before rate e by (auto simp: rates_ok_def intro!: exI[of _ old])
qed

lemma reserve_rate:
  assumes "reserve l r fingerprint cost access budget now wall = (l', Inr (t, True))"
  obtains l2 where "only_pruned now l l2"
    "rate_of l' i = (if i = ws_of r \<or> i = agent_of r then rate_of l2 i @ [now] else rate_of l2 i)"
    "i = ws_of r \<Longrightarrow> int (length (rate_of l2 i)) < sb_calls_per_minute budget"
    "i = agent_of r \<Longrightarrow> int (length (rate_of l2 i)) < sb_calls_per_minute (aa_daily_budget access)"
  by (rule reserve_fresh[OF assms], rule that) (auto simp: store_ticket_def charge_day_def rate_of_def update_conv)

lemma budget_step_rates:
  assumes ok: "rates_ok n identity l events clock" and s: "budget_step l c = (l', es)" and lim: "rate_limited n identity c"
    and later: "\<forall>t \<in> set (readings_of [c]). clock \<le> t"
  shows "rates_ok n identity l' (events @ es) (case readings_of [c] of [] \<Rightarrow> clock | t # ts \<Rightarrow> t)"
proof (cases c)
  case (Reserve req fingerprint cost access budget now wall)
  have now: "clock \<le> now" using later by (simp add: readings_of_def Reserve)
  have "rates_ok n identity l' (events @ es) now"
    using s[unfolded Reserve]
  proof (cases rule: budget_step_reserve)
    case other
    then show ?thesis using rates_ok_pruned[OF ok _ now] by simp
  next
    case (fresh t)
    have touch: "touches identity (tk_counters t) \<longleftrightarrow> identity = ws_of req \<or> identity = agent_of req"
      by (auto simp: reserve_counter(2)[OF fresh(1)] refs_of_def touches_def)
    show ?thesis
    proof (rule reserve_rate[OF fresh(1), of identity])
      fix l2
      assume p: "only_pruned now l l2"
        and rate: "rate_of l' identity = (if identity = ws_of req \<or> identity = agent_of req then rate_of l2 identity @ [now] else rate_of l2 identity)"
        and room: "identity = ws_of req \<Longrightarrow> int (length (rate_of l2 identity)) < sb_calls_per_minute budget"
          "identity = agent_of req \<Longrightarrow> int (length (rate_of l2 identity)) < sb_calls_per_minute (aa_daily_budget access)"
      have ok2: "rates_ok n identity l2 events now" by (rule rates_ok_pruned[OF ok p now])
      show ?thesis
      proof (cases "identity = ws_of req \<or> identity = agent_of req")
        case True
        then have "int (length (rate_of l2 identity)) < n"
          using room lim by (auto simp: rate_limited_def Reserve)
        moreover have "admissions identity es = [now]" using True touch by (simp add: fresh(2) admissions_def)
        ultimately show ?thesis using rates_ok_admit[OF ok2] rate True by simp
      next
        case False
        then have "admissions identity es = []" using touch by (simp add: fresh(2) admissions_def)
        then show ?thesis using ok2 rate False by (simp add: rates_ok_def)
      qed
    qed
  qed
  then show ?thesis by (simp add: readings_of_def Reserve)
next
  case (Finish key actual result out)
  have "rate_of l' identity = rate_of l identity \<and> admissions identity es = []"
    using s[unfolded Finish]
  proof (cases rule: budget_step_finish)
    case (settled t t')
    then show ?thesis by (cases actual) (simp_all add: settle_ticket_def rate_of_def admissions_def)
  qed (simp add: admissions_def)
  then show ?thesis using ok by (simp add: rates_ok_def readings_of_def Finish)
qed

lemma budget_run_rates:
  "rates_ok n identity l events clock \<Longrightarrow> budget_run l cs = (l', es) \<Longrightarrow> list_all (rate_limited n identity) cs \<Longrightarrow>
   sorted (clock # readings_of cs) \<Longrightarrow> \<exists>clock'. rates_ok n identity l' (events @ es) clock'"
proof (induction cs arbitrary: l events clock es)
  case (Cons c cs)
  obtain l1 es1 es2 where s: "budget_step l c = (l1, es1)" "budget_run l1 cs = (l', es2)" "es = es1 @ es2"
    by (rule run_events_Cons[OF Cons.prems(2)])
  have r: "readings_of (c # cs) = readings_of [c] @ readings_of cs" by (simp add: readings_of_def)
  let ?clock = "case readings_of [c] of [] \<Rightarrow> clock | t # ts \<Rightarrow> t"
  have later: "\<forall>t \<in> set (readings_of [c]). clock \<le> t" "sorted (?clock # readings_of cs)"
    using Cons.prems(4) unfolding r by (auto simp: readings_of_def split: budget_call.splits)
  have "rates_ok n identity l1 (events @ es1) ?clock"
    by (rule budget_step_rates[OF Cons.prems(1) s(1) _ later(1)]) (use Cons.prems(3) in simp)
  from Cons.IH[OF this s(2) _ later(2)] Cons.prems(3)
  have "\<exists>clock'. rates_ok n identity l' ((events @ es1) @ es2) clock'" by simp
  then show ?case by (simp add: s(3))
qed auto

section \<open>One reservation per key\<close>

lemma ticket_kept:
  assumes "map_of (bl_tickets l) key = Some t" "budget_step l c = (l', es)"
  shows "(\<exists>t'. map_of (bl_tickets l') key = Some t' \<and> tk_fingerprint t' = tk_fingerprint t \<and> (tk_record t \<noteq> None \<longrightarrow> t' = t)) \<and>
    list_all (\<lambda>e. case e of Admitted k refs cost now \<Rightarrow> k \<noteq> key | Settled k reserved actual \<Rightarrow> True) es"
proof (cases c)
  case (Reserve req fingerprint cost access budget now wall)
  show ?thesis
    using assms(2)[unfolded Reserve]
  proof (cases rule: budget_step_reserve)
    case other
    then show ?thesis using assms(1) by (simp add: only_pruned_def)
  next
    case (fresh u)
    show ?thesis
    proof (rule reserve_fresh[OF fresh(1)])
      fix l2 assume a: "map_of (bl_tickets l) (ticket_key req) = None" "only_pruned now l l2"
        "l' = store_ticket req u (cycle_of l req access now) (charge_day (agent_of req) (date_of wall) cost now (charge_day (ws_of req) (date_of wall) cost now l2))"
      then have "bl_tickets l' = AList.update (ticket_key req) u (bl_tickets l)"
        by (simp add: store_ticket_def charge_day_def only_pruned_def)
      then show ?thesis using a(1) assms(1) by (auto simp: update_conv fresh(2))
    qed
  qed
next
  case (Finish k actual result out)
  show ?thesis
    using assms(2)[unfolded Finish]
  proof (cases rule: budget_step_finish)
    case closed
    then show ?thesis using assms(1) by simp
  next
    case (settled u u')
    have frame: "bl_tickets l' = AList.update k u' (bl_tickets l)" by (cases actual) (simp_all add: settled(7) settle_ticket_def)
    show ?thesis using assms(1) settled(1,2,6,8) by (cases actual; cases "k = key") (auto simp: frame update_conv)
  qed
qed

lemma ticket_kept_run:
  "map_of (bl_tickets l) key = Some t \<Longrightarrow> budget_run l cs = (l', events) \<Longrightarrow>
   (\<exists>t'. map_of (bl_tickets l') key = Some t' \<and> tk_fingerprint t' = tk_fingerprint t \<and> (tk_record t \<noteq> None \<longrightarrow> t' = t)) \<and>
   list_all (\<lambda>e. case e of Admitted k refs cost now \<Rightarrow> k \<noteq> key | Settled k reserved actual \<Rightarrow> True) events"
proof (induction cs arbitrary: l t events)
  case (Cons c cs)
  obtain l1 es1 es2 where s: "budget_step l c = (l1, es1)" "budget_run l1 cs = (l', es2)" "events = es1 @ es2"
    by (rule run_events_Cons[OF Cons.prems(2)])
  obtain t1 where t1: "map_of (bl_tickets l1) key = Some t1" "tk_fingerprint t1 = tk_fingerprint t" "tk_record t \<noteq> None \<longrightarrow> t1 = t"
    using ticket_kept[OF Cons.prems(1) s(1)] by blast
  show ?case using Cons.IH[OF t1(1) s(2)] t1 ticket_kept[OF Cons.prems(1) s(1)] s(3) by auto
qed simp

lemma reserve_again:
  assumes "map_of (bl_tickets l) (ticket_key r) = Some t"
  shows "reserve l r fingerprint cost access budget now wall =
    (l, if tk_fingerprint t \<noteq> fingerprint then Inl IdempotencyConflict
        else if tk_record t = None then Inl InProgress else Inr (t, False))"
  using assms by (simp add: reserve_def)

declare split_paired_All [simp] split_paired_Ex [simp]

end
