(* ===== verification/ModelTheorems.thy ===== *)
theory ModelTheorems
  imports ModelGateway ModelBudgetProps
begin

text \<open>The properties of the model budget and of the gateway over it.\<close>

section \<open>A sample gateway\<close>

definition g_scope :: call_scope where
  "g_scope = \<lparr>cs_workspace_id = ''ws'', cs_agent_id = ''ag'', cs_agent_version_id = ''av'', cs_decision_id = ''d1'', cs_mode = Paper\<rparr>"

definition g_request :: "string \<Rightarrow> model_request" where
  "g_request key = \<lparr>mr_scope = g_scope, mr_idempotency_key = key, mr_profile = ReasonBalanced, mr_prompt_key = ''analysis'',
     mr_input_json = ''{}'', mr_pinned_model_identifier = None\<rparr>"

definition g_budget :: scope_budget where
  "g_budget = \<lparr>sb_daily_usd = Dec 1 (-2), sb_calls_per_minute = 2, sb_calls_per_day = 5\<rparr>"

definition g_access :: agent_access where
  "g_access = \<lparr>aa_workspace_id = ''ws'', aa_agent_id = ''ag'', aa_agent_version_id = ''av'', aa_profiles = [ReasonBalanced],
     aa_prompt_keys = [''analysis''], aa_expected_prompt_hash = None, aa_daily_budget = g_budget,
     aa_decision_budget = \<lparr>dg_max_usd = Dec 1 (-2), dg_max_calls = 4, dg_timeout_ms = 600000\<rparr>, aa_max_output_tokens = 1000\<rparr>"

definition g_route :: route where
  "g_route = \<lparr>ro_profile = ReasonBalanced, ro_provider = ''local'', ro_model_identifier = ''m1'', ro_pricing_version = ''v1'',
     ro_input_usd_per_million = Dec 1 0, ro_output_usd_per_million = Dec 2 0, ro_max_input_tokens = 1000,
     ro_max_output_tokens = 1000, ro_timeout_ms = 30000, ro_max_output_bytes = 100, ro_embedding_dimensions = None\<rparr>"

definition g_type :: model_type where
  "g_type = \<lparr>ty_name = ''Proposal'', ty_domain_model = True, ty_forbids_extra = True, ty_fields = [''action''],
     ty_schema_json = ''{}'', ty_validate = (\<lambda>j. Some ''{}'')\<rparr>"

definition g_definition :: prompt_definition where
  "g_definition = \<lparr>pd_key = ''analysis'', pd_profile = ReasonBalanced, pd_system_text = ''Analyse'', pd_input_type = g_type, pd_output_type = g_type\<rparr>"

definition g_boundary :: boundary where
  "g_boundary = \<lparr>bd_loads = (\<lambda>text. Some (JObject [])), bd_secret_key = (\<lambda>s. False), bd_secret_text = (\<lambda>s. False)\<rparr>"

definition g_provider :: model_provider where
  "g_provider = \<lparr>pv_name = ''local'', pv_local_only = True, pv_input_token_bound = (\<lambda>r. Some 500)\<rparr>"

definition g_digest :: "gateway_artefact \<Rightarrow> string" where
  "g_digest a = (case a of DText text \<Rightarrow> text | DRoute r \<Rightarrow> ''route'' | DCall r input p s rh access \<Rightarrow> ''call:'' @ mr_idempotency_key r)"

definition g_gateway :: gateway where
  "g_gateway = \<lparr>gw_boundary = g_boundary, gw_routes = [(ReasonBalanced, g_route)], gw_providers = [(''local'', g_provider)],
     gw_prompts = [(''analysis'', g_definition)], gw_agents = [((''ws'', ''ag'', ''av''), g_access)], gw_workspaces = [(''ws'', g_budget)]\<rparr>"

definition g_output :: "prepared \<Rightarrow> string \<Rightarrow> failure_code + string" where
  "g_output p text = validate_output (\<lambda>s. []) (\<lambda>s. 0) g_type g_boundary p text g_type"

definition g_prepared :: prepared where
  "g_prepared = \<lparr>pre_request = g_request ''k1'', pre_definition = g_definition,
     pre_provider_request = \<lparr>pq_model_identifier = ''m1'', pq_system_text = ''Analyse'' @ DATA_BOUNDARY, pq_input_json = ''{}'',
       pq_output_schema_json = ''{}'', pq_max_output_tokens = 1000\<rparr>,
     pre_route = g_route, pre_access = g_access, pre_request_hash = ''call:k1'', pre_prompt_hash = ''Analyse'' @ DATA_BOUNDARY,
     pre_schema_hash = ''{}'', pre_route_hash = ''route'', pre_input_bound = 500\<rparr>"

lemma g_prepare: "prepare_call g_digest g_gateway (g_request ''k1'') g_type = Inr g_prepared"
proof -
  have "gateway_name_ok ''k1''" "gateway_name_ok ''analysis''" by code_simp+
  then show ?thesis
    by (simp add: model_request_error_def prepare_call_def Let_def bindE_def guardE_def g_gateway_def g_request_def g_scope_def g_access_def g_definition_def
        g_route_def g_type_def g_provider_def g_prepared_def validate_json_def g_boundary_def g_digest_def
        registered_prompt_hash_def prompt_text_hash_def)
qed

definition g_start :: budget_ledger where
  "g_start = \<lparr>bl_capacity = 100, bl_tickets = [], bl_days = [], bl_rates = [], bl_cycles = []\<rparr>"

definition g_record :: model_call_record where
  "g_record = \<lparr>mc_profile = ReasonBalanced, mc_resolved_model_identifier = ''m1'', mc_prompt_hash = '''', mc_input_tokens = 0,
     mc_output_tokens = 0, mc_cost = \<lparr>m_amount = Dec 0 0, m_currency = ''USD''\<rparr>, mc_latency_ms = 0, mc_tool_calls = 0,
     mc_schema_validation_failed = False, mc_scope = None, mc_request_hash = None, mc_output_hash = None, mc_schema_hash = None,
     mc_route_hash = None, mc_outcome = Some CallTimeout, mc_usage_known = False, mc_cost_is_reservation = True\<rparr>"

text \<open>Two reservations are admitted, the third is over the rate; the first is settled below its reservation.\<close>

definition g_calls :: "budget_call list" where
  "g_calls = [Reserve (g_request ''k1'') ''f1'' 2500000 g_access g_budget 10 0, Reserve (g_request ''k2'') ''f2'' 2500000 g_access g_budget 20 0,
     Reserve (g_request ''k3'') ''f3'' 2500000 g_access g_budget 30 0, Finish (''ws'', ''k1'') (Some 1000000) g_record None]"

definition g_events :: "budget_event list" where
  "g_events =
    [Admitted (''ws'', ''k1'') [DayCounter [''ws''] 0, DayCounter [''ws'', ''ag''] 0, CycleCounter (''ws'', ''ag'', ''d1'')] 2500000 10,
     Admitted (''ws'', ''k2'') [DayCounter [''ws''] 0, DayCounter [''ws'', ''ag''] 0, CycleCounter (''ws'', ''ag'', ''d1'')] 2500000 20,
     Settled (''ws'', ''k1'') 2500000 1000000]"

lemma g_init: "budget_init ''local'' 100 = Inr g_start"
  by (simp add: budget_init_def g_start_def)

lemma g_run: "budget_run g_start g_calls = (fst (budget_run g_start g_calls), g_events)"
proof -
  have "snd (budget_run g_start g_calls) = g_events" by code_simp
  then show ?thesis by (metis prod.collapse)
qed

section \<open>Accounting\<close>

text \<open>
  C37. The budget refines a flat book of charges: after any reservations and settlements, from an empty ledger, every
  counter of a day or of a decision holds exactly the sum of the charges of the reservations it was charged with, and
  their number, where a charge is the reservation until a reported usage replaced it.
\<close>

theorem budget_refines_book:
  assumes "budget_init environment capacity = Inr l0" "budget_run l0 calls = (l, events)"
  shows "counter_at l ref = \<lparr>bc_units = book_units (foldl book_event [] events) ref, bc_calls = book_calls (foldl book_event [] events) ref\<rparr>"
  using budget_book.run_simulates[OF refines_init[OF assms(1)] assms(2)] by (simp add: refines_def)

theorem budget_refines_book_witness:
  "counter_at (fst (budget_run g_start g_calls)) (DayCounter [''ws''] 0) = \<lparr>bc_units = 3500000, bc_calls = 2\<rparr>"
proof -
  have "book_units (foldl book_event [] g_events) (DayCounter [''ws''] 0) = 3500000 \<and>
      book_calls (foldl book_event [] g_events) (DayCounter [''ws''] 0) = 2" by code_simp
  then show ?thesis using budget_refines_book[OF g_init g_run, of "DayCounter [''ws''] 0"] by (simp del: counter_at.simps)
qed

text \<open>
  C35. No budget is overspent: when the reservations that touch a counter of a day or of a decision are made under limits
  of at most \<open>u\<close> picodollars and \<open>n\<close> calls, and no settlement is above its reservation, the counter stays within both.
\<close>

theorem spend_within_limits:
  assumes "budget_init environment capacity = Inr l0" "budget_run l0 calls = (l, events)"
    and "list_all (limited u n ref) calls" "list_all honest events" "0 \<le> u" "0 \<le> n"
  shows "bc_units (counter_at l ref) \<le> u \<and> bc_calls (counter_at l ref) \<le> n"
proof -
  have r: "refines l0 []" by (rule refines_init[OF assms(1)])
  then have "in_limits u n ref l0" using assms(5,6) by (simp add: in_limits_def refines_def book_units_def book_calls_def)
  then show ?thesis using budget_run_within[OF r assms(2) _ assms(3,4)] by (simp add: in_limits_def)
qed

theorem spend_within_limits_witness:
  "bc_units (counter_at (fst (budget_run g_start g_calls)) (DayCounter [''ws''] 0)) \<le> 10000000000"
proof -
  have "list_all (limited 10000000000 5 (DayCounter [''ws''] 0)) g_calls" "list_all honest g_events" by code_simp+
  from spend_within_limits[OF g_init g_run this] show ?thesis by simp
qed

text \<open>
  C36. The rate holds in every window: when the monotonic clock does not go back and a workspace or an agent is always
  called under at most \<open>n\<close> calls a minute, then in no window of 60 seconds are more than \<open>n\<close> of its calls admitted.
\<close>

theorem rate_holds_in_every_minute:
  assumes "budget_init environment capacity = Inr l0" "budget_run l0 calls = (l, events)"
    and "list_all (rate_limited n identity) calls" "sorted (readings_of calls)" "0 \<le> n"
  shows "int (length (in_minute t (admissions identity events))) \<le> n"
proof -
  let ?clock = "case readings_of calls of [] \<Rightarrow> 0 | t # ts \<Rightarrow> t"
  have "bl_rates l0 = []" using assms(1) by (auto simp: budget_init_def split: if_split_asm)
  then have "rates_ok n identity l0 [] ?clock"
    using assms(5) by (simp add: rates_ok_def admissions_def rate_of_def in_minute_def)
  moreover have "sorted (?clock # readings_of calls)" using assms(4) by (cases "readings_of calls") auto
  ultimately obtain clock where "rates_ok n identity l ([] @ events) clock"
    using budget_run_rates[OF _ assms(2,3)] by blast
  then show ?thesis by (simp add: rates_ok_def)
qed

theorem rate_holds_in_every_minute_witness:
  "admissions [''ws''] g_events = [10, 20] \<and> int (length (in_minute 45 (admissions [''ws''] g_events))) \<le> 2"
proof
  show "admissions [''ws''] g_events = [10, 20]" by (simp add: admissions_def g_events_def touches_def)
  have lim: "list_all (rate_limited 2 [''ws'']) g_calls" by code_simp
  have "readings_of g_calls = [10, 20, 30]" by (simp add: readings_of_def g_calls_def)
  then have sorted: "sorted (readings_of g_calls)" by simp
  show "int (length (in_minute 45 (admissions [''ws''] g_events))) \<le> 2"
    by (rule rate_holds_in_every_minute[OF g_init g_run lim sorted]) simp
qed

section \<open>Keys\<close>

text \<open>
  A key is charged once: after a fresh reservation no call ever admits its key again, and a further reservation of
  the key changes nothing: another fingerprint conflicts, an unfinished call is in progress, and a finished one is
  answered with its ticket.
\<close>

theorem key_is_charged_once:
  assumes "reserve l r fingerprint cost access budget now wall = (l1, Inr (t, True))" "budget_run l1 calls = (l2, events)"
  shows "list_all (\<lambda>e. case e of Admitted k refs c s \<Rightarrow> k \<noteq> ticket_key r | Settled k reserved actual \<Rightarrow> True) events \<and>
    (\<exists>t'. map_of (bl_tickets l2) (ticket_key r) = Some t' \<and>
      reserve l2 r fingerprint' cost' access' budget' now' wall' =
        (l2, if fingerprint' \<noteq> fingerprint then Inl IdempotencyConflict else if tk_record t' = None then Inl InProgress else Inr (t', False)))"
proof -
  have l1: "map_of (bl_tickets l1) (ticket_key r) = Some t" "tk_fingerprint t = fingerprint"
    by (rule reserve_fresh[OF assms(1)], simp add: store_ticket_def update_conv)+
  from ticket_kept_run[OF l1(1) assms(2)] obtain t' where t': "map_of (bl_tickets l2) (ticket_key r) = Some t'" "tk_fingerprint t' = fingerprint"
    and none: "list_all (\<lambda>e. case e of Admitted k refs c s \<Rightarrow> k \<noteq> ticket_key r | Settled k reserved actual \<Rightarrow> True) events"
    using l1(2) by blast
  then show ?thesis using reserve_again[OF t'(1)] by auto
qed

definition g_reserved :: "budget_ledger \<times> (failure_code + budget_ticket \<times> bool)" where
  "g_reserved = reserve g_start (g_request ''k1'') ''f1'' 2500000 g_access g_budget 10 0"

lemma g_reserved: "\<exists>t. g_reserved = (fst g_reserved, Inr (t, True))"
proof -
  have "case snd g_reserved of Inl e \<Rightarrow> False | Inr (t, fresh) \<Rightarrow> fresh" by code_simp
  then obtain t where "snd g_reserved = Inr (t, True)" by (auto split: sum.splits)
  then show ?thesis by (metis prod.collapse)
qed

section \<open>Calls\<close>

text \<open>A call that succeeds has known usage within the bounds it reserved for.\<close>

lemma judge_success:
  assumes "judge_call vo s outcome clock = (reply, actual, Inr answer)"
  obtains r u where "reply = Some r" "rp_usage r = Some u" "actual = Some (cost_units (pre_route (st_prepared s)) (us_input_tokens u) (us_output_tokens u))"
    "us_input_tokens u \<le> pre_input_bound (st_prepared s)" "us_output_tokens u \<le> pq_max_output_tokens (pre_provider_request (st_prepared s))"
    "rp_model_identifier r = ro_model_identifier (pre_route (st_prepared s))" "vo (st_prepared s) (rp_output_json r) = Inr answer"
    "\<exists>expired. outcome = Replied r expired"
  using assms by (auto simp: judge_call_def Let_def not_less split: if_split_asm provider_outcome.splits option.splits)

lemma units_usd_nonneg: "0 \<le> v \<Longrightarrow> \<not> is_negative (units_usd v)"
  using ctx_div_nonneg[of "dec_int v" "dec_int (10 ^ 12)"]
  by (cases "ctx_div (dec_int v) (dec_int (10 ^ 12))") (simp add: units_usd_def is_negative_def dec_int_def dec_less_zero)

lemma cost_units_nonneg:
  assumes "route_error r = None" "0 \<le> i" "0 \<le> n"
  shows "0 \<le> cost_units r i n"
proof -
  have "0 \<le> usd_units (ro_input_usd_per_million r) * i" "0 \<le> usd_units (ro_output_usd_per_million r) * n"
    using route_prices[OF assms(1)] assms(2,3) by simp_all
  then show ?thesis by (simp add: cost_units_def pos_imp_zdiv_nonneg_iff)
qed

lemma begin_started:
  assumes "begin_call digest vo g l p now wall start = (l1, Inr (Started s))"
  obtains budget t where "map_of (gw_workspaces g) (cs_workspace_id (mr_scope (pre_request p))) = Some budget" "st_prepared s = p"
    "st_reserved s = cost_units (pre_route p) (pre_input_bound p) (pq_max_output_tokens (pre_provider_request p))"
    "reserve l (pre_request p) (pre_request_hash p) (st_reserved s) (pre_access p) budget now wall = (l1, Inr (t, True))"
  using assms by (auto simp: begin_call_def Let_def bindE_def split: option.splits prod.splits sum.splits bool.splits)

lemma finish_Inr:
  assumes "finish l key actual c out = (l', Inr u)"
  obtains t where "map_of (bl_tickets l) key = Some t" "tk_record t = None"
    "map_of (bl_tickets l') key = Some (t\<lparr>tk_record := Some c, tk_artifact := (case out of None \<Rightarrow> tk_artifact t
        | Some text \<Rightarrow> Some \<lparr>re_request_hash = tk_fingerprint t, re_output_json = text, re_record = c\<rparr>)\<rparr>)"
    "\<forall>text. out = Some text \<longrightarrow> 2 \<le> length text \<and> length text \<le> 1048576"
  using assms by (auto simp: finish_def Let_def update_conv not_less split: option.splits if_split_asm)

lemma end_success:
  assumes "end_call digest vo l s outcome clock later = (l', Inr response)"
  obtains reply actual answer where "judge_call vo s outcome clock = (reply, actual, Inr answer)"
    "mo_output response = answer" "mo_record response = call_record digest s reply actual (Inr answer) later" "\<not> mo_replayed response"
    "finish l (ticket_key (pre_request (st_prepared s))) actual (mo_record response) (Some answer) = (l', Inr ())"
proof -
  obtain reply actual result where j: "judge_call vo s outcome clock = (reply, actual, result)" by (metis prod_cases3)
  let ?c = "call_record digest s reply actual result later"
  obtain l1 r1 where f: "finish l (ticket_key (pre_request (st_prepared s))) actual ?c (case result of Inl e \<Rightarrow> None | Inr answer \<Rightarrow> Some answer) = (l1, r1)"
    by fastforce
  obtain answer where "result = Inr answer" "r1 = Inr ()" "l1 = l'" "response = \<lparr>mo_output = answer, mo_record = ?c, mo_replayed = False\<rparr>"
    using assms by (auto simp: end_call_def j f Let_def split: sum.splits if_split_asm)
  then show ?thesis using that[OF j[unfolded \<open>result = Inr answer\<close>]] f by simp
qed


definition g_begun :: "budget_ledger \<times> (failure_code + begun_call)" where
  "g_begun = begin_call g_digest g_output g_gateway g_start g_prepared 10 0 10"

definition g_started :: started_call where
  "g_started = (case snd g_begun of Inr (Started s) \<Rightarrow> s | _ \<Rightarrow> \<lparr>st_prepared = g_prepared, st_reserved = 0, st_start = 0, st_seconds = 0\<rparr>)"

definition g_reply :: provider_reply where
  "g_reply = \<lparr>rp_model_identifier = ''m1'', rp_status = StatusCompleted, rp_output_json = ''{}'',
     rp_usage = Some \<lparr>us_input_tokens = 100, us_output_tokens = 100\<rparr>\<rparr>"

definition g_ended :: "budget_ledger \<times> (call_error + model_response)" where
  "g_ended = end_call g_digest g_output (fst g_begun) g_started (Replied g_reply False) 11 11"

lemma g_route_valid: "route_error (pre_route g_prepared) = None"
proof -
  have "gateway_name_ok ''local''" "gateway_name_ok ''v1''" "usd_error (Dec 1 0) = None" "usd_error (Dec 2 0) = None" by code_simp+
  then show ?thesis by (simp add: route_error_def g_prepared_def g_route_def)
qed

lemma g_output_fixed: "g_output g_prepared text = Inr answer \<Longrightarrow> g_output g_prepared answer = Inr answer"
  by (auto simp: g_output_def validate_output_def validate_json_def g_boundary_def g_type_def g_prepared_def g_route_def bindE_def split: if_split_asm)

lemma g_begun: "g_begun = (fst g_begun, Inr (Started g_started))"
proof -
  have "case snd g_begun of Inr (Started s) \<Rightarrow> True | _ \<Rightarrow> False" by code_simp
  then have "snd g_begun = Inr (Started g_started)" by (auto simp: g_started_def split: sum.splits begun_call.splits)
  then show ?thesis by (metis prod.collapse)
qed

lemma g_ended: "g_ended = (fst g_ended, Inr (projr (snd g_ended)))"
proof -
  have "judge_call g_output g_started (Replied g_reply False) 11 = (Some g_reply, Some 300000000, Inr ''{}'')" by code_simp
  moreover have "\<exists>t. map_of (bl_tickets (fst g_begun)) (ticket_key (pre_request (st_prepared g_started))) = Some t \<and> tk_record t = None"
    by (rule begin_started[OF g_begun[unfolded g_begun_def]]) (auto elim!: reserve_fresh simp: store_ticket_def update_conv g_begun_def)
  ultimately have "snd g_ended = Inr (projr (snd g_ended))"
    by (auto simp: g_ended_def end_call_def finish_def Let_def)
  then show ?thesis by (metis prod.collapse)
qed


section \<open>What reaches a provider\<close>

lemma validate_json_Inr:
  assumes "validate_json bd text ty limit code = Inr out"
  obtains ps where "bd_loads bd text = Some (JObject ps)" "unique_keys (JObject ps)"
    "screen (bd_secret_key bd) (bd_secret_text bd) (JObject ps) 0" "ty_validate ty (JObject ps) = Some out"
    "int (length text) \<le> limit"
  using assms by (auto simp: validate_json_def not_less simp del: unique_keys.simps screen.simps
      split: option.splits if_split_asm json.splits)

lemma prepare_call_InrE:
  assumes "prepare_call digest g r ty = Inr p"
  obtains access prompt route input where "model_request_error r = None"
      "map_of (gw_agents g) (cs_workspace_id (mr_scope r), cs_agent_id (mr_scope r), cs_agent_version_id (mr_scope r)) = Some access"
      "map_of (gw_workspaces g) (cs_workspace_id (mr_scope r)) \<noteq> None"
      "map_of (gw_prompts g) (mr_prompt_key r) = Some prompt" "map_of (gw_routes g) (mr_profile r) = Some route"
      "mr_profile r \<in> set (aa_profiles access)" "mr_prompt_key r \<in> set (aa_prompt_keys access)"
      "ty_name (pd_output_type prompt) = ty_name ty" "mr_pinned_model_identifier r \<in> {None, Some (ro_model_identifier route)}"
      "validate_json (gw_boundary g) (mr_input_json r) (pd_input_type prompt) 131072 InvalidInput = Inr input"
      "pre_route p = route" "pq_input_json (pre_provider_request p) = input"
      "pq_system_text (pre_provider_request p) = pd_system_text prompt @ DATA_BOUNDARY"
      "pq_max_output_tokens (pre_provider_request p) = min (ro_max_output_tokens route) (aa_max_output_tokens access)"
      "1 \<le> pre_input_bound p" "pre_input_bound p \<le> ro_max_input_tokens route"
  using assms unfolding prepare_call_def Let_def bindE_Inr_iff of_option_Inr_iff
  by (elim exE conjE) (auto simp: bindE_Inr_iff not_less split: if_split_asm)

text \<open>
  C39. Only authorised calls reach a provider: a prepared call belongs to a registered agent of a registered workspace that
  may use the profile and the prompt, on the pinned model if one is pinned, never in live mode; its input is an object
  without repeated keys that passed the credential screen and the schema of the prompt, its system text ends in the
  data boundary, and its token bounds are those of the route and of the agent.
\<close>

theorem prepared_call_is_authorised:
  assumes "prepare_call digest g r ty = Inr p"
  shows "\<exists>access prompt ps.
    map_of (gw_agents g) (cs_workspace_id (mr_scope r), cs_agent_id (mr_scope r), cs_agent_version_id (mr_scope r)) = Some access \<and>
    mr_profile r \<in> set (aa_profiles access) \<and> mr_prompt_key r \<in> set (aa_prompt_keys access) \<and>
    map_of (gw_workspaces g) (cs_workspace_id (mr_scope r)) \<noteq> None \<and> cs_mode (mr_scope r) \<noteq> Live \<and>
    map_of (gw_routes g) (mr_profile r) = Some (pre_route p) \<and>
    mr_pinned_model_identifier r \<in> {None, Some (ro_model_identifier (pre_route p))} \<and>
    map_of (gw_prompts g) (mr_prompt_key r) = Some prompt \<and> ty_name (pd_output_type prompt) = ty_name ty \<and>
    bd_loads (gw_boundary g) (mr_input_json r) = Some (JObject ps) \<and> unique_keys (JObject ps) \<and>
    screen (bd_secret_key (gw_boundary g)) (bd_secret_text (gw_boundary g)) (JObject ps) 0 \<and>
    ty_validate (pd_input_type prompt) (JObject ps) = Some (pq_input_json (pre_provider_request p)) \<and>
    pq_system_text (pre_provider_request p) = pd_system_text prompt @ DATA_BOUNDARY \<and>
    pq_max_output_tokens (pre_provider_request p) \<le> aa_max_output_tokens access \<and>
    1 \<le> pre_input_bound p \<and> pre_input_bound p \<le> ro_max_input_tokens (pre_route p)"
proof -
  obtain access prompt route input where e: "model_request_error r = None"
      "map_of (gw_agents g) (cs_workspace_id (mr_scope r), cs_agent_id (mr_scope r), cs_agent_version_id (mr_scope r)) = Some access"
      "map_of (gw_workspaces g) (cs_workspace_id (mr_scope r)) \<noteq> None"
      "map_of (gw_prompts g) (mr_prompt_key r) = Some prompt" "map_of (gw_routes g) (mr_profile r) = Some route"
      "mr_profile r \<in> set (aa_profiles access)" "mr_prompt_key r \<in> set (aa_prompt_keys access)"
      "ty_name (pd_output_type prompt) = ty_name ty" "mr_pinned_model_identifier r \<in> {None, Some (ro_model_identifier route)}"
      "validate_json (gw_boundary g) (mr_input_json r) (pd_input_type prompt) 131072 InvalidInput = Inr input"
      "pre_route p = route" "pq_input_json (pre_provider_request p) = input"
      "pq_system_text (pre_provider_request p) = pd_system_text prompt @ DATA_BOUNDARY"
      "pq_max_output_tokens (pre_provider_request p) = min (ro_max_output_tokens route) (aa_max_output_tokens access)"
      "1 \<le> pre_input_bound p" "pre_input_bound p \<le> ro_max_input_tokens route"
    by (rule prepare_call_InrE[OF assms])
  moreover obtain ps where "bd_loads (gw_boundary g) (mr_input_json r) = Some (JObject ps)" "unique_keys (JObject ps)"
      "screen (bd_secret_key (gw_boundary g)) (bd_secret_text (gw_boundary g)) (JObject ps) 0"
      "ty_validate (pd_input_type prompt) (JObject ps) = Some input"
    by (rule validate_json_Inr[OF e(10)])
  moreover have "cs_mode (mr_scope r) \<noteq> Live" using e(1) by (auto simp: model_request_error_def split: if_split_asm)
  ultimately show ?thesis
    by (intro exI[of _ access] exI[of _ prompt] exI[of _ ps]) (simp del: unique_keys.simps screen.simps)
qed

theorem prepared_call_is_authorised_witness:
  "mr_profile (g_request ''k1'') \<in> set (aa_profiles g_access) \<and> (\<exists>ps. unique_keys (JObject ps))"
  using prepared_call_is_authorised[OF g_prepare] by (auto simp: g_access_def g_request_def)

text \<open>
  A successful call stays within its reservation: the model that answered is that of the route, the reported usage
  is within the reserved token bounds, and the recorded cost is that of the usage and at most what was reserved.
\<close>

theorem successful_call_costs_at_most_reserved:
  assumes "begin_call digest vo g l p now wall start = (l1, Inr (Started s))"
    and "end_call digest vo l2 s outcome clock later = (l3, Inr response)" "route_error (pre_route p) = None"
  shows "\<exists>actual. mc_cost (mo_record response) = \<lparr>m_amount = units_usd actual, m_currency = ''USD''\<rparr> \<and>
    actual = cost_units (pre_route p) (mc_input_tokens (mo_record response)) (mc_output_tokens (mo_record response)) \<and>
    actual \<le> st_reserved s \<and> mc_input_tokens (mo_record response) \<le> pre_input_bound p \<and>
    mc_output_tokens (mo_record response) \<le> pq_max_output_tokens (pre_provider_request p) \<and>
    mc_resolved_model_identifier (mo_record response) = ro_model_identifier (pre_route p) \<and>
    mc_usage_known (mo_record response) \<and> mc_outcome (mo_record response) = None"
proof -
  have b: "st_prepared s = p" "st_reserved s = cost_units (pre_route p) (pre_input_bound p) (pq_max_output_tokens (pre_provider_request p))"
    by (rule begin_started[OF assms(1)]; simp)+
  obtain reply actual answer where e: "judge_call vo s outcome clock = (reply, actual, Inr answer)"
      "mo_record response = call_record digest s reply actual (Inr answer) later"
    by (rule end_success[OF assms(2)])
  obtain r u where u: "reply = Some r" "rp_usage r = Some u" "actual = Some (cost_units (pre_route p) (us_input_tokens u) (us_output_tokens u))"
      "us_input_tokens u \<le> pre_input_bound p" "us_output_tokens u \<le> pq_max_output_tokens (pre_provider_request p)"
      "rp_model_identifier r = ro_model_identifier (pre_route p)"
    by (rule judge_success[OF e(1)]) (auto simp: b(1))
  have "cost_units (pre_route p) (us_input_tokens u) (us_output_tokens u) \<le> st_reserved s"
    unfolding b(2) by (rule cost_units_mono[OF assms(3) u(4,5)])
  then show ?thesis using u by (simp add: e(2) call_record_def Let_def b(1))
qed

end
