(* ===== verification/RuntimeContracts.thy ===== *)
theory RuntimeContracts
  imports DomainAgent ModelContracts
begin

text \<open>
  \<open>kavrigo_runtime/contracts.py\<close>: the policy of the agent runtime, what its scanner, its analyzer and its portfolio
  layer exchange, and the result of an evaluation. The fields of an \<open>AgentVersion\<close> that only the runtime reads are
  in \<open>model_policy\<close>.
\<close>

record scanner_policy =
  sy_absolute_thresholds :: "(string \<times> decimal) list"
  sy_candidate_ttl_ms :: int
  sy_max_candidates :: int

definition scanner_policy_error :: "scanner_policy \<Rightarrow> domain_error option" where
  "scanner_policy_error p = first_error
     [(list_ex (\<lambda>(name, threshold). \<not> gateway_name_ok name) (sy_absolute_thresholds p), BadPattern),
      (list_ex (\<lambda>(name, threshold). threshold \<le> dec_zero) (sy_absolute_thresholds p), OutOfRange),
      (sy_candidate_ttl_ms p < 1 \<or> 3600000 < sy_candidate_ttl_ms p, OutOfRange),
      (sy_max_candidates p < 1 \<or> 32 < sy_max_candidates p, OutOfRange),
      (sy_absolute_thresholds p = [] \<or> 32 < length (sy_absolute_thresholds p), OutOfRange)]"

record candidate =
  ca_instrument_id :: instrument_id
  ca_interest_score :: decimal
  ca_reasons :: "string list"
  ca_expires_at :: datetime

definition candidate_error :: "candidate \<Rightarrow> domain_error option" where
  "candidate_error c = first_error
     [(\<not> (dec_zero \<le> ca_interest_score c \<and> ca_interest_score c \<le> dec_int 1), OutOfRange),
      (list_ex (\<lambda>r. \<not> gateway_name_ok r) (ca_reasons c), BadPattern)]"

datatype network_health = HealthNormal | HealthDegraded | HealthUnknown

record network_context =
  nc_context_id :: string
  nc_instruments :: "instrument_id list"
  nc_known_at :: datetime
  nc_valid_until :: datetime
  nc_health :: network_health
  nc_evidence_refs :: "string list"
  nc_content_hash :: string

definition network_context_error :: "network_context \<Rightarrow> domain_error option" where
  "network_context_error c = first_error
     [(\<not> gateway_name_ok (nc_context_id c), BadPattern),
      (nc_instruments c = [] \<or> 256 < length (nc_instruments c), OutOfRange),
      (64 < length (nc_evidence_refs c), OutOfRange),
      (nc_valid_until c \<le> nc_known_at c, EmptyWindow)]"

record runtime_policy =
  ry_scanner :: scanner_policy
  ry_max_snapshot_age_ms :: int
  ry_max_portfolio_age_ms :: int
  ry_max_calls_per_cycle :: int
  ry_allocation_groups :: "(string \<times> string) list"
  ry_max_new_allocation_pct :: decimal
  ry_max_group_exposure_pct :: decimal
  ry_fee_buffer_bps :: decimal

definition runtime_policy_error :: "runtime_policy \<Rightarrow> domain_error option" where
  "runtime_policy_error p = first_error
     [(scanner_policy_error (ry_scanner p) \<noteq> None, OutOfRange),
      (ry_max_snapshot_age_ms p < 1 \<or> 3600000 < ry_max_snapshot_age_ms p, OutOfRange),
      (ry_max_portfolio_age_ms p < 1 \<or> 3600000 < ry_max_portfolio_age_ms p, OutOfRange),
      (ry_max_calls_per_cycle p < 1 \<or> 32 < ry_max_calls_per_cycle p, OutOfRange),
      (\<not> percent_ok (ry_max_new_allocation_pct p) \<or> \<not> percent_ok (ry_max_group_exposure_pct p), OutOfRange),
      (\<not> (dec_zero \<le> ry_fee_buffer_bps p \<and> ry_fee_buffer_bps p \<le> dec_int 10000), OutOfRange)]"

record model_policy =
  mp_profile :: model_profile
  mp_timeout_seconds :: int

record runtime_registration =
  rg_agent_version :: agent_version
  rg_model_policy :: model_policy
  rg_policy :: runtime_policy
  rg_pinned_model_identifier :: "string option"

record evaluation_request =
  eq_workspace_id :: string
  eq_agent_version_id :: string
  eq_idempotency_key :: string
  eq_horizon_minutes :: int
  eq_snapshot :: market_snapshot
  eq_portfolio :: portfolio_snapshot
  eq_evidence :: "evidence_item list"

text \<open>\<open>AnalysisInput\<close>: the facts that are sent to the model and checked against its answer.\<close>

record analysis_input =
  ai_instrument :: instrument_id
  ai_as_of :: datetime
  ai_horizon_minutes :: int
  ai_features :: feature_vector
  ai_evidence :: "evidence_item list"
  ai_network :: "network_context list"
  ai_available_cash :: money
  ai_current_position_value :: money
  ai_min_evidence_items :: int
  ai_require_contradicting_evidence :: bool

record portfolio_decision =
  po_portfolio_hash :: string
  po_allocations :: "allocation list"
  po_reason_codes :: "string list"

text \<open>\<open>DecisionProposal\<close>: what the model may fill in; rationale, regime, signals and risk flags are text for the user.\<close>

record decision_proposal =
  dp_state :: decision_state
  dp_prediction :: prediction
  dp_proposed_action :: proposed_action
  dp_proposed_notional :: "money option"
  dp_evidence_refs :: "string list"
  dp_contradicting_evidence_refs :: "string list"
  dp_reason_codes :: "string list"
  dp_estimated_cost_bps :: "decimal option"

datatype evaluation_status = Completed | Refused | InProgressStatus

record evaluation_result =
  es_status :: evaluation_status
  es_request_hash :: string
  es_runtime_policy_hash :: string
  es_reason_codes :: "string list"
  es_candidates :: "candidate list"
  es_decisions :: "agent_decision list"
  es_portfolio_decision :: "portfolio_decision option"
  es_network_contexts :: "network_context list"
  es_model_calls :: "model_call_record list"

end
