(* ===== verification/NumericOrder.thy ===== *)
theory NumericOrder
  imports DomainNumeric
begin

text \<open>
  The order theory of the 28-digit context: rounding never crosses a representable value, so every operation keeps
  representable bounds on its exact result, and is exact when that result is representable.
\<close>

section \<open>Digits\<close>

lemma ndigits_lower: "1 \<le> n \<Longrightarrow> 10 ^ nat (ndigits n - 1) \<le> n"
proof (induction n rule: ndigits.induct)
  case (1 n)
  show ?case
  proof (cases "n < 10")
    case False
    then have "10 ^ nat (ndigits (n div 10) - 1) \<le> n div 10" using 1 by simp
    then have "10 * 10 ^ nat (ndigits (n div 10) - 1) \<le> n" by simp
    moreover have "nat (ndigits n - 1) = Suc (nat (ndigits (n div 10) - 1))"
      using False ndigits_ge[of "n div 10"] by (simp add: ndigits.simps[of n] flip: Suc_nat_eq_nat_zadd1)
    ultimately show ?thesis by simp
  qed (use 1 in \<open>simp add: ndigits.simps[of n]\<close>)
qed

lemma ndigits_upper: "n < 10 ^ nat (ndigits n)"
proof (induction n rule: ndigits.induct)
  case (1 n)
  show ?case
  proof (cases "n < 10")
    case False
    then have "n div 10 < 10 ^ nat (ndigits (n div 10))" using 1 by simp
    then have "n < 10 * 10 ^ nat (ndigits (n div 10))" by linarith
    moreover have "nat (ndigits n) = Suc (nat (ndigits (n div 10)))"
      using False ndigits_ge[of "n div 10"] by (simp add: ndigits.simps[of n] nat_add_distrib)
    ultimately show ?thesis by simp
  qed (simp add: ndigits.simps[of n])
qed

lemma ten_powi_add: "(10::rat) powi (m + n) = 10 powi m * 10 powi n"
  by (rule power_int_add) simp

lemma ten_powi_nat: "0 \<le> n \<Longrightarrow> (10::rat) powi n = 10 ^ nat n"
  by (simp add: power_int_def)

section \<open>Representable values\<close>

definition representable :: "rat \<Rightarrow> bool" where
  "representable r \<longleftrightarrow> (\<exists>c e. r = of_int c * 10 powi e \<and> \<bar>c\<bar> < 10 ^ nat PRECISION)"

lemma representable_0 [simp]: "representable 0"
  by (auto simp: representable_def intro!: exI[of _ 0])

lemma representable_minus: "representable r \<Longrightarrow> representable (- r)"
  unfolding representable_def by (metis abs_minus_cancel minus_mult_left of_int_minus)

lemma representableI: "\<bar>c\<bar> < 10 ^ nat PRECISION \<Longrightarrow> representable (of_int c * 10 powi e)"
  by (auto simp: representable_def)

text \<open>Against any exponent a representable value is either a multiple of it or small.\<close>

lemma representable_cases:
  assumes "representable r"
  obtains (multiple) m where "r = of_int m * 10 powi g" | (small) "\<bar>r\<bar> < 10 ^ nat (PRECISION - 1) * 10 powi g"
proof -
  obtain c f where r: "r = of_int c * 10 powi f" "\<bar>c\<bar> < 10 ^ nat PRECISION"
    using assms by (auto simp: representable_def)
  show ?thesis
  proof (cases "g \<le> f")
    case True
    then have "(10::rat) powi f = 10 ^ nat (f - g) * 10 powi g"
      using ten_powi_add[of "f - g" g] by (simp add: ten_powi_nat)
    then have "r = of_int (c * 10 ^ nat (f - g)) * 10 powi g" by (simp add: r(1))
    then show ?thesis by (rule multiple)
  next
    case False
    have "(10::rat) powi f \<le> 10 powi (g - 1)" using False by (simp add: power_int_increasing)
    moreover have "\<bar>of_int c :: rat\<bar> < 10 ^ nat PRECISION" using r(2) by (metis of_int_abs of_int_less_iff of_int_numeral of_int_power)
    ultimately have "\<bar>of_int c\<bar> * (10::rat) powi f < 10 ^ nat PRECISION * 10 powi (g - 1)"
      by (intro mult_less_le_imp_less) simp_all
    moreover have "(10::rat) powi g = 10 * 10 powi (g - 1)" using ten_powi_add[of 1 "g - 1"] by simp
    ultimately have "\<bar>r\<bar> < 10 ^ nat (PRECISION - 1) * 10 powi g" by (simp add: r(1) abs_mult PRECISION_def)
    then show ?thesis by (rule small)
  qed
qed

section \<open>Rounding\<close>

lemma half_even_le: "0 < d \<Longrightarrow> n \<le> m * d \<Longrightarrow> half_even n d \<le> m"
proof -
  assume d: "0 < d" and m: "n \<le> m * d"
  have q: "n div d \<le> m" using zdiv_mono1[OF m d] d by simp
  have "n div d < m" if "0 < n mod d"
  proof (rule ccontr)
    assume "\<not> n div d < m"
    then have "m * d \<le> n div d * d" using d by (simp add: mult_right_mono)
    then show False using that m div_mult_mod_eq[of n d] by linarith
  qed
  then show ?thesis using q d by (auto simp: half_even_def Let_def)
qed

lemma half_even_ge: "0 < d \<Longrightarrow> m * d \<le> n \<Longrightarrow> m \<le> half_even n d"
proof -
  assume d: "0 < d" and m: "m * d \<le> n"
  have "m \<le> n div d" using zdiv_mono1[OF m d] d by simp
  then show ?thesis by (auto simp: half_even_def Let_def)
qed

lemma ctx_round_val:
  assumes "0 < k" "k = ndigits \<bar>coeff d\<bar> - PRECISION"
  shows "dec_val (ctx_round d) = of_int (sgn (coeff d) * half_even \<bar>coeff d\<bar> (10 ^ nat k)) * 10 powi (expo d + k)"
proof -
  have "10 powi (1 + (expo d + k)) = (10::rat) * 10 powi (expo d + k)" by (simp add: ten_powi_add)
  then show ?thesis using assms by (auto simp: ctx_round_def Let_def dec_val_def PRECISION_def add.commute)
qed

lemma round_magnitude:
  assumes k: "0 < k" "k = ndigits n - PRECISION" and s: "representable s"
  defines "q \<equiv> half_even n (10 ^ nat k)"
  shows "of_int n * 10 powi e \<le> s \<Longrightarrow> of_int q * 10 powi (e + k) \<le> s"
    and "s \<le> of_int n * 10 powi e \<Longrightarrow> s \<le> of_int q * 10 powi (e + k)"
proof -
  have "29 \<le> ndigits n" using k by (simp add: PRECISION_def)
  then have n1: "1 \<le> n" by (cases "n < 10") (simp_all add: ndigits.simps[of n])
  have "nat (ndigits n - 1) = nat (PRECISION - 1) + nat k" using k by (simp add: PRECISION_def nat_add_distrib[symmetric])
  then have low: "10 ^ nat (PRECISION - 1) * 10 ^ nat k \<le> n" using ndigits_lower[OF n1] by (simp add: power_add)
  have K: "10 powi (e + k) = 10 powi e * (of_int (10 ^ nat k) :: rat)" using k(1) by (simp add: ten_powi_add ten_powi_nat)
  have lowr: "10 ^ nat (PRECISION - 1) * 10 powi (e + k) \<le> of_int n * (10::rat) powi e"
  proof -
    have "(of_int (10 ^ nat (PRECISION - 1) * 10 ^ nat k) :: rat) \<le> of_int n" using low by (simp only: of_int_le_iff)
    then show ?thesis by (simp add: K mult.assoc mult.commute[of "10 powi e"])
  qed
  have q: "10 ^ nat (PRECISION - 1) \<le> q" unfolding q_def by (rule half_even_ge) (use low in auto)
  then have qr: "10 ^ nat (PRECISION - 1) * 10 powi (e + k) \<le> of_int q * (10::rat) powi (e + k)"
    by (metis less_imp_le mult_right_mono of_int_le_iff of_int_numeral of_int_power ten_powi_pos(1))
  have scale: "of_int n * 10 powi e \<le> of_int m * (10::rat) powi (e + k) \<longleftrightarrow> n \<le> m * 10 ^ nat k"
    "of_int m * (10::rat) powi (e + k) \<le> of_int n * 10 powi e \<longleftrightarrow> m * 10 ^ nat k \<le> n" for m
  proof -
    have "of_int m * (10::rat) powi (e + k) = of_int (m * 10 ^ nat k) * 10 powi e" by (simp add: K)
    then show "of_int n * 10 powi e \<le> of_int m * (10::rat) powi (e + k) \<longleftrightarrow> n \<le> m * 10 ^ nat k"
      "of_int m * (10::rat) powi (e + k) \<le> of_int n * 10 powi e \<longleftrightarrow> m * 10 ^ nat k \<le> n"
      by (simp_all only: mult_le_cancel_right_pos[OF ten_powi_pos(1)] of_int_le_iff)
  qed
  show "of_int q * 10 powi (e + k) \<le> s" if up: "of_int n * 10 powi e \<le> s"
    using s
  proof (cases rule: representable_cases[of s "e + k"])
    case (multiple m)
    then have "q \<le> m" unfolding q_def using up scale(1)[of m] by (intro half_even_le) auto
    then show ?thesis by (simp add: multiple)
  next
    case small
    then show ?thesis using lowr up by linarith
  qed
  show "s \<le> of_int q * 10 powi (e + k)" if down: "s \<le> of_int n * 10 powi e"
    using s
  proof (cases rule: representable_cases[of s "e + k"])
    case (multiple m)
    then have "m \<le> q" unfolding q_def using down scale(2)[of m] by (intro half_even_ge) auto
    then show ?thesis by (simp add: multiple)
  next
    case small
    then show ?thesis using qr by linarith
  qed
qed

lemma ctx_round_neg: "ctx_round (dec_neg d) = dec_neg (ctx_round d)"
  by (simp add: ctx_round_def dec_neg_def Let_def)

lemma dec_val_neg [simp]: "dec_val (dec_neg d) = - dec_val d"
  by (simp add: dec_val_def dec_neg_def)

lemma ctx_round_bounds:
  assumes "representable r"
  shows "dec_val d \<le> r \<Longrightarrow> dec_val (ctx_round d) \<le> r" and "r \<le> dec_val d \<Longrightarrow> r \<le> dec_val (ctx_round d)"
proof -
  define k where "k = ndigits \<bar>coeff d\<bar> - PRECISION"
  have "(dec_val d \<le> r \<longrightarrow> dec_val (ctx_round d) \<le> r) \<and> (r \<le> dec_val d \<longrightarrow> r \<le> dec_val (ctx_round d))"
  proof (cases "0 < k")
    case True
    note v = ctx_round_val[OF True k_def]
    have vd: "dec_val d = of_int (coeff d) * 10 powi expo d" by (simp add: dec_val_def)
    note up = round_magnitude(1)[OF True k_def, where e = "expo d"]
    note down = round_magnitude(2)[OF True k_def, where e = "expo d"]
    show ?thesis
    proof (cases "0 \<le> coeff d")
      case True
      then have "coeff d \<noteq> 0 \<Longrightarrow> sgn (coeff d) = 1" by simp
      moreover have "coeff d \<noteq> 0" using \<open>0 < k\<close> by (auto simp: k_def PRECISION_def ndigits.simps)
      ultimately show ?thesis using up[OF assms] down[OF assms] True by (simp add: v vd)
    next
      case False
      then show ?thesis using up[OF representable_minus[OF assms]] down[OF representable_minus[OF assms]]
        by (auto simp: v vd)
    qed
  qed (simp add: ctx_round_def Let_def flip: k_def)
  then show "dec_val d \<le> r \<Longrightarrow> dec_val (ctx_round d) \<le> r" "r \<le> dec_val d \<Longrightarrow> r \<le> dec_val (ctx_round d)" by blast+
qed

lemma ctx_round_eq: "representable (dec_val d) \<Longrightarrow> dec_val (ctx_round d) = dec_val d"
  by (simp add: ctx_round_bounds antisym)

lemma representable_ctx_round [simp]: "representable (dec_val (ctx_round d))"
proof -
  define k where "k = ndigits \<bar>coeff d\<bar> - PRECISION"
  have "\<bar>coeff (ctx_round d)\<bar> < 10 ^ nat PRECISION"
  proof (cases "0 < k")
    case True
    let ?q = "half_even \<bar>coeff d\<bar> (10 ^ nat k)"
    have "ndigits \<bar>coeff d\<bar> = PRECISION + k" by (simp add: k_def)
    then have "\<bar>coeff d\<bar> < 10 ^ nat (PRECISION + k)" using ndigits_upper[of "\<bar>coeff d\<bar>"] by simp
    moreover have "nat (PRECISION + k) = nat PRECISION + nat k" using True by (simp add: PRECISION_def nat_add_distrib)
    ultimately have "\<bar>coeff d\<bar> \<le> 10 ^ nat PRECISION * 10 ^ nat k" by (simp add: power_add)
    then have q: "?q \<le> 10 ^ nat PRECISION" by (intro half_even_le) auto
    have "0 \<le> ?q" by (rule half_even_nonneg) auto
    moreover have "ctx_round d = (if ?q = 10 ^ nat PRECISION then Dec (sgn (coeff d) * 10 ^ nat (PRECISION - 1)) (expo d + k + 1)
        else Dec (sgn (coeff d) * ?q) (expo d + k))"
      unfolding ctx_round_def Let_def k_def[symmetric] using True by simp
    ultimately show ?thesis using q by (auto simp: abs_mult abs_sgn_eq PRECISION_def)
  next
    case False
    then have "ndigits \<bar>coeff d\<bar> \<le> PRECISION" by (simp add: k_def)
    then have "(10::int) ^ nat (ndigits \<bar>coeff d\<bar>) \<le> 10 ^ nat PRECISION" by (intro power_increasing) auto
    then have "\<bar>coeff d\<bar> < 10 ^ nat PRECISION" using ndigits_upper[of "\<bar>coeff d\<bar>"] by linarith
    then show ?thesis using False by (simp add: ctx_round_def Let_def flip: k_def)
  qed
  then show ?thesis unfolding dec_val_def by (rule representableI)
qed

section \<open>Operations\<close>

lemma ctx_mul_bounds:
  assumes "representable r"
  shows "dec_val a * dec_val b \<le> r \<Longrightarrow> dec_val (ctx_mul a b) \<le> r" "r \<le> dec_val a * dec_val b \<Longrightarrow> r \<le> dec_val (ctx_mul a b)"
  using ctx_round_bounds[OF assms, of "Dec (coeff a * coeff b) (expo a + expo b)"]
  by (simp_all add: ctx_mul_def dec_val_def ten_powi_add mult_ac)

lemma ctx_add_bounds:
  assumes "representable r"
  shows "dec_val a + dec_val b \<le> r \<Longrightarrow> dec_val (ctx_add a b) \<le> r" "r \<le> dec_val a + dec_val b \<Longrightarrow> r \<le> dec_val (ctx_add a b)"
proof -
  let ?e = "min (expo a) (expo b)"
  have "dec_val (Dec (scaled ?e a + scaled ?e b) ?e) = dec_val a + dec_val b"
    using dec_val_scaled[of ?e a] dec_val_scaled[of ?e b] by (simp add: dec_val_def distrib_right)
  then show "dec_val a + dec_val b \<le> r \<Longrightarrow> dec_val (ctx_add a b) \<le> r" "r \<le> dec_val a + dec_val b \<Longrightarrow> r \<le> dec_val (ctx_add a b)"
    using ctx_round_bounds[OF assms, of "Dec (scaled ?e a + scaled ?e b) ?e"] by (simp_all add: ctx_add_def Let_def)
qed

lemma ctx_sub_bounds:
  assumes "representable r"
  shows "dec_val a - dec_val b \<le> r \<Longrightarrow> dec_val (ctx_sub a b) \<le> r" "r \<le> dec_val a - dec_val b \<Longrightarrow> r \<le> dec_val (ctx_sub a b)"
  using ctx_add_bounds[OF assms, of a "dec_neg b"] by (simp_all add: ctx_sub_def)

lemma ctx_add_exact: "representable (dec_val a + dec_val b) \<Longrightarrow> dec_val (ctx_add a b) = dec_val a + dec_val b"
  by (simp add: ctx_add_bounds antisym)

lemma ctx_sub_exact: "representable (dec_val a - dec_val b) \<Longrightarrow> dec_val (ctx_sub a b) = dec_val a - dec_val b"
  by (simp add: ctx_sub_bounds antisym)

lemma representable_ctx [simp]:
  "representable (dec_val (ctx_mul a b))" "representable (dec_val (ctx_add a b))" "representable (dec_val (ctx_sub a b))"
  by (simp_all add: ctx_mul_def ctx_add_def ctx_sub_def Let_def)

lemma drop_zeros_val: "drop_zeros n c e = (c', e') \<Longrightarrow> of_int c' * 10 powi e' = of_int c * (10::rat) powi e"
proof (induction n c e rule: drop_zeros.induct)
  case (2 n c e)
  show ?case
  proof (cases "c mod 10 = 0")
    case True
    then have "of_int c = (of_int (c div 10) * 10 :: rat)" by (metis dvd_div_mult_self mod_0_imp_dvd of_int_mult of_int_numeral)
    moreover have "(10::rat) powi (e + 1) = 10 * 10 powi e" by (simp add: ten_powi_add)
    ultimately show ?thesis using 2 True by simp
  qed (use 2 in simp)
qed simp

text \<open>
  A quotient is rounded from \<open>q' * 10 ^ g\<close>, where \<open>q\<close> is the integer quotient of the scaled magnitudes, has more digits than
  the precision, and is followed by one when the division leaves a remainder.
\<close>

lemma ctx_div_parts:
  assumes pos: "0 < coeff a" "0 < coeff b"
  obtains n d q' g where "0 < d" "10 ^ nat PRECISION \<le> n div d" "dec_val a * of_int d = of_int n * 10 powi g * dec_val b"
    "q' = n div d \<or> (q' = n div d + 1 \<and> n mod d \<noteq> 0)"
    "\<exists>D. ctx_div a b = ctx_round D \<and> dec_val D = of_int q' * 10 powi g"
proof -
  define ideal where "ideal = expo a - expo b"
  define shift where "shift = ndigits (coeff b) - ndigits (coeff a) + PRECISION + 1"
  define n where "n = (if 0 \<le> shift then coeff a * 10 ^ nat shift else coeff a)"
  define d where "d = (if 0 \<le> shift then coeff b else coeff b * 10 ^ nat (- shift))"
  define q where "q = n div d"
  define g where "g = ideal - shift"
  have d: "0 < d" using pos by (simp add: d_def)
  have val: "dec_val a * of_int d = of_int n * 10 powi g * dec_val b"
  proof (cases "0 \<le> shift")
    case True
    then have "(10::rat) powi expo a = 10 powi g * 10 ^ nat shift * 10 powi expo b"
      by (simp add: g_def ideal_def flip: ten_powi_nat ten_powi_add)
    then show ?thesis using True by (simp add: n_def d_def dec_val_def)
  next
    case False
    then have "(10::rat) powi expo a * 10 ^ nat (- shift) = 10 powi g * 10 powi expo b"
      by (simp add: g_def ideal_def flip: ten_powi_nat ten_powi_add)
    then show ?thesis using False by (simp add: n_def d_def dec_val_def)
  qed
  have a: "10 ^ nat (ndigits (coeff a) - 1) \<le> coeff a" using pos ndigits_lower[of "coeff a"] by simp
  have b: "coeff b \<le> 10 ^ nat (ndigits (coeff b))" using ndigits_upper[of "coeff b"] by simp
  note ge = ndigits_ge[of "coeff a"] ndigits_ge[of "coeff b"]
  have "10 ^ nat PRECISION * d \<le> n"
  proof (cases "0 \<le> shift")
    case True
    have "nat PRECISION + nat (ndigits (coeff b)) = nat (ndigits (coeff a) - 1) + nat shift"
      using True ge by (simp add: shift_def PRECISION_def nat_add_distrib[symmetric])
    then have "10 ^ nat PRECISION * 10 ^ nat (ndigits (coeff b)) = (10::int) ^ nat (ndigits (coeff a) - 1) * 10 ^ nat shift"
      by (simp only: power_add[symmetric])
    also have "\<dots> \<le> coeff a * 10 ^ nat shift" using a by (rule mult_right_mono) simp
    finally have "10 ^ nat PRECISION * 10 ^ nat (ndigits (coeff b)) \<le> coeff a * 10 ^ nat shift" .
    moreover have "10 ^ nat PRECISION * coeff b \<le> 10 ^ nat PRECISION * 10 ^ nat (ndigits (coeff b))"
      using b by (intro mult_left_mono) auto
    ultimately have "10 ^ nat PRECISION * coeff b \<le> coeff a * 10 ^ nat shift" by (rule order_trans[rotated])
    then show ?thesis using True by (simp add: n_def d_def)
  next
    case False
    have "nat PRECISION + (nat (ndigits (coeff b)) + nat (- shift)) = nat (ndigits (coeff a) - 1)"
      using False ge by (simp add: shift_def PRECISION_def nat_add_distrib[symmetric])
    then have e: "10 ^ nat PRECISION * (10 ^ nat (ndigits (coeff b)) * 10 ^ nat (- shift)) = (10::int) ^ nat (ndigits (coeff a) - 1)"
      by (simp only: power_add[symmetric])
    have "coeff b * 10 ^ nat (- shift) \<le> 10 ^ nat (ndigits (coeff b)) * 10 ^ nat (- shift)"
      using b by (intro mult_right_mono) auto
    then have "10 ^ nat PRECISION * (coeff b * 10 ^ nat (- shift)) \<le> 10 ^ nat (ndigits (coeff a) - 1)"
      unfolding e[symmetric] by (intro mult_left_mono) auto
    then show ?thesis using False a by (simp add: n_def d_def)
  qed
  then have "10 ^ nat PRECISION * d div d \<le> q" unfolding q_def using d by (intro zdiv_mono1) auto
  then have big: "10 ^ nat PRECISION \<le> n div d" using d by (simp add: q_def)
  define q' where "q' = (if n mod d \<noteq> 0 \<and> q mod 5 = 0 then q + 1 else q)"
  obtain c e where z: "drop_zeros (nat shift) q g = (c, e)" by fastforce
  have abs: "\<bar>coeff a\<bar> = coeff a" "\<bar>coeff b\<bar> = coeff b" "sgn (coeff a) * sgn (coeff b) = 1" "coeff a \<noteq> 0" using pos by simp_all
  have "ctx_div a b = (if n mod d \<noteq> 0 then ctx_round (Dec q' g) else ctx_round (Dec c e))"
    unfolding ctx_div_def Let_def abs(1-3) ideal_def[symmetric] shift_def[symmetric] n_def[symmetric] d_def[symmetric]
      q_def[symmetric] g_def[symmetric] z q'_def
    by (simp add: abs(4))
  moreover have "n mod d = 0 \<Longrightarrow> dec_val (Dec c e) = of_int q' * 10 powi g"
    using drop_zeros_val[OF z] by (simp add: dec_val_def q'_def)
  moreover have "dec_val (Dec q' g) = of_int q' * 10 powi g" by (simp add: dec_val_def)
  ultimately have "\<exists>D. ctx_div a b = ctx_round D \<and> dec_val D = of_int q' * 10 powi g" by metis
  moreover have "q' = n div d \<or> (q' = n div d + 1 \<and> n mod d \<noteq> 0)" by (auto simp: q'_def q_def)
  ultimately show ?thesis using that d big val by blast
qed

text \<open>Against a quotient \<open>q'\<close> of that shape a representable value is compared by the products.\<close>

lemma sticky_quotient:
  assumes d: "0 < d" and q': "q' = n div d \<or> (q' = n div d + 1 \<and> n mod d \<noteq> 0)"
    and big: "10 ^ nat (PRECISION - 1) \<le> n div d" and r: "representable r"
  shows "of_int n * 10 powi g \<le> r * of_int d \<Longrightarrow> of_int q' * 10 powi g \<le> r"
    and "r * of_int d \<le> of_int n * 10 powi g \<Longrightarrow> r \<le> of_int q' * 10 powi g"
proof -
  have n: "n = n div d * d + n mod d" "0 \<le> n mod d" using d by simp_all
  have scale: "of_int m * 10 powi g * of_int d \<le> of_int n * (10::rat) powi g \<longleftrightarrow> m * d \<le> n"
    "of_int n * (10::rat) powi g \<le> of_int m * 10 powi g * of_int d \<longleftrightarrow> n \<le> m * d" for m
  proof -
    have "of_int m * 10 powi g * of_int d = of_int (m * d) * (10::rat) powi g" by simp
    then show "of_int m * 10 powi g * of_int d \<le> of_int n * (10::rat) powi g \<longleftrightarrow> m * d \<le> n"
      "of_int n * (10::rat) powi g \<le> of_int m * 10 powi g * of_int d \<longleftrightarrow> n \<le> m * d"
      by (simp_all only: mult_le_cancel_right_pos[OF ten_powi_pos(1)] of_int_le_iff)
  qed
  have large: "10 ^ nat (PRECISION - 1) * 10 powi g \<le> of_int (n div d) * (10::rat) powi g"
    using big by (metis less_imp_le mult_right_mono of_int_le_iff of_int_numeral of_int_power ten_powi_pos(1))
  also have "\<dots> \<le> of_int q' * 10 powi g" using q' by (intro mult_right_mono) auto
  finally have large': "10 ^ nat (PRECISION - 1) * 10 powi g \<le> of_int q' * (10::rat) powi g" .
  show "of_int q' * 10 powi g \<le> r" if up: "of_int n * 10 powi g \<le> r * of_int d"
    using r
  proof (cases rule: representable_cases[of r g])
    case (multiple m)
    then have nm: "n \<le> m * d" using up scale(2)[of m] by simp
    then have "n div d \<le> m" using zdiv_mono1[OF nm d] d by simp
    moreover have "n div d \<noteq> m" if "n mod d \<noteq> 0" using n nm that by (metis add_le_same_cancel1 order_antisym)
    ultimately have "q' \<le> m" using q' by auto
    then show ?thesis by (simp add: multiple)
  next
    case small
    have "of_int (n div d) * 10 powi g * of_int d \<le> of_int n * (10::rat) powi g" using n by (simp only: scale)
    also note up
    finally have "of_int (n div d) * 10 powi g \<le> r" using d by simp
    then show ?thesis using small large by linarith
  qed
  show "r \<le> of_int q' * 10 powi g" if down: "r * of_int d \<le> of_int n * 10 powi g"
    using r
  proof (cases rule: representable_cases[of r g])
    case (multiple m)
    then have "m * d \<le> n" using down scale(1)[of m] by simp
    then have "m \<le> n div d" using zdiv_mono1[of "m * d" n d] d by simp
    then have "m \<le> q'" using q' by auto
    then show ?thesis by (simp add: multiple)
  next
    case small
    then show ?thesis using large' by linarith
  qed
qed

text \<open>A quotient that is bounded by a representable value stays so, the sticky digit included.\<close>

lemma ctx_div_bounds:
  assumes pos: "0 < coeff a" "0 < coeff b" and r: "representable r"
  shows "dec_val a \<le> r * dec_val b \<Longrightarrow> dec_val (ctx_div a b) \<le> r" and "r * dec_val b \<le> dec_val a \<Longrightarrow> r \<le> dec_val (ctx_div a b)"
proof -
  obtain n d q' g D where d: "0 < d" and big: "10 ^ nat PRECISION \<le> n div d"
    and val: "dec_val a * of_int d = of_int n * 10 powi g * dec_val b"
    and q': "q' = n div d \<or> (q' = n div d + 1 \<and> n mod d \<noteq> 0)"
    and D: "ctx_div a b = ctx_round D" "dec_val D = of_int q' * 10 powi g"
    using ctx_div_parts[OF pos] by metis
  have b: "0 < dec_val b" using pos by (simp add: dec_val_def)
  have big': "10 ^ nat (PRECISION - 1) \<le> n div d" using big by (simp add: PRECISION_def)
  note sticky = sticky_quotient[OF d q' big' r, of g]
  show "dec_val (ctx_div a b) \<le> r" if "dec_val a \<le> r * dec_val b"
  proof -
    have "dec_val a * of_int d \<le> r * dec_val b * of_int d" using that d by (intro mult_right_mono) auto
    then have "of_int n * 10 powi g * dec_val b \<le> r * of_int d * dec_val b" unfolding val by (simp only: mult_ac)
    then have "of_int n * 10 powi g \<le> r * of_int d" using b by simp
    then show ?thesis unfolding D(1) using ctx_round_bounds(1)[OF r] sticky(1) by (simp add: D(2))
  qed
  show "r \<le> dec_val (ctx_div a b)" if "r * dec_val b \<le> dec_val a"
  proof -
    have "r * dec_val b * of_int d \<le> dec_val a * of_int d" using that d by (intro mult_right_mono) auto
    then have "r * of_int d * dec_val b \<le> of_int n * 10 powi g * dec_val b" unfolding val by (simp only: mult_ac)
    then have "r * of_int d \<le> of_int n * 10 powi g" using b by simp
    then show ?thesis unfolding D(1) using ctx_round_bounds(2)[OF r] sticky(2) by (simp add: D(2))
  qed
qed

lemma ctx_div_le:
  assumes ab: "0 \<le> coeff a" "0 < coeff b" and r: "representable r" and le: "dec_val a \<le> r * dec_val b"
  shows "dec_val (ctx_div a b) \<le> r"
proof (cases "coeff a = 0")
  case True
  have "0 < dec_val b" "dec_val a = 0" using ab True by (simp_all add: dec_val_def)
  then have "0 \<le> r" using le by (simp add: zero_le_mult_iff)
  then show ?thesis using True by (simp add: ctx_div_def Let_def)
qed (use ctx_div_bounds(1)[OF _ ab(2) r le] ab in simp)

section \<open>Twelve decimal places\<close>

text \<open>Amounts are multiples of \<open>10 ^ -12\<close>; below \<open>10 ^ 16\<close> they are representable, and so are differences with them.\<close>

definition on_grid :: "rat \<Rightarrow> bool" where
  "on_grid r \<longleftrightarrow> (\<exists>m. r = of_int m * 10 powi -12)"

lemma on_grid_simps [simp]: "on_grid 0"
  by (auto simp: on_grid_def intro!: exI[of _ 0])

lemma on_grid_add: "on_grid a \<Longrightarrow> on_grid b \<Longrightarrow> on_grid (a + b)"
  unfolding on_grid_def by (metis distrib_right of_int_add)

lemma on_grid_diff: "on_grid a \<Longrightarrow> on_grid b \<Longrightarrow> on_grid (a - b)"
  unfolding on_grid_def by (metis left_diff_distrib of_int_diff)

lemma grid_representable:
  assumes "on_grid r" "\<bar>r\<bar> < 10 ^ 16"
  shows "representable r"
proof -
  obtain m where m: "r = of_int m * 10 powi -12" using assms(1) by (auto simp: on_grid_def)
  have "(10::rat) powi -12 = 1 / 10 ^ 12" by (simp add: power_int_def power_one_over)
  then have "\<bar>of_int m\<bar> < (10 ^ 28 :: rat)" using assms(2) by (simp add: m abs_mult field_simps)
  then have "\<bar>m\<bar> < 10 ^ 28" by (metis of_int_abs of_int_less_iff of_int_numeral of_int_power)
  then show ?thesis unfolding m by (intro representableI) (simp add: PRECISION_def)
qed

lemma representable_diff:
  assumes "representable r" "on_grid s" "0 \<le> s" "s \<le> r" "r < 10 ^ 16"
  shows "representable (r - s)"
proof -
  obtain c e where r: "r = of_int c * 10 powi e" "\<bar>c\<bar> < 10 ^ nat PRECISION" using assms(1) by (auto simp: representable_def)
  obtain m where m: "s = of_int m * 10 powi -12" using assms(2) by (auto simp: on_grid_def)
  show ?thesis
  proof (cases "-12 \<le> e")
    case True
    then have "(10::rat) powi e = 10 ^ nat (e + 12) * 10 powi -12"
      using ten_powi_add[of "e + 12" "-12"] by (simp add: ten_powi_nat)
    then have "r = of_int (c * 10 ^ nat (e + 12)) * 10 powi -12" by (simp add: r(1))
    then have "on_grid r" unfolding on_grid_def by blast
    then show ?thesis using assms by (intro grid_representable on_grid_diff) auto
  next
    case False
    then have "(10::rat) powi -12 = 10 ^ nat (- 12 - e) * 10 powi e"
      using ten_powi_add[of "- 12 - e" e] by (simp add: ten_powi_nat)
    then have "s = of_int (m * 10 ^ nat (- 12 - e)) * 10 powi e" by (simp add: m)
    then have d: "r - s = of_int (c - m * 10 ^ nat (- 12 - e)) * 10 powi e" by (simp add: r(1) left_diff_distrib)
    have "0 \<le> r - s" "r - s \<le> of_int c * 10 powi e" using assms r(1) by auto
    then have "of_int 0 * 10 powi e \<le> of_int (c - m * 10 ^ nat (- 12 - e)) * (10::rat) powi e"
        "of_int (c - m * 10 ^ nat (- 12 - e)) * (10::rat) powi e \<le> of_int c * 10 powi e"
      unfolding d by simp_all
    then have "0 \<le> c - m * 10 ^ nat (- 12 - e)" "c - m * 10 ^ nat (- 12 - e) \<le> c"
      by (simp_all only: mult_le_cancel_right_pos[OF ten_powi_pos(1)] of_int_le_iff)
    then show ?thesis using r(2) unfolding d by (intro representableI) auto
  qed
qed

end
