(* ===== verification/RuntimePortfolio.thy ===== *)
theory RuntimePortfolio
  imports RuntimeContracts NumericOrder
begin

text \<open>
  \<open>kavrigo_runtime/portfolio.py\<close>: the allocation of proposals, in the 28-digit context. \<open>None\<close> of \<open>quantize_down\<close> is
  \<open>InvalidOperation\<close>. \<open>hash\<close> is \<open>content_hash\<close> of the portfolio.
\<close>

section \<open>Values\<close>

definition market_value :: "position \<Rightarrow> domain_error + money option" where
  "market_value p =
     (case pos_mark_price p of None \<Rightarrow> Inr None
      | Some m \<Rightarrow> if q_asset (pos_quantity p) \<noteq> p_base m then Inl AssetMismatch
          else Inr (Some \<lparr>m_amount = ctx_mul (p_value m) (q_value (pos_quantity p)), m_currency = p_quote m\<rparr>))"

definition available_cash :: "portfolio_snapshot \<Rightarrow> decimal" where
  "available_cash p = ctx_sub (m_amount (pf_cash p)) (m_amount (pf_reserved_cash p))"

text \<open>Python's \<open>max(a, b)\<close> and \<open>min(a, b)\<close> keep the first of two equal values.\<close>

definition dec_max :: "decimal \<Rightarrow> decimal \<Rightarrow> decimal" where
  "dec_max a b = (if a < b then b else a)"

definition dec_min :: "decimal \<Rightarrow> decimal \<Rightarrow> decimal" where
  "dec_min a b = (if b < a then b else a)"

definition at_twelve_places :: "decimal \<Rightarrow> int" where
  "at_twelve_places d = (if -12 \<le> expo d then coeff d * 10 ^ nat (expo d + 12)
     else sgn (coeff d) * (\<bar>coeff d\<bar> div 10 ^ nat (- 12 - expo d)))"

definition quantize_down :: "decimal \<Rightarrow> domain_error + decimal" where
  "quantize_down d = (if PRECISION < ndigits \<bar>at_twelve_places d\<bar> then Inl UnsupportedPrecision else Inr (Dec (at_twelve_places d) (-12)))"

definition amount_at :: "string \<Rightarrow> (string \<times> decimal) list \<Rightarrow> decimal" where
  "amount_at k d = (case map_of d k of None \<Rightarrow> dec_zero | Some v \<Rightarrow> v)"

section \<open>The portfolio\<close>

record exposures =
  xo_reasons :: "string list"
  xo_positions :: "(string \<times> decimal) list"
  xo_groups :: "(string \<times> decimal) list"

definition portfolio_reasons :: "portfolio_snapshot \<Rightarrow> string list" where
  "portfolio_reasons p =
     (if pf_base_currency p \<noteq> ''USD'' then [''unsupported_valuation_currency''] else []) @
     (if \<not> pf_is_reconciled p \<or> pf_reconciled_at p = None then [''unknown_portfolio''] else []) @
     (if pf_open_order_count p \<noteq> 0 then [''pending_orders_require_reconciliation''] else []) @
     (if m_amount (pf_equity p) \<le> dec_zero then [''nonpositive_equity''] else [])"

definition read_position :: "runtime_policy \<Rightarrow> exposures \<Rightarrow> position \<Rightarrow> domain_error + exposures" where
  "read_position policy x p =
     (let key = i_value (pos_instrument_id p) in
      bindE (market_value p) (\<lambda>value.
      case (value, map_of (ry_allocation_groups policy) key) of
        (Some v, Some grp) \<Rightarrow>
          if m_currency v \<noteq> ''USD'' \<or> m_amount v < dec_zero \<or> q_value (pos_quantity p) < dec_zero
          then Inr (x\<lparr>xo_reasons := xo_reasons x @ [''unknown_position_exposure'']\<rparr>)
          else Inr (x\<lparr>xo_positions := AList.update key (m_amount v) (xo_positions x),
            xo_groups := AList.update grp (ctx_add (amount_at grp (xo_groups x)) (m_amount v)) (xo_groups x)\<rparr>)
      | _ \<Rightarrow> Inr (x\<lparr>xo_reasons := xo_reasons x @ [''unknown_position_exposure'']\<rparr>)))"

fun read_positions :: "runtime_policy \<Rightarrow> exposures \<Rightarrow> position list \<Rightarrow> domain_error + exposures" where
  "read_positions policy x [] = Inr x"
| "read_positions policy x (p # ps) = bindE (read_position policy x p) (\<lambda>x'. read_positions policy x' ps)"

section \<open>Ranking\<close>

text \<open>
  The key of a proposal. A unary minus rounds to the context; decimals compare by value, so the key holds their values.
\<close>

definition ctx_neg :: "decimal \<Rightarrow> decimal" where
  "ctx_neg d = ctx_round (dec_neg d)"

definition rank_key :: "agent_decision \<Rightarrow> rat \<times> rat \<times> string \<times> string" where
  "rank_key d =
     (let cost = (case ad_estimated_cost_bps d of None \<Rightarrow> dec_zero | Some c \<Rightarrow> if is_zero c then dec_zero else c) in
      (dec_val (ctx_neg (ctx_sub (dec_int (pr_expected_return_bps (ad_prediction d))) cost)),
       dec_val (ctx_neg (pr_confidence (ad_prediction d))), i_value (ad_instrument_id d), ad_decision_id d))"

definition ranked :: "agent_decision list \<Rightarrow> agent_decision list" where
  "ranked ds = sort_key rank_key ds"

section \<open>Allocation\<close>

record funds =
  fu_cash :: decimal
  fu_remaining :: decimal
  fu_groups :: "(string \<times> decimal) list"
  fu_positions :: "(string \<times> decimal) list"

record terms =
  tm_group_cap :: decimal
  tm_buffer_factor :: decimal

definition buy_amount :: "terms \<Rightarrow> funds \<Rightarrow> string \<Rightarrow> decimal \<Rightarrow> domain_error + decimal" where
  "buy_amount t s grp requested = quantize_down (dec_max dec_zero
     (dec_min (dec_min (dec_min requested (ctx_div (fu_cash s) (tm_buffer_factor t))) (fu_remaining s))
        (ctx_sub (tm_group_cap t) (amount_at grp (fu_groups s)))))"

definition spend :: "terms \<Rightarrow> funds \<Rightarrow> string \<Rightarrow> decimal \<Rightarrow> funds" where
  "spend t s grp amount = s\<lparr>fu_cash := ctx_sub (fu_cash s) (ctx_mul amount (tm_buffer_factor t)),
     fu_remaining := ctx_sub (fu_remaining s) amount,
     fu_groups := AList.update grp (ctx_add (amount_at grp (fu_groups s)) amount) (fu_groups s)\<rparr>"

definition sell_amount :: "funds \<Rightarrow> string \<Rightarrow> decimal \<Rightarrow> domain_error + decimal" where
  "sell_amount s key requested = quantize_down (dec_min requested (amount_at key (fu_positions s)))"

definition release_position :: "funds \<Rightarrow> string \<Rightarrow> decimal \<Rightarrow> funds" where
  "release_position s key amount =
     s\<lparr>fu_positions := AList.update key (ctx_sub (amount_at key (fu_positions s)) amount) (fu_positions s)\<rparr>"

definition size_code :: "decimal \<Rightarrow> decimal \<Rightarrow> string" where
  "size_code amount requested =
     (if dec_eq amount requested then ''allocated'' else if dec_zero < amount then ''allocation_reduced'' else ''allocation_unavailable'')"

definition refusal_codes :: "runtime_policy \<Rightarrow> string list \<Rightarrow> agent_decision \<Rightarrow> money \<Rightarrow> string list" where
  "refusal_codes policy reasons d requested =
     dedupe reasons @
     (if m_currency requested \<noteq> ''USD'' \<or> i_quote (ad_instrument_id d) \<noteq> ''USD'' then [''unsupported_valuation_currency''] else []) @
     (if map_of (ry_allocation_groups policy) (i_value (ad_instrument_id d)) = None then [''unknown_overlap_group''] else [])"

definition make_allocation :: "agent_decision \<Rightarrow> money \<Rightarrow> decimal \<Rightarrow> string list \<Rightarrow> domain_error + allocation" where
  "make_allocation d requested amount codes =
     (let a = \<lparr>al_decision_id = ad_decision_id d, al_instrument_id = ad_instrument_id d, al_requested_notional = requested,
           al_allocated_notional = \<lparr>m_amount = amount, m_currency = m_currency requested\<rparr>, al_reason_codes = codes\<rparr>
      in case allocation_error a of Some e \<Rightarrow> Inl e | None \<Rightarrow> Inr a)"

text \<open>The body of the loop; the assertion on the notional is an error.\<close>

definition allocate_one ::
    "runtime_policy \<Rightarrow> string list \<Rightarrow> terms \<Rightarrow> funds \<Rightarrow> agent_decision \<Rightarrow> domain_error + funds \<times> allocation" where
  "allocate_one policy reasons t s d =
     (case ad_proposed_notional d of None \<Rightarrow> Inl TradeWithoutNotional
      | Some requested \<Rightarrow>
          let codes = refusal_codes policy reasons d requested; key = i_value (ad_instrument_id d) in
          if codes \<noteq> [] then bindE (make_allocation d requested dec_zero codes) (\<lambda>a. Inr (s, a))
          else (case map_of (ry_allocation_groups policy) key of None \<Rightarrow> Inl ReferenceMismatch
            | Some grp \<Rightarrow>
                if ad_proposed_action d = ActBuy then
                  bindE (buy_amount t s grp (m_amount requested)) (\<lambda>amount.
                  bindE (make_allocation d requested amount [size_code amount (m_amount requested)]) (\<lambda>a.
                  Inr (spend t s grp amount, a)))
                else
                  bindE (sell_amount s key (m_amount requested)) (\<lambda>amount.
                  bindE (make_allocation d requested amount [size_code amount (m_amount requested)]) (\<lambda>a.
                  Inr (release_position s key amount, a)))))"

fun allocate_all ::
    "runtime_policy \<Rightarrow> string list \<Rightarrow> terms \<Rightarrow> funds \<Rightarrow> agent_decision list \<Rightarrow> domain_error + funds \<times> allocation list" where
  "allocate_all policy reasons t s [] = Inr (s, [])"
| "allocate_all policy reasons t s (d # ds) =
     bindE (allocate_one policy reasons t s d) (\<lambda>(s1, a).
     bindE (allocate_all policy reasons t s1 ds) (\<lambda>(s2, rest). Inr (s2, a # rest)))"

definition equity_share :: "portfolio_snapshot \<Rightarrow> decimal \<Rightarrow> decimal" where
  "equity_share p pct = dec_max dec_zero (ctx_div (ctx_mul (m_amount (pf_equity p)) pct) (dec_int 100))"

definition terms_of :: "portfolio_snapshot \<Rightarrow> runtime_policy \<Rightarrow> terms" where
  "terms_of p policy = \<lparr>tm_group_cap = equity_share p (ry_max_group_exposure_pct policy),
     tm_buffer_factor = ctx_add (dec_int 1) (ctx_div (ry_fee_buffer_bps policy) (dec_int 10000))\<rparr>"

definition opening_funds :: "portfolio_snapshot \<Rightarrow> runtime_policy \<Rightarrow> exposures \<Rightarrow> funds" where
  "opening_funds p policy x = \<lparr>fu_cash = dec_max dec_zero (available_cash p),
     fu_remaining = equity_share p (ry_max_new_allocation_pct policy), fu_groups = xo_groups x, fu_positions = xo_positions x\<rparr>"

definition proposals_of :: "agent_decision list \<Rightarrow> agent_decision list" where
  "proposals_of ds = filter (\<lambda>d. requires_order (ad_proposed_action d)) ds"

definition allocate ::
    "(portfolio_snapshot \<Rightarrow> string) \<Rightarrow> agent_decision list \<Rightarrow> portfolio_snapshot \<Rightarrow> runtime_policy \<Rightarrow> domain_error + portfolio_decision" where
  "allocate hash decisions p policy =
     bindE (read_positions policy \<lparr>xo_reasons = portfolio_reasons p, xo_positions = [], xo_groups = []\<rparr> (pf_positions p)) (\<lambda>x.
     bindE (allocate_all policy (xo_reasons x) (terms_of p policy) (opening_funds p policy x) (ranked (proposals_of decisions))) (\<lambda>(s, allocations).
     Inr \<lparr>po_portfolio_hash = hash p, po_allocations = allocations, po_reason_codes = dedupe (xo_reasons x)\<rparr>))"

end
