(* ===== verification/RuntimeScanner.thy ===== *)
theory RuntimeScanner
  imports RuntimePortfolio
begin

text \<open>\<open>kavrigo_runtime/scanner.py\<close>: candidates from the features of a snapshot, in the 28-digit context.\<close>

definition feature_hits :: "scanner_policy \<Rightarrow> feature_vector \<Rightarrow> string list" where
  "feature_hits policy f =
     sort (map fst (filter (\<lambda>(name, threshold). case map_of (fv_values f) name of None \<Rightarrow> False | Some v \<Rightarrow> threshold \<le> ctx_abs v)
       (sy_absolute_thresholds policy)))"

definition hit_score :: "scanner_policy \<Rightarrow> feature_vector \<Rightarrow> string \<Rightarrow> decimal" where
  "hit_score policy f name =
     (let size = ctx_abs (amount_at name (fv_values f))
      in ctx_div size (ctx_add size (amount_at name (sy_absolute_thresholds policy))))"

text \<open>\<open>max\<close> over the hits, zero when there are none.\<close>

definition interest_score :: "scanner_policy \<Rightarrow> feature_vector \<Rightarrow> string list \<Rightarrow> decimal" where
  "interest_score policy f hits = (case map (hit_score policy f) hits of [] \<Rightarrow> dec_zero | x # xs \<Rightarrow> foldl dec_max x xs)"

definition candidate_of ::
    "market_snapshot \<Rightarrow> agent_version \<Rightarrow> scanner_policy \<Rightarrow> feature_vector \<Rightarrow> domain_error + candidate option" where
  "candidate_of snapshot version policy f =
     (let hits = feature_hits policy f in
      if i_value (fv_instrument_id f) \<notin> set (map i_value (un_instruments (sp_universe (av_spec version)))) then Inr None
      else if an_market_scanner (sp_analysis (av_spec version)) \<and> hits = [] then Inr None
      else
        let c = \<lparr>ca_instrument_id = fv_instrument_id f, ca_interest_score = interest_score policy f hits,
              ca_reasons = (if hits = [] then [''scanner_disabled''] else hits),
              ca_expires_at = ms_as_of snapshot + ms (sy_candidate_ttl_ms policy)\<rparr>
        in case candidate_error c of Some e \<Rightarrow> Inl e | None \<Rightarrow> Inr (Some c))"

fun candidates_of ::
    "market_snapshot \<Rightarrow> agent_version \<Rightarrow> scanner_policy \<Rightarrow> feature_vector list \<Rightarrow> domain_error + candidate list" where
  "candidates_of snapshot version policy [] = Inr []"
| "candidates_of snapshot version policy (f # fs) =
     bindE (candidate_of snapshot version policy f) (\<lambda>c.
     bindE (candidates_of snapshot version policy fs) (\<lambda>rest. Inr (option_list c @ rest)))"

definition scan_key :: "candidate \<Rightarrow> rat \<times> string" where
  "scan_key c = (dec_val (ctx_neg (ca_interest_score c)), i_value (ca_instrument_id c))"

definition scan :: "market_snapshot \<Rightarrow> agent_version \<Rightarrow> scanner_policy \<Rightarrow> domain_error + candidate list" where
  "scan snapshot version policy =
     bindE (candidates_of snapshot version policy (ms_features snapshot)) (\<lambda>cs.
     Inr (take (nat (sy_max_candidates policy)) (sort_key scan_key cs)))"

end
