(* ===== verification/RuntimeInputs.thy ===== *)
theory RuntimeInputs
  imports RuntimePortfolio Binary64
begin

text \<open>
  \<open>kavrigo_runtime/validation.py\<close>: the checks of a request before any model call. \<open>H\<close> is \<open>content_hash\<close>. Ages are
  compared as the code does, in binary floats of milliseconds.
\<close>

datatype runtime_artefact =
    HashSnapshot market_snapshot
  | HashNetwork network_context
  | HashFeature string string "(string \<times> decimal) list"
  | HashPortfolio portfolio_snapshot
  | HashRequest evaluation_request
  | HashPolicy runtime_policy
  | HashEmpty
  | HashSpec agent_spec
  | HashDecision string string

definition runtime_snapshot_hash :: "(runtime_artefact \<Rightarrow> string) \<Rightarrow> market_snapshot \<Rightarrow> string" where
  "runtime_snapshot_hash H s = H (HashSnapshot (s\<lparr>ms_content_hash := ''''\<rparr>))"

definition network_hash :: "(runtime_artefact \<Rightarrow> string) \<Rightarrow> network_context \<Rightarrow> string" where
  "network_hash H c = H (HashNetwork (c\<lparr>nc_content_hash := ''''\<rparr>))"

definition older_than :: "datetime \<Rightarrow> datetime \<Rightarrow> int \<Rightarrow> bool" where
  "older_than later earlier limit \<longleftrightarrow> above_int (elapsed_ms (later - earlier)) limit"

text \<open>The checks on one position, and the exposure of those with a mark, whose value has the asset of the position.\<close>

definition position_checks :: "evaluation_request \<Rightarrow> position \<Rightarrow> (bool \<times> string) list" where
  "position_checks r p =
     [(q_value (pos_quantity p) < dec_zero \<or>
        (case pos_mark_price p of None \<Rightarrow> True
         | Some m \<Rightarrow> (p_base m, p_quote m) \<noteq> (i_base (pos_instrument_id p), pf_base_currency (eq_portfolio r))), ''unknown_position_valuation''),
      (case pos_opened_at p of None \<Rightarrow> False | Some t \<Rightarrow> ms_as_of (eq_snapshot r) < t, ''future_position'')]"

definition exposure :: "position list \<Rightarrow> decimal" where
  "exposure ps = foldl ctx_add dec_zero (concat (map (\<lambda>p. case pos_mark_price p of None \<Rightarrow> []
     | Some m \<Rightarrow> [ctx_mul (p_value m) (q_value (pos_quantity p))]) ps))"

definition portfolio_checks :: "evaluation_request \<Rightarrow> (bool \<times> string) list" where
  "portfolio_checks r =
     (let p = eq_portfolio r; held = exposure (pf_positions p) in
      [(\<not> dec_eq (m_amount (pf_equity p)) (ctx_add (m_amount (pf_cash p)) held) \<or> \<not> dec_eq (m_amount (pf_gross_exposure p)) held
         \<or> \<not> dec_eq (m_amount (pf_net_exposure p)) held, ''inconsistent_portfolio'')])"

definition age_checks :: "evaluation_request \<Rightarrow> runtime_policy \<Rightarrow> datetime \<Rightarrow> (bool \<times> string) list" where
  "age_checks r policy now =
     (let s = eq_snapshot r; p = eq_portfolio r in
      [(ms_as_of s < pf_as_of p, ''future_portfolio''),
       (older_than (ms_as_of s) (pf_as_of p) (ry_max_portfolio_age_ms policy), ''stale_portfolio''),
       (older_than now (ms_as_of s) (ry_max_snapshot_age_ms policy), ''stale_snapshot''),
       (case pf_reconciled_at p of None \<Rightarrow> False | Some t \<Rightarrow> ms_as_of s < t, ''future_reconciliation''),
       (\<not> pf_is_reconciled p \<or> pf_reconciled_at p = None, ''unknown_portfolio''),
       (case pf_reconciled_at p of None \<Rightarrow> False | Some t \<Rightarrow> older_than now t (ry_max_portfolio_age_ms policy), ''stale_reconciliation'')])"

definition feature_checks :: "(runtime_artefact \<Rightarrow> string) \<Rightarrow> agent_version \<Rightarrow> feature_vector \<Rightarrow> (bool \<times> string) list" where
  "feature_checks H version f =
     [(fv_feature_set_version f \<noteq> av_feature_set_version version, ''feature_version_mismatch''),
      (fv_content_hash f \<noteq> H (HashFeature (i_value (fv_instrument_id f)) (fv_feature_set_version f) (fv_values f)), ''feature_hash_mismatch'')]"

definition snapshot_checks :: "(runtime_artefact \<Rightarrow> string) \<Rightarrow> evaluation_request \<Rightarrow> agent_version \<Rightarrow> (bool \<times> string) list" where
  "snapshot_checks H r version =
     (let s = eq_snapshot r in
      [(ms_content_hash s \<noteq> runtime_snapshot_hash H s, ''snapshot_hash_mismatch''),
       (\<not> distinct (map i_value (ms_instruments s)), ''duplicate_instrument''),
       (\<not> distinct (map (\<lambda>f. i_value (fv_instrument_id f)) (ms_features s)), ''duplicate_feature_vector'')] @
      concat (map (feature_checks H version) (ms_features s)))"

definition evidence_checks :: "evaluation_request \<Rightarrow> (bool \<times> string) list" where
  "evidence_checks r =
     (let s = eq_snapshot r; evidence = eq_evidence r; quality = ms_quality s in
      [(set (ms_evidence_refs s) \<noteq> set (map ev_evidence_id evidence), ''evidence_snapshot_mismatch''),
       (\<not> distinct (map ev_evidence_id evidence), ''duplicate_evidence''),
       (list_ex (\<lambda>e. ms_as_of s < ev_ingested_at e \<or> ms_as_of s < ev_observed_at e) evidence, ''future_evidence''),
       (list_ex (\<lambda>e. case ev_news_event e of None \<Rightarrow> False | Some n \<Rightarrow> ev_ingested_at e < ne_first_seen_at n) evidence, ''future_news_arrival''),
       (\<not> dq_provider_health_ok quality \<or> \<not> dq_sequence_complete quality \<or> fr_stale_families (dq_freshness quality) \<noteq> []
          \<or> fr_missing_families (dq_freshness quality) \<noteq> [], ''unhealthy_snapshot'')])"

text \<open>A naive clock reading is None.\<close>

definition input_reason ::
    "(runtime_artefact \<Rightarrow> string) \<Rightarrow> evaluation_request \<Rightarrow> agent_version \<Rightarrow> runtime_policy \<Rightarrow> datetime option \<Rightarrow> string option" where
  "input_reason H r version policy reading =
     (case reading of None \<Rightarrow> Some ''future_snapshot''
      | Some now \<Rightarrow>
          let p = eq_portfolio r; s = eq_snapshot r in
          first_error
            ([(now < ms_as_of s, ''future_snapshot''),
              (eq_workspace_id r \<noteq> av_workspace_id version \<or> pf_workspace_id p \<noteq> av_workspace_id version, ''workspace_mismatch''),
              (pf_mode p \<noteq> sp_mode (av_spec version), ''mode_mismatch''),
              (pf_base_currency p \<noteq> ''USD'', ''unsupported_valuation_currency'')] @
             concat (map (position_checks r) (pf_positions p)) @
             portfolio_checks r @
             [(eq_horizon_minutes r \<notin> set (an_horizons_minutes (sp_analysis (av_spec version))), ''unsupported_horizon'')] @
             age_checks r policy now @ snapshot_checks H r version @ evidence_checks r))"

end
