(* ===== verification/RuntimeCycle.thy ===== *)
theory RuntimeCycle
  imports RuntimeScanner RuntimeInputs RiskEvaluator
begin

text \<open>
  \<open>kavrigo_runtime/runtime.py\<close> and \<open>analyzer.py\<close>. An evaluation is two steps: \<open>begin_evaluation\<close> up to the reservation
  of the cycle, and \<open>end_evaluation\<close> for the analysis and its result, since other evaluations run while it waits for the
  gateway. What the network provider, the gateway and the clock did is an argument of the second step.
\<close>

section \<open>analyzer.py\<close>

definition proposal_error :: "decision_proposal \<Rightarrow> domain_error option" where
  "proposal_error d = first_error
     [(prediction_error (dp_prediction d) \<noteq> None, OutOfRange),
      (256 < length (dp_evidence_refs d) \<or> 256 < length (dp_contradicting_evidence_refs d) \<or> 32 < length (dp_reason_codes d), OutOfRange),
      (requires_order (dp_proposed_action d) \<and>
         (case dp_proposed_notional d of None \<Rightarrow> True | Some m \<Rightarrow> is_zero (m_amount m)), TradeWithoutNotional),
      (requires_order (dp_proposed_action d) \<and>
         (case dp_proposed_notional d of None \<Rightarrow> False | Some m \<Rightarrow> is_negative (m_amount m)), NotionalNotPositive),
      (\<not> requires_order (dp_proposed_action d) \<and>
         (case dp_proposed_notional d of None \<Rightarrow> False | Some m \<Rightarrow> \<not> is_zero (m_amount m)), AbstentionWithNotional),
      (dp_state d = UnknownState \<and> requires_order (dp_proposed_action d), UnknownStateTrades),
      (list_ex (\<lambda>r. r \<in> set (dp_contradicting_evidence_refs d)) (dp_evidence_refs d), EvidenceOverlap)]"

definition proposal_reason :: "decision_proposal \<Rightarrow> analysis_input \<Rightarrow> agent_version \<Rightarrow> string option" where
  "proposal_reason d facts version =
     (let refs = dp_evidence_refs d @ dp_contradicting_evidence_refs d; known = map ev_evidence_id (ai_evidence facts);
          trades = requires_order (dp_proposed_action d); needs = sp_evidence (av_spec version) in first_error
       [(list_ex (\<lambda>r. r \<notin> set known) refs \<or> \<not> distinct refs, ''unsupported_evidence_reference''),
        (pr_horizon_minutes (dp_prediction d) \<noteq> ai_horizon_minutes facts, ''horizon_mismatch''),
        (trades \<and> (int (card (set refs)) < er_min_evidence_items needs \<or> dp_evidence_refs d = []), ''insufficient_supported_evidence''),
        (trades \<and> er_require_contradicting_evidence needs \<and> dp_contradicting_evidence_refs d = [], ''missing_contradicting_evidence''),
        (trades \<and> (case dp_proposed_notional d of None \<Rightarrow> True | Some m \<Rightarrow> m_currency m \<noteq> i_quote (ai_instrument facts)), ''proposal_currency_mismatch''),
        (trades \<and> (case dp_estimated_cost_bps d of None \<Rightarrow> True | Some c \<Rightarrow> c < dec_zero), ''unknown_estimated_cost'')])"

definition abstain :: "int \<Rightarrow> string \<Rightarrow> decision_proposal" where
  "abstain horizon reason =
     \<lparr>dp_state = UnknownState,
      dp_prediction = \<lparr>pr_expected_return_bps = 0, pr_confidence = dec_zero, pr_uncertainty = dec_int 1, pr_horizon_minutes = horizon\<rparr>,
      dp_proposed_action = ActNoTrade, dp_proposed_notional = None, dp_evidence_refs = [], dp_contradicting_evidence_refs = [],
      dp_reason_codes = [reason], dp_estimated_cost_bps = None\<rparr>"

definition bind_decision ::
    "decision_proposal \<Rightarrow> agent_version \<Rightarrow> string \<Rightarrow> analysis_input \<Rightarrow> string \<Rightarrow> datetime \<Rightarrow> domain_error + agent_decision" where
  "bind_decision d version snapshot_id facts decision_id decided_at =
     (let b = \<lparr>ad_decision_id = decision_id, ad_workspace_id = av_workspace_id version,
           ad_agent_version_id = av_agent_version_id version, ad_snapshot_id = snapshot_id, ad_instrument_id = ai_instrument facts,
           ad_decided_at = decided_at, ad_state = dp_state d, ad_prediction = dp_prediction d,
           ad_proposed_action = dp_proposed_action d, ad_proposed_notional = dp_proposed_notional d,
           ad_evidence_refs = dp_evidence_refs d, ad_contradicting_evidence_refs = dp_contradicting_evidence_refs d,
           ad_estimated_cost_bps = dp_estimated_cost_bps d\<rparr>
      in case decision_error b of Some e \<Rightarrow> Inl e | None \<Rightarrow> Inr b)"

definition relevant_evidence :: "evidence_item list \<Rightarrow> string \<Rightarrow> string \<Rightarrow> evidence_item list" where
  "relevant_evidence evidence instrument asset =
     filter (\<lambda>e. (ev_instruments e = [] \<and> ev_assets e = []) \<or> list_ex (\<lambda>i. i_value i = instrument) (ev_instruments e)
        \<or> asset \<in> set (ev_assets e)) evidence"

definition profile_value :: "model_profile \<Rightarrow> string" where
  "profile_value p = (case p of ExtractFast \<Rightarrow> ''extract_fast'' | ClassifyFast \<Rightarrow> ''classify_fast''
     | ReasonBalanced \<Rightarrow> ''reason_balanced'' | ReasonDeep \<Rightarrow> ''reason_deep'' | EmbedProfile \<Rightarrow> ''embed'')"

definition analysis_prompt_key :: "model_profile \<Rightarrow> string option" where
  "analysis_prompt_key p = (if p \<in> {ReasonBalanced, ReasonDeep} then Some (''asset-analysis-v2-'' @ profile_value p) else None)"

section \<open>State\<close>

record runtime_state =
  rs_registrations :: "(string \<times> runtime_registration) list"
  rs_capacity :: int
  rs_cache :: "((string \<times> string) \<times> (string \<times> evaluation_result option)) list"
  rs_counts :: "((string \<times> string \<times> int) \<times> int) list"
  rs_last :: "((string \<times> string) \<times> datetime) list"

datatype runtime_init_error =
    RuntimeNotLocal | RuntimeCapacity | SpecHashMismatch | PromptProfile | PromptHashMismatch | UnpinnedBacktest | DuplicateVersion

text \<open>\<open>prompt_hash\<close> is \<open>registered_prompt_hash(analysis_prompt(profile))\<close>.\<close>

fun register_all ::
    "(runtime_artefact \<Rightarrow> string) \<Rightarrow> (model_profile \<Rightarrow> string) \<Rightarrow> (string \<times> runtime_registration) list \<Rightarrow> runtime_registration list \<Rightarrow>
     runtime_init_error + (string \<times> runtime_registration) list" where
  "register_all H prompt_hash d [] = Inr d"
| "register_all H prompt_hash d (g # gs) =
     (let version = rg_agent_version g; profile = mp_profile (rg_model_policy g) in
      case first_error
        [(av_spec_hash version \<noteq> H (HashSpec (av_spec version)), SpecHashMismatch),
         (analysis_prompt_key profile = None, PromptProfile),
         (av_prompt_hash version \<noteq> prompt_hash profile, PromptHashMismatch),
         (sp_mode (av_spec version) = Backtest \<and> rg_pinned_model_identifier g = None, UnpinnedBacktest),
         (map_of d (av_agent_version_id version) \<noteq> None, DuplicateVersion)]
      of Some e \<Rightarrow> Inl e | None \<Rightarrow> register_all H prompt_hash (AList.update (av_agent_version_id version) g d) gs)"

definition runtime_init ::
    "(runtime_artefact \<Rightarrow> string) \<Rightarrow> (model_profile \<Rightarrow> string) \<Rightarrow> string \<Rightarrow> runtime_registration list \<Rightarrow> int \<Rightarrow> runtime_init_error + runtime_state" where
  "runtime_init H prompt_hash environment registrations capacity =
     (if environment \<noteq> ''local'' then Inl RuntimeNotLocal
      else if \<not> (1 \<le> capacity \<and> capacity \<le> 100000) then Inl RuntimeCapacity
      else bindE (register_all H prompt_hash [] registrations) (\<lambda>d.
        Inr \<lparr>rs_registrations = d, rs_capacity = capacity, rs_cache = [], rs_counts = [], rs_last = []\<rparr>))"

section \<open>The reservation of a cycle\<close>

record cycle =
  cl_request :: evaluation_request
  cl_registration :: runtime_registration
  cl_request_hash :: string
  cl_now :: datetime
  cl_candidates :: "candidate list"
  cl_selected :: "candidate list"

datatype begun_evaluation =
    Answered evaluation_result bool
  | Admitted_cycle cycle
  | Begin_raised domain_error

definition plain_result :: "string \<Rightarrow> string \<Rightarrow> evaluation_status \<Rightarrow> string list \<Rightarrow> model_call_record list \<Rightarrow> evaluation_result" where
  "plain_result request_digest policy_digest status reasons calls =
     \<lparr>es_status = status, es_request_hash = request_digest, es_runtime_policy_hash = policy_digest, es_reason_codes = reasons,
      es_candidates = [], es_decisions = [], es_portfolio_decision = None, es_network_contexts = [], es_model_calls = calls\<rparr>"

definition cache_key :: "evaluation_request \<Rightarrow> string \<times> string" where
  "cache_key r = (eq_workspace_id r, eq_idempotency_key r)"

definition agent_of_request :: "evaluation_request \<Rightarrow> agent_version \<Rightarrow> string \<times> string" where
  "agent_of_request r version = (eq_workspace_id r, av_agent_id version)"

text \<open>Lines 144-163, under the lock.\<close>

definition reserve_cycle ::
    "runtime_state \<Rightarrow> evaluation_request \<Rightarrow> runtime_registration \<Rightarrow> string \<Rightarrow> datetime \<Rightarrow> candidate list \<Rightarrow>
     runtime_state \<times> (evaluation_status \<times> string + candidate list)" where
  "reserve_cycle s r g request_digest now candidates =
     (let version = rg_agent_version g; schedule = sp_schedule (av_spec version); key = cache_key r;
          agent = agent_of_request r version; day = (fst agent, snd agent, date_of now) in
      if map_of (rs_cache s) key \<noteq> None then (s, Inl (InProgressStatus, ''evaluation_in_progress''))
      else if rs_capacity s \<le> int (length (rs_cache s)) then (s, Inl (Refused, ''runtime_capacity''))
      else if (case map_of (rs_last s) agent of None \<Rightarrow> False
          | Some t \<Rightarrow> below_int (total_seconds (now - t)) (sc_decision_interval_seconds schedule)) then (s, Inl (Refused, ''decision_interval''))
      else
        let remaining = sc_max_decisions_per_day schedule - get0 (rs_counts s) day in
        if remaining \<le> 0 then (s, Inl (Refused, ''daily_decision_budget''))
        else
          let selected = take (nat (min remaining (ry_max_calls_per_cycle (rg_policy g)))) candidates in
          (s\<lparr>rs_counts := add_at day (int (length selected)) (rs_counts s), rs_last := AList.update agent now (rs_last s),
             rs_cache := AList.update key (request_digest, None) (rs_cache s)\<rparr>, Inr selected))"

definition evaluation_request_error :: "evaluation_request \<Rightarrow> domain_error option" where
  "evaluation_request_error r = first_error
     [(\<not> gateway_name_ok (eq_idempotency_key r), BadPattern),
      (eq_horizon_minutes r < 1 \<or> 100800 < eq_horizon_minutes r, OutOfRange),
      (snapshot_error (eq_snapshot r) \<noteq> None, OutOfRange),
      (portfolio_error (eq_portfolio r) \<noteq> None, OutOfRange),
      (512 < length (eq_evidence r) \<or> list_ex (\<lambda>e. evidence_error e \<noteq> None) (eq_evidence r), OutOfRange)]"

text \<open>Lines 107-163.\<close>

definition begin_evaluation ::
    "(runtime_artefact \<Rightarrow> string) \<Rightarrow> runtime_state \<Rightarrow> evaluation_request \<Rightarrow> datetime option \<Rightarrow> runtime_state \<times> begun_evaluation" where
  "begin_evaluation H s r reading =
     (case evaluation_request_error r of Some e \<Rightarrow> (s, Begin_raised e)
      | None \<Rightarrow>
          let request_digest = H (HashRequest r) in
          (case map_of (rs_registrations s) (eq_agent_version_id r) of
             None \<Rightarrow> (s, Answered (plain_result request_digest (H HashEmpty) Refused [''unauthorized_version''] []) False)
           | Some g \<Rightarrow>
               let version = rg_agent_version g; answer = plain_result request_digest (H (HashPolicy (rg_policy g))) in
               if av_workspace_id version \<noteq> eq_workspace_id r
               then (s, Answered (answer Refused [''unauthorized_version''] []) False)
               else (case map_of (rs_cache s) (cache_key r) of
                   Some (prior_hash, stored) \<Rightarrow>
                     if prior_hash \<noteq> request_digest then (s, Answered (answer Refused [''idempotency_conflict''] []) False)
                     else (case stored of None \<Rightarrow> (s, Answered (answer InProgressStatus [''evaluation_in_progress''] []) False)
                       | Some result \<Rightarrow> (s, Answered result True))
                 | None \<Rightarrow>
                     (case input_reason H r version (rg_policy g) reading of
                        Some reason \<Rightarrow> (s, Answered (answer Refused [reason] []) False)
                      | None \<Rightarrow>
                          (case scan (eq_snapshot r) version (ry_scanner (rg_policy g)) of Inl e \<Rightarrow> (s, Begin_raised e)
                           | Inr candidates \<Rightarrow>
                               (case reading of None \<Rightarrow> (s, Begin_raised BadTimes)
                                | Some now \<Rightarrow>
                                    (case reserve_cycle s r g request_digest now candidates of
                                       (s', Inl (status, reason)) \<Rightarrow> (s', Answered (answer status [reason] []) False)
                                     | (s', Inr selected) \<Rightarrow>
                                         (s', Admitted_cycle \<lparr>cl_request = r, cl_registration = g, cl_request_hash = request_digest,
                                           cl_now = now, cl_candidates = candidates, cl_selected = selected\<rparr>))))))))"

section \<open>The analysis of a candidate\<close>

text \<open>What the gateway did with the request of a candidate; a cancellation is by the deadline of the cycle or from outside.\<close>

datatype gateway_answer =
    Replied_with decision_proposal model_call_record
  | Gateway_failed string "model_call_record option"
  | Gateway_invalid
  | Cancelled_by_deadline "model_call_record option"
  | Cancelled_outside "model_call_record option"

record candidate_input =
  ci_started_at :: "datetime option"
  ci_answer :: gateway_answer
  ci_decided_at :: "datetime option"

datatype candidate_outcome =
    Decided agent_decision "model_call_record list"
  | Deadline "model_call_record list"
  | Interrupted "model_call_record list"

definition facts_for :: "cycle \<Rightarrow> evidence_item list \<Rightarrow> network_context list \<Rightarrow> candidate \<Rightarrow> analysis_input option" where
  "facts_for c eligible contexts candidate =
     (let r = cl_request c; i = ca_instrument_id candidate; needs = sp_evidence (av_spec (rg_agent_version (cl_registration c))) in
      map_option (\<lambda>f. \<lparr>ai_instrument = i, ai_as_of = ms_as_of (eq_snapshot r), ai_horizon_minutes = eq_horizon_minutes r,
          ai_features = f, ai_evidence = take 64 (relevant_evidence eligible (i_value i) (i_base i)),
          ai_network = filter (\<lambda>n. list_ex (\<lambda>j. i_value j = i_value i) (nc_instruments n) \<and> ms_as_of (eq_snapshot r) < nc_valid_until n) contexts,
          ai_available_cash = \<lparr>m_amount = available_cash (eq_portfolio r), m_currency = m_currency (pf_cash (eq_portfolio r))\<rparr>,
          ai_current_position_value = (case filter (\<lambda>p. i_value (pos_instrument_id p) = i_value i) (pf_positions (eq_portfolio r)) of
              [] \<Rightarrow> \<lparr>m_amount = dec_zero, m_currency = i_quote i\<rparr>
            | p # ps \<Rightarrow> (case market_value p of Inr (Some v) \<Rightarrow> v | _ \<Rightarrow> \<lparr>m_amount = dec_zero, m_currency = i_quote i\<rparr>)),
          ai_min_evidence_items = er_min_evidence_items needs,
          ai_require_contradicting_evidence = er_require_contradicting_evidence needs\<rparr>)
        (map_of (map (\<lambda>f. (i_value (fv_instrument_id f), f)) (rev (ms_features (eq_snapshot r)))) (i_value i)))"

text \<open>Lines 233-245: why no model is called.\<close>

definition skip_reason :: "cycle \<Rightarrow> evidence_item list \<Rightarrow> analysis_input \<Rightarrow> candidate \<Rightarrow> datetime \<Rightarrow> string option" where
  "skip_reason c evidence facts candidate started =
     (let spec = av_spec (rg_agent_version (cl_registration c)) in first_error
       [(ca_expires_at candidate \<le> started, ''candidate_expired''),
        (\<not> an_asset_analyzer (sp_analysis spec), ''analyzer_disabled''),
        (64 < length evidence, ''evidence_capacity''),
        (int (length evidence) < er_min_evidence_items (sp_evidence spec), ''insufficient_evidence''),
        (an_network_context (sp_analysis spec) \<and> (ai_network facts = [] \<or> list_ex (\<lambda>n. nc_health n \<noteq> HealthNormal) (ai_network facts)),
           ''unknown_network_context'')])"

definition decision_id_of :: "(runtime_artefact \<Rightarrow> string) \<Rightarrow> cycle \<Rightarrow> candidate \<Rightarrow> string" where
  "decision_id_of H c candidate =
     ''dec_'' @ take 32 (drop 7 (H (HashDecision (cl_request_hash c) (i_value (ca_instrument_id candidate)))))"

definition analysis_request ::
    "(runtime_artefact \<Rightarrow> string) \<Rightarrow> (analysis_input \<Rightarrow> string) \<Rightarrow> cycle \<Rightarrow> analysis_input \<Rightarrow> candidate \<Rightarrow> model_request option" where
  "analysis_request H dump c facts candidate =
     (let g = cl_registration c; version = rg_agent_version g; decision_id = decision_id_of H c candidate; profile = mp_profile (rg_model_policy g) in
      map_option (\<lambda>prompt_key. \<lparr>mr_scope = \<lparr>cs_workspace_id = av_workspace_id version, cs_agent_id = av_agent_id version,
            cs_agent_version_id = av_agent_version_id version, cs_decision_id = decision_id, cs_mode = sp_mode (av_spec version)\<rparr>,
          mr_idempotency_key = ''asset-'' @ drop 4 decision_id, mr_profile = profile, mr_prompt_key = prompt_key,
          mr_input_json = dump facts, mr_pinned_model_identifier = rg_pinned_model_identifier g\<rparr>) (analysis_prompt_key profile))"

text \<open>Lines 247-291: the proposal with the calls that were recorded, or a cancellation, by the deadline or not.\<close>

datatype proposed = Proposal decision_proposal "model_call_record list" | Cut_off bool "model_call_record list"

definition judge_answer :: "cycle \<Rightarrow> analysis_input \<Rightarrow> model_request option \<Rightarrow> gateway_answer \<Rightarrow> proposed" where
  "judge_answer c facts request answer =
     (let horizon = eq_horizon_minutes (cl_request c) in
      case request of None \<Rightarrow> Cut_off False []
      | Some q \<Rightarrow>
        if model_request_error q \<noteq> None then Proposal (abstain horizon ''invalid_model_output'') []
        else (case answer of
          Replied_with d call \<Rightarrow>
            if proposal_error d \<noteq> None then Proposal (abstain horizon ''invalid_model_output'') [call]
            else (case proposal_reason d facts (rg_agent_version (cl_registration c)) of
                Some reason \<Rightarrow> Proposal (abstain horizon reason) [call]
              | None \<Rightarrow> Proposal d [call])
        | Gateway_failed code call \<Rightarrow> Proposal (abstain horizon (''model_'' @ code)) (option_list call)
        | Gateway_invalid \<Rightarrow> Proposal (abstain horizon ''invalid_model_output'') []
        | Cancelled_by_deadline call \<Rightarrow> Cut_off True (option_list call)
        | Cancelled_outside call \<Rightarrow> Cut_off False (option_list call)))"

text \<open>Lines 292-302: a decision that comes too late, or too early, is an abstention.\<close>

definition expired_decision :: "cycle \<Rightarrow> analysis_input \<Rightarrow> candidate \<Rightarrow> datetime option \<Rightarrow> bool" where
  "expired_decision c facts candidate reading =
     (case reading of None \<Rightarrow> True
      | Some t \<Rightarrow> t < cl_now c \<or> ca_expires_at candidate \<le> t \<or> list_ex (\<lambda>n. nc_valid_until n \<le> t) (ai_network facts)
          \<or> older_than t (ms_as_of (eq_snapshot (cl_request c))) (ry_max_snapshot_age_ms (rg_policy (cl_registration c))))"

definition analyse ::
    "(runtime_artefact \<Rightarrow> string) \<Rightarrow> (analysis_input \<Rightarrow> string) \<Rightarrow> cycle \<Rightarrow> evidence_item list \<Rightarrow> network_context list \<Rightarrow>
     candidate \<Rightarrow> candidate_input \<Rightarrow> candidate_outcome" where
  "analyse H dump c eligible contexts candidate input =
     (case (facts_for c eligible contexts candidate, ci_started_at input) of
        (Some facts, Some started) \<Rightarrow>
          let i = ca_instrument_id candidate; horizon = eq_horizon_minutes (cl_request c); version = rg_agent_version (cl_registration c);
              outcome = (case skip_reason c (relevant_evidence eligible (i_value i) (i_base i)) facts candidate started of
                  Some reason \<Rightarrow> Proposal (abstain horizon reason) []
                | None \<Rightarrow> judge_answer c facts (analysis_request H dump c facts candidate) (ci_answer input)) in
          (case outcome of
             Cut_off True calls \<Rightarrow> Deadline calls
           | Cut_off False calls \<Rightarrow> Interrupted calls
           | Proposal d calls \<Rightarrow>
               let late = expired_decision c facts candidate (ci_decided_at input);
                   decided_at = (case ci_decided_at input of None \<Rightarrow> cl_now c | Some t \<Rightarrow> if late then max (cl_now c) t else t) in
               (case bind_decision (if late then abstain horizon ''decision_expired'' else d) version
                   (ms_snapshot_id (eq_snapshot (cl_request c))) facts (decision_id_of H c candidate) decided_at of
                  Inl e \<Rightarrow> Interrupted calls
                | Inr b \<Rightarrow> Decided b calls))
      | _ \<Rightarrow> Interrupted [])"

section \<open>The result of a cycle\<close>

datatype loop_end = Loop_done | Loop_deadline | Loop_interrupted

fun analyse_all ::
    "(runtime_artefact \<Rightarrow> string) \<Rightarrow> (analysis_input \<Rightarrow> string) \<Rightarrow> cycle \<Rightarrow> evidence_item list \<Rightarrow> network_context list \<Rightarrow>
     (candidate \<Rightarrow> candidate_input) \<Rightarrow> candidate list \<Rightarrow> agent_decision list \<times> model_call_record list \<times> loop_end" where
  "analyse_all H dump c eligible contexts inputs [] = ([], [], Loop_done)"
| "analyse_all H dump c eligible contexts inputs (x # xs) =
     (case analyse H dump c eligible contexts x (inputs x) of
        Deadline calls \<Rightarrow> ([], calls, Loop_deadline)
      | Interrupted calls \<Rightarrow> ([], calls, Loop_interrupted)
      | Decided d calls \<Rightarrow>
          (case analyse_all H dump c eligible contexts inputs xs of (ds, rest, stop) \<Rightarrow> (d # ds, calls @ rest, stop)))"

definition network_reason ::
    "(runtime_artefact \<Rightarrow> string) \<Rightarrow> cycle \<Rightarrow> evidence_item list \<Rightarrow> network_context list option \<Rightarrow> string option" where
  "network_reason H c eligible contexts =
     (case contexts of None \<Rightarrow> Some ''network_unavailable''
      | Some ns \<Rightarrow>
          if 16 < length ns \<or> \<not> distinct (map nc_context_id ns) then Some ''network_capacity''
          else if list_ex (\<lambda>n. nc_content_hash n \<noteq> network_hash H n \<or> ms_as_of (eq_snapshot (cl_request c)) < nc_known_at n
              \<or> \<not> set (nc_evidence_refs n) \<subseteq> set (map ev_evidence_id eligible)) ns then Some ''invalid_network_context''
          else None)"

text \<open>The contexts as the cycle reads them: none when the version does not use them, and an invalid one fails the read.\<close>

definition frozen_contexts :: "cycle \<Rightarrow> network_context list option \<Rightarrow> network_context list option" where
  "frozen_contexts c provided =
     (if an_network_context (sp_analysis (av_spec (rg_agent_version (cl_registration c))))
      then (case provided of None \<Rightarrow> None | Some ns \<Rightarrow> if list_ex (\<lambda>n. network_context_error n \<noteq> None) ns then None else Some ns)
      else Some [])"

definition cycle_reasons :: "cycle \<Rightarrow> string list" where
  "cycle_reasons c =
     (if cl_candidates c = [] then [''no_candidates''] else []) @
     (if length (cl_selected c) < length (cl_candidates c) then [''cycle_decision_budget''] else [])"

text \<open>Lines 165-333: the result, and whether it is returned or an exception escapes.\<close>

definition run_cycle ::
    "(runtime_artefact \<Rightarrow> string) \<Rightarrow> (analysis_input \<Rightarrow> string) \<Rightarrow> cycle \<Rightarrow> network_context list option \<Rightarrow>
     (candidate \<Rightarrow> candidate_input) \<Rightarrow> evaluation_result \<times> bool" where
  "run_cycle H dump c provided inputs =
     (let policy = rg_policy (cl_registration c); answer = plain_result (cl_request_hash c) (H (HashPolicy policy));
          eligible = eligible_evidence (eq_evidence (cl_request c)) (rg_agent_version (cl_registration c));
          contexts = frozen_contexts c provided in
      case network_reason H c eligible contexts of
        Some reason \<Rightarrow> (answer Refused [reason] [], True)
      | None \<Rightarrow>
          let ns = (case contexts of None \<Rightarrow> [] | Some ns \<Rightarrow> ns) in
          (case analyse_all H dump c eligible ns inputs (cl_selected c) of
             (decisions, calls, Loop_deadline) \<Rightarrow>
               ((answer Refused [''cycle_timeout''] calls)\<lparr>es_decisions := decisions, es_candidates := cl_selected c, es_network_contexts := ns\<rparr>, True)
           | (decisions, calls, Loop_interrupted) \<Rightarrow> (answer Refused [''evaluation_interrupted''] calls, False)
           | (decisions, calls, Loop_done) \<Rightarrow>
               (case allocate (\<lambda>p. H (HashPortfolio p)) decisions (eq_portfolio (cl_request c)) policy of
                  Inl e \<Rightarrow> (answer Refused [''evaluation_interrupted''] calls, False)
                | Inr po \<Rightarrow> ((answer Completed (cycle_reasons c) calls)\<lparr>es_candidates := cl_selected c, es_decisions := decisions,
                    es_network_contexts := ns, es_portfolio_decision := Some po\<rparr>, True))))"

text \<open>Lines 334-337: the finally block stores the result, returned or not.\<close>

definition end_evaluation ::
    "(runtime_artefact \<Rightarrow> string) \<Rightarrow> (analysis_input \<Rightarrow> string) \<Rightarrow> runtime_state \<Rightarrow> cycle \<Rightarrow> network_context list option \<Rightarrow>
     (candidate \<Rightarrow> candidate_input) \<Rightarrow> runtime_state \<times> evaluation_result option" where
  "end_evaluation H dump s c provided inputs =
     (case run_cycle H dump c provided inputs of (result, returned) \<Rightarrow>
        (s\<lparr>rs_cache := AList.update (cache_key (cl_request c)) (cl_request_hash c, Some result) (rs_cache s)\<rparr>,
         if returned then Some result else None))"

end
