(* ===== verification/RuntimeAllocation.thy ===== *)
theory RuntimeAllocation
  imports RuntimePortfolio "HOL-Library.Multiset"
begin

text \<open>
  What the allocation keeps, step by step: cash and the budget for new allocations are never overdrawn, a group stays under
  its cap, a sale stays within the position. The bounds are exact, although the arithmetic rounds: an amount has twelve
  places, and below \<open>10 ^ 16\<close> such amounts and what remains after them are representable.
\<close>

section \<open>Amounts\<close>

lemma dec_val_coeff: "0 \<le> dec_val d \<longleftrightarrow> 0 \<le> coeff d" "0 < dec_val d \<longleftrightarrow> 0 < coeff d"
  using dec_zero_less[of "coeff d" "expo d"] dec_less_zero[of "coeff d" "expo d"]
  by (auto simp: dec_less_val not_less[symmetric])

lemma dec_max_val: "dec_val (dec_max a b) = max (dec_val a) (dec_val b)"
  by (simp add: dec_max_def dec_less_val)

lemma dec_min_val: "dec_val (dec_min a b) = min (dec_val a) (dec_val b)"
  by (simp add: dec_min_def dec_less_val)

lemma at_twelve_places_le:
  assumes "0 \<le> coeff d"
  shows "0 \<le> at_twelve_places d" "of_int (at_twelve_places d) * 10 powi -12 \<le> dec_val d"
proof -
  show "0 \<le> at_twelve_places d" using assms by (auto simp: at_twelve_places_def sgn_if pos_imp_zdiv_nonneg_iff)
  show "of_int (at_twelve_places d) * 10 powi -12 \<le> dec_val d"
  proof (cases "-12 \<le> expo d")
    case True
    then have e: "(10::rat) powi expo d = 10 ^ nat (expo d + 12) * 10 powi -12"
      using ten_powi_add[of "expo d + 12" "-12"] by (simp add: ten_powi_nat)
    show ?thesis using True by (simp add: at_twelve_places_def dec_val_def e)
  next
    case False
    define k where "k = nat (- 12 - expo d)"
    have e: "(10::rat) powi -12 = 10 ^ k * 10 powi expo d"
      using ten_powi_add[of "- 12 - expo d" "expo d"] False by (simp add: ten_powi_nat k_def)
    have "at_twelve_places d = coeff d div 10 ^ k"
      using False assms by (auto simp: at_twelve_places_def k_def sgn_if)
    moreover have "coeff d div 10 ^ k * 10 ^ k + coeff d mod 10 ^ k = coeff d" "0 \<le> coeff d mod 10 ^ k"
      by (rule div_mult_mod_eq) simp
    then have "coeff d div 10 ^ k * 10 ^ k \<le> coeff d" by linarith
    then have "of_int (coeff d div 10 ^ k * 10 ^ k) * (10::rat) powi expo d \<le> of_int (coeff d) * 10 powi expo d"
      by (simp only: mult_le_cancel_right_pos[OF ten_powi_pos(1)] of_int_le_iff)
    ultimately show ?thesis unfolding e by (simp add: dec_val_def)
  qed
qed

lemma quantize_down_val:
  assumes "quantize_down d = Inr a" "0 \<le> dec_val d"
  shows "on_grid (dec_val a)" "0 \<le> dec_val a" "dec_val a \<le> dec_val d"
proof -
  have a: "dec_val a = of_int (at_twelve_places d) * 10 powi -12"
    using assms(1) by (auto simp: quantize_down_def dec_val_def split: if_split_asm)
  then show "on_grid (dec_val a)" unfolding on_grid_def by blast
  have "0 \<le> coeff d" using assms(2) by (simp add: dec_val_coeff)
  from at_twelve_places_le[OF this] show "0 \<le> dec_val a" "dec_val a \<le> dec_val d" by (simp_all add: a)
qed

lemma quantize_down_answers:
  assumes "0 \<le> dec_val d" "dec_val d < 10 ^ 16"
  shows "\<exists>a. quantize_down d = Inr a"
proof -
  define c where "c = at_twelve_places d"
  have "0 \<le> coeff d" using assms(1) by (simp add: dec_val_coeff)
  from at_twelve_places_le[OF this] assms(2) have c: "0 \<le> c" "of_int c * 10 powi -12 < (10::rat) ^ 16" by (simp_all add: c_def)
  have "(10::rat) powi -12 = 1 / 10 ^ 12" by (simp add: power_int_def power_one_over)
  then have "(of_int c :: rat) < of_int (10 ^ 28)" using c(2) by (simp add: field_simps)
  then have "\<bar>c\<bar> < 10 ^ 28" using c(1) by (simp only: of_int_less_iff)
  then have "ndigits \<bar>c\<bar> \<le> PRECISION" using ndigits_le[of "\<bar>c\<bar>" 28] by (simp add: PRECISION_def)
  then show ?thesis by (simp add: quantize_down_def c_def)
qed

lemma ctx_div_nonpos:
  assumes "coeff a < 0" "0 < coeff b"
  shows "dec_val (ctx_div a b) \<le> 0"
proof -
  define shift where "shift = ndigits \<bar>coeff b\<bar> - ndigits \<bar>coeff a\<bar> + PRECISION + 1"
  define n where "n = (if 0 \<le> shift then \<bar>coeff a\<bar> * 10 ^ nat shift else \<bar>coeff a\<bar>)"
  define d where "d = (if 0 \<le> shift then \<bar>coeff b\<bar> else \<bar>coeff b\<bar> * 10 ^ nat (- shift))"
  have "0 \<le> n" by (simp add: n_def)
  moreover have "0 < d" using assms by (simp add: d_def)
  ultimately have q: "0 \<le> n div d" by (simp add: pos_imp_zdiv_nonneg_iff)
  obtain c e where z: "drop_zeros (nat shift) (n div d) (expo a - expo b - shift) = (c, e)" by fastforce
  have "of_int c * 10 powi e = of_int (n div d) * (10::rat) powi (expo a - expo b - shift)" by (rule drop_zeros_val[OF z])
  then have "0 \<le> of_int c * (10::rat) powi e" using q by simp
  then have c: "dec_val (Dec (- c) e) \<le> 0" by (simp add: dec_val_def)
  have s: "sgn (coeff a) * sgn (coeff b) = - 1" using assms by simp
  have neg: "dec_val (Dec (- m) e) \<le> 0" if "0 \<le> m" for m e
    using that dec_val_coeff(1)[of "Dec m e"] by (simp add: dec_val_def)
  have neg1: "dec_val (Dec (- m - 1) e) \<le> 0" if "0 \<le> m" for m e
    using neg[of "m + 1" e] that by simp
  show ?thesis
    unfolding ctx_div_def Let_def s shift_def[symmetric] n_def[symmetric] d_def[symmetric] z
    using assms q c neg neg1 by (auto intro!: ctx_round_bounds(1))
qed

text \<open>The terms of a valid policy and what the amounts of a step are bounded by.\<close>

definition terms_ok :: "terms \<Rightarrow> bool" where
  "terms_ok t \<longleftrightarrow> 1 \<le> dec_val (tm_buffer_factor t) \<and> representable (dec_val (tm_group_cap t)) \<and> dec_val (tm_group_cap t) < 10 ^ 16"

lemma buy_amount_bounds:
  assumes "buy_amount t s g requested = Inr a"
  shows "on_grid (dec_val a)" "0 \<le> dec_val a"
    "dec_val a \<le> max 0 (dec_val requested)" "dec_val a \<le> max 0 (dec_val (fu_remaining s))"
    "dec_val a \<le> max 0 (dec_val (ctx_sub (tm_group_cap t) (amount_at g (fu_groups s))))"
    "dec_val a \<le> max 0 (dec_val (ctx_div (fu_cash s) (tm_buffer_factor t)))"
  using quantize_down_val[OF assms[unfolded buy_amount_def]] by (auto simp: dec_max_val dec_min_val)

lemma div_cash_le:
  assumes "1 \<le> dec_val b" "dec_val c \<le> r" "0 \<le> r" "representable r"
  shows "max 0 (dec_val (ctx_div c b)) \<le> r"
proof (cases "0 \<le> coeff c")
  case True
  have "dec_val c \<le> r * dec_val b" using assms mult_left_mono[of 1 "dec_val b" r] by simp
  moreover have "0 < coeff b" using assms(1) dec_val_coeff(2)[of b] by simp
  ultimately show ?thesis using ctx_div_le[OF True _ assms(4)] assms(3) by simp
next
  case False
  have "0 < coeff b" using assms(1) dec_val_coeff(2)[of b] by simp
  then show ?thesis using ctx_div_nonpos[of c b] False assms(3) by simp
qed

lemma sell_amount_bounds:
  assumes "sell_amount s key requested = Inr a" "0 \<le> dec_val requested" "0 \<le> dec_val (amount_at key (fu_positions s))"
  shows "on_grid (dec_val a)" "0 \<le> dec_val a" "dec_val a \<le> dec_val requested" "dec_val a \<le> dec_val (amount_at key (fu_positions s))"
  using quantize_down_val[OF assms(1)[unfolded sell_amount_def]] assms(2,3) by (auto simp: dec_min_val)

lemma amount_at_update [simp]: "amount_at k (AList.update j v d) = (if k = j then v else amount_at k d)"
  by (simp add: amount_at_def update_conv)

section \<open>One step\<close>

definition amount_of :: "allocation \<Rightarrow> rat" where
  "amount_of a = dec_val (m_amount (al_allocated_notional a))"

definition group_of :: "runtime_policy \<Rightarrow> agent_decision \<Rightarrow> string option" where
  "group_of policy d = map_of (ry_allocation_groups policy) (i_value (ad_instrument_id d))"

lemma make_allocation_Inr:
  assumes "make_allocation d requested amount codes = Inr a"
  shows "amount_of a = dec_val amount" "al_decision_id a = ad_decision_id d" "al_instrument_id a = ad_instrument_id d"
    "al_requested_notional a = requested" "al_reason_codes a = codes" "allocation_error a = None"
  using assms by (auto simp: make_allocation_def Let_def amount_of_def split: option.splits)

text \<open>A step refuses, buys or sells.\<close>

lemma allocate_one_cases:
  assumes "allocate_one policy reasons t s d = Inr (s', a)"
  obtains (refused) requested where "ad_proposed_notional d = Some requested" "s' = s" "amount_of a = 0"
      "al_reason_codes a = refusal_codes policy reasons d requested" "al_reason_codes a \<noteq> []"
  | (bought) requested g amount where "ad_proposed_notional d = Some requested" "ad_proposed_action d = ActBuy" "reasons = []"
      "group_of policy d = Some g" "buy_amount t s g (m_amount requested) = Inr amount" "s' = spend t s g amount"
      "amount_of a = dec_val amount"
  | (sold) requested amount where "ad_proposed_notional d = Some requested" "ad_proposed_action d \<noteq> ActBuy" "reasons = []"
      "sell_amount s (i_value (ad_instrument_id d)) (m_amount requested) = Inr amount"
      "s' = release_position s (i_value (ad_instrument_id d)) amount" "amount_of a = dec_val amount"
proof -
  obtain requested where r: "ad_proposed_notional d = Some requested" using assms by (auto simp: allocate_one_def split: option.splits)
  let ?codes = "refusal_codes policy reasons d requested"
  show thesis
  proof (cases "?codes = []")
    case False
    then have "s' = s" "make_allocation d requested dec_zero ?codes = Inr a"
      using assms by (auto simp: allocate_one_def r Let_def bindE_Inr_iff)
    then show thesis using refused[OF r] make_allocation_Inr[of d requested dec_zero ?codes a] False by simp
  next
    case True
    then obtain g where g: "group_of policy d = Some g" "reasons = []"
      by (auto simp: refusal_codes_def group_of_def split: if_split_asm)
    show thesis
    proof (cases "ad_proposed_action d = ActBuy")
      case buy: True
      then obtain amount codes where "buy_amount t s g (m_amount requested) = Inr amount" "make_allocation d requested amount codes = Inr a"
          "s' = spend t s g amount"
        using assms True g by (auto simp: allocate_one_def r Let_def group_of_def bindE_Inr_iff)
      then show thesis using bought[OF r buy g(2,1)] make_allocation_Inr(1) by blast
    next
      case sell: False
      then obtain amount codes where "sell_amount s (i_value (ad_instrument_id d)) (m_amount requested) = Inr amount"
          "make_allocation d requested amount codes = Inr a" "s' = release_position s (i_value (ad_instrument_id d)) amount"
        using assms True g by (auto simp: allocate_one_def r Let_def group_of_def bindE_Inr_iff)
      then show thesis using sold[OF r sell g(2)] make_allocation_Inr(1) by blast
    qed
  qed
qed


section \<open>The loop\<close>

definition allocated_where :: "(agent_decision \<Rightarrow> bool) \<Rightarrow> agent_decision list \<Rightarrow> allocation list \<Rightarrow> rat" where
  "allocated_where P ds as = sum_list (map (\<lambda>(d, a). if P d then amount_of a else 0) (zip ds as))"

lemma allocated_where_simps [simp]:
  "allocated_where P [] as = 0"
  "allocated_where P (d # ds) (a # as) = (if P d then amount_of a else 0) + allocated_where P ds as"
  by (simp_all add: allocated_where_def)

lemma allocate_all_Cons:
  assumes "allocate_all policy reasons t s (d # ds) = Inr (s', as)"
  obtains s1 a rest where "allocate_one policy reasons t s d = Inr (s1, a)" "allocate_all policy reasons t s1 ds = Inr (s', rest)" "as = a # rest"
  using assms by (auto simp: bindE_Inr_iff)

definition buys :: "agent_decision \<Rightarrow> bool" where
  "buys d \<longleftrightarrow> ad_proposed_action d = ActBuy"

lemma cash_covers_buys:
  assumes "allocate_all policy reasons t s ds = Inr (s', as)" "terms_ok t"
    and "dec_val (fu_cash s) \<le> r" "0 \<le> r" "r < 10 ^ 16" "representable r"
  shows "allocated_where buys ds as \<le> r"
  using assms
proof (induction ds arbitrary: s as r)
  case (Cons d ds)
  obtain s1 a rest where c: "allocate_one policy reasons t s d = Inr (s1, a)" "allocate_all policy reasons t s1 ds = Inr (s', rest)" "as = a # rest"
    by (rule allocate_all_Cons[OF Cons.prems(1)])
  have buffer: "1 \<le> dec_val (tm_buffer_factor t)" using Cons.prems(2) by (simp add: terms_ok_def)
  show ?case using c(1)
  proof (cases rule: allocate_one_cases)
    case refused
    then show ?thesis using Cons.IH[OF c(2)] Cons.prems by (simp add: c(3))
  next
    case (bought requested g amount)
    note b = buy_amount_bounds[OF bought(5)]
    have le: "dec_val amount \<le> r" using b(6) div_cash_le[OF buffer Cons.prems(3,4,6)] by (rule order_trans)
    have rep: "representable (r - dec_val amount)" by (rule representable_diff[OF Cons.prems(6) b(1,2) le Cons.prems(5)])
    have "\<bar>dec_val amount\<bar> < 10 ^ 16" using le b(2) Cons.prems(5) by simp
    then have "dec_val amount \<le> dec_val (ctx_mul amount (tm_buffer_factor t))"
      using grid_representable[OF b(1)] mult_left_mono[OF buffer b(2)] by (intro ctx_mul_bounds(2)) auto
    then have "dec_val (fu_cash s1) \<le> r - dec_val amount"
      using Cons.prems(3) rep by (simp add: bought(6) spend_def ctx_sub_bounds(1))
    then show ?thesis
      using Cons.IH[OF c(2) Cons.prems(2) _ _ _ rep] le b(2) Cons.prems(5) bought(2,7) by (simp add: c(3) buys_def)
  next
    case (sold requested amount)
    then show ?thesis using Cons.IH[OF c(2)] Cons.prems by (simp add: c(3) buys_def release_position_def)
  qed
qed simp

lemma budget_covers_buys:
  assumes "allocate_all policy reasons t s ds = Inr (s', as)"
    and "dec_val (fu_remaining s) \<le> r" "0 \<le> r" "r < 10 ^ 16" "representable r"
  shows "allocated_where buys ds as \<le> r"
  using assms
proof (induction ds arbitrary: s as r)
  case (Cons d ds)
  obtain s1 a rest where c: "allocate_one policy reasons t s d = Inr (s1, a)" "allocate_all policy reasons t s1 ds = Inr (s', rest)" "as = a # rest"
    by (rule allocate_all_Cons[OF Cons.prems(1)])
  show ?case using c(1)
  proof (cases rule: allocate_one_cases)
    case refused
    then show ?thesis using Cons.IH[OF c(2)] Cons.prems by (simp add: c(3))
  next
    case (bought requested g amount)
    note b = buy_amount_bounds[OF bought(5)]
    have le: "dec_val amount \<le> r" using b(4) Cons.prems(2,3) by simp
    have rep: "representable (r - dec_val amount)" by (rule representable_diff[OF Cons.prems(5) b(1,2) le Cons.prems(4)])
    then have "dec_val (fu_remaining s1) \<le> r - dec_val amount"
      using Cons.prems(2) by (simp add: bought(6) spend_def ctx_sub_bounds(1))
    then show ?thesis
      using Cons.IH[OF c(2) _ _ _ rep] le b(2) Cons.prems(4) bought(2,7) by (simp add: c(3) buys_def)
  next
    case (sold requested amount)
    then show ?thesis using Cons.IH[OF c(2)] Cons.prems by (simp add: c(3) buys_def release_position_def)
  qed
qed simp

text \<open>A group with what it holds on the grid ends at most at its cap, or where it was.\<close>

definition groups_ok :: "funds \<Rightarrow> bool" where
  "groups_ok s \<longleftrightarrow> (\<forall>g. on_grid (dec_val (amount_at g (fu_groups s))) \<and> 0 \<le> dec_val (amount_at g (fu_groups s)) \<and>
     dec_val (amount_at g (fu_groups s)) < 10 ^ 16)"

lemma ctx_add_grid:
  assumes "on_grid (dec_val a)" "on_grid (dec_val b)" "0 \<le> dec_val a" "0 \<le> dec_val b" "dec_val a + dec_val b < 10 ^ 16"
  shows "dec_val (ctx_add a b) = dec_val a + dec_val b"
  using assms by (intro ctx_add_exact grid_representable on_grid_add) auto

lemma buy_within_cap:
  assumes "buy_amount t s g requested = Inr a" "terms_ok t" "groups_ok s"
  defines "e \<equiv> dec_val (amount_at g (fu_groups s))"
  shows "e + dec_val a \<le> max e (dec_val (tm_group_cap t))" "dec_val (ctx_add (amount_at g (fu_groups s)) a) = e + dec_val a"
    "groups_ok (spend t s g a)"
proof -
  note b = buy_amount_bounds[OF assms(1)]
  have t: "representable (dec_val (tm_group_cap t))" "dec_val (tm_group_cap t) < 10 ^ 16" using assms(2) by (auto simp: terms_ok_def)
  have e: "on_grid e" "0 \<le> e" "e < 10 ^ 16" using assms(3) by (auto simp: groups_ok_def e_def)
  show le: "e + dec_val a \<le> max e (dec_val (tm_group_cap t))"
  proof (cases "e \<le> dec_val (tm_group_cap t)")
    case True
    then have "dec_val (ctx_sub (tm_group_cap t) (amount_at g (fu_groups s))) = dec_val (tm_group_cap t) - e"
      using representable_diff[OF t(1) e(1,2) True t(2)] by (simp add: ctx_sub_exact e_def)
    then show ?thesis using b(5) True by simp
  next
    case False
    then have "dec_val (ctx_sub (tm_group_cap t) (amount_at g (fu_groups s))) \<le> 0" by (intro ctx_sub_bounds(1)) (auto simp: e_def)
    then show ?thesis using b(5) by simp
  qed
  have lt: "e + dec_val a < 10 ^ 16" using le e(3) t(2) by (simp add: max_def split: if_split_asm)
  show add: "dec_val (ctx_add (amount_at g (fu_groups s)) a) = e + dec_val a"
    unfolding e_def by (rule ctx_add_grid) (use b(1,2) e lt in \<open>simp_all add: e_def\<close>)
  show "groups_ok (spend t s g a)"
    using assms(3) e b(1,2) lt add by (auto simp: groups_ok_def spend_def on_grid_add e_def)
qed

definition buys_into :: "runtime_policy \<Rightarrow> string \<Rightarrow> agent_decision \<Rightarrow> bool" where
  "buys_into policy g d \<longleftrightarrow> buys d \<and> group_of policy d = Some g"

lemma cap_covers_buys:
  assumes "allocate_all policy reasons t s ds = Inr (s', as)" "terms_ok t" "groups_ok s"
  shows "dec_val (amount_at g (fu_groups s)) + allocated_where (buys_into policy g) ds as
    \<le> max (dec_val (amount_at g (fu_groups s))) (dec_val (tm_group_cap t))"
  using assms
proof (induction ds arbitrary: s as)
  case (Cons d ds)
  obtain s1 a rest where c: "allocate_one policy reasons t s d = Inr (s1, a)" "allocate_all policy reasons t s1 ds = Inr (s', rest)" "as = a # rest"
    by (rule allocate_all_Cons[OF Cons.prems(1)])
  show ?case using c(1)
  proof (cases rule: allocate_one_cases)
    case refused
    then show ?thesis using Cons.IH[OF c(2)] Cons.prems by (simp add: c(3))
  next
    case (bought requested h amount)
    note w = buy_within_cap[OF bought(5) Cons.prems(2,3)]
    have "dec_val (amount_at g (fu_groups s1)) = dec_val (amount_at g (fu_groups s)) + (if g = h then amount_of a else 0)"
      using w(2) bought(7) by (simp add: bought(6) spend_def)
    moreover have "buys_into policy g d \<longleftrightarrow> g = h" using bought(2,4) by (auto simp: buys_into_def buys_def)
    ultimately show ?thesis using Cons.IH[OF c(2) Cons.prems(2)] w(1,3) bought(6,7) by (auto simp: c(3) max_def split: if_split_asm)
  next
    case (sold requested amount)
    then show ?thesis using Cons.IH[OF c(2)] Cons.prems
      by (simp add: c(3) buys_into_def buys_def release_position_def groups_ok_def)
  qed
qed simp

text \<open>Sales of an instrument stay within the position.\<close>

definition positions_ok :: "funds \<Rightarrow> bool" where
  "positions_ok s \<longleftrightarrow> (\<forall>k. representable (dec_val (amount_at k (fu_positions s))) \<and> 0 \<le> dec_val (amount_at k (fu_positions s)) \<and>
     dec_val (amount_at k (fu_positions s)) < 10 ^ 16)"

definition proposal_ok :: "agent_decision \<Rightarrow> bool" where
  "proposal_ok d \<longleftrightarrow> (\<exists>m. ad_proposed_notional d = Some m \<and> 0 \<le> dec_val (m_amount m))"

definition sells_of :: "string \<Rightarrow> agent_decision \<Rightarrow> bool" where
  "sells_of k d \<longleftrightarrow> \<not> buys d \<and> i_value (ad_instrument_id d) = k"

lemma sale_within_position:
  assumes "sell_amount s k requested = Inr a" "positions_ok s" "0 \<le> dec_val requested"
  shows "dec_val a \<le> dec_val (amount_at k (fu_positions s))" "0 \<le> dec_val a" "dec_val a \<le> dec_val requested"
    "dec_val (ctx_sub (amount_at k (fu_positions s)) a) = dec_val (amount_at k (fu_positions s)) - dec_val a"
    "positions_ok (release_position s k a)"
proof -
  have h: "representable (dec_val (amount_at k (fu_positions s)))" "0 \<le> dec_val (amount_at k (fu_positions s))"
      "dec_val (amount_at k (fu_positions s)) < 10 ^ 16"
    using assms(2) by (auto simp: positions_ok_def)
  note b = sell_amount_bounds[OF assms(1,3) h(2)]
  show "dec_val a \<le> dec_val (amount_at k (fu_positions s))" "0 \<le> dec_val a" "dec_val a \<le> dec_val requested" by (rule b)+
  have rep: "representable (dec_val (amount_at k (fu_positions s)) - dec_val a)" by (rule representable_diff[OF h(1) b(1,2,4) h(3)])
  show eq: "dec_val (ctx_sub (amount_at k (fu_positions s)) a) = dec_val (amount_at k (fu_positions s)) - dec_val a"
    by (rule ctx_sub_exact[OF rep])
  have "dec_val (amount_at k (fu_positions s)) - dec_val a < 10 ^ 16" using h(3) b(2) by linarith
  then show "positions_ok (release_position s k a)"
    using assms(2) eq rep b(4) by (auto simp: positions_ok_def release_position_def)
qed

lemma positions_cover_sales:
  assumes "allocate_all policy reasons t s ds = Inr (s', as)" "positions_ok s" "list_all proposal_ok ds"
  shows "allocated_where (sells_of k) ds as \<le> dec_val (amount_at k (fu_positions s))"
  using assms
proof (induction ds arbitrary: s as)
  case Nil
  then show ?case by (simp add: positions_ok_def)
next
  case (Cons d ds)
  obtain s1 a rest where c: "allocate_one policy reasons t s d = Inr (s1, a)" "allocate_all policy reasons t s1 ds = Inr (s', rest)" "as = a # rest"
    by (rule allocate_all_Cons[OF Cons.prems(1)])
  have ds: "list_all proposal_ok ds" using Cons.prems(3) by simp
  show ?case using c(1)
  proof (cases rule: allocate_one_cases)
    case refused
    then show ?thesis using Cons.IH[OF c(2) _ ds] Cons.prems by (simp add: c(3))
  next
    case (bought requested h amount)
    then show ?thesis using Cons.IH[OF c(2) _ ds] Cons.prems by (simp add: c(3) sells_of_def buys_def spend_def positions_ok_def)
  next
    case (sold requested amount)
    have "0 \<le> dec_val (m_amount requested)" using Cons.prems(3) sold(1) by (simp add: proposal_ok_def)
    note w = sale_within_position[OF sold(4) Cons.prems(2) this]
    have "dec_val (amount_at k (fu_positions s1)) = dec_val (amount_at k (fu_positions s)) - (if sells_of k d then amount_of a else 0)"
      using w(4) sold(2,6) by (auto simp: sold(5) release_position_def sells_of_def buys_def)
    then show ?thesis using Cons.IH[OF c(2) _ ds] w(5) sold(5) by (simp add: c(3))
  qed
qed

section \<open>Each allocation\<close>

text \<open>The allocations follow the ranked proposals; each is between zero and the request.\<close>

definition allocation_for :: "agent_decision \<Rightarrow> allocation \<Rightarrow> bool" where
  "allocation_for d a \<longleftrightarrow> al_decision_id a = ad_decision_id d \<and> al_instrument_id a = ad_instrument_id d \<and>
     Some (al_requested_notional a) = ad_proposed_notional d \<and> 0 \<le> amount_of a \<and>
     amount_of a \<le> dec_val (m_amount (al_requested_notional a))"

lemma allocate_one_for:
  assumes "allocate_one policy reasons t s d = Inr (s', a)"
  shows "allocation_for d a" "reasons \<noteq> [] \<Longrightarrow> amount_of a = 0"
proof -
  obtain requested where r: "ad_proposed_notional d = Some requested" using assms by (auto simp: allocate_one_def split: option.splits)
  obtain amount codes where m: "make_allocation d requested amount codes = Inr a"
    using assms by (auto simp: allocate_one_def r Let_def bindE_Inr_iff split: if_split_asm option.splits)
  note i = make_allocation_Inr[OF m]
  have "dec_zero \<le> m_amount (al_allocated_notional a)" "m_amount (al_allocated_notional a) \<le> m_amount (al_requested_notional a)"
    using i(6) by (auto simp: allocation_error_def split: if_split_asm)
  then show "allocation_for d a" using i r by (simp add: allocation_for_def amount_of_def dec_le_val)
  show "amount_of a = 0" if "reasons \<noteq> []"
    using assms by (cases rule: allocate_one_cases) (use that in auto)
qed

lemma allocate_all_for:
  "allocate_all policy reasons t s ds = Inr (s', as) \<Longrightarrow>
    list_all2 allocation_for ds as \<and> (reasons \<noteq> [] \<longrightarrow> list_all (\<lambda>a. amount_of a = 0) as)"
proof (induction ds arbitrary: s as)
  case (Cons d ds)
  obtain s1 a rest where c: "allocate_one policy reasons t s d = Inr (s1, a)" "allocate_all policy reasons t s1 ds = Inr (s', rest)" "as = a # rest"
    by (rule allocate_all_Cons[OF Cons.prems])
  show ?case using Cons.IH[OF c(2)] allocate_one_for[OF c(1)] by (auto simp: c(3))
qed simp

section \<open>The loop answers\<close>

lemma make_allocation_answers:
  assumes "0 \<le> dec_val amount" "dec_val amount \<le> dec_val (m_amount requested)"
  shows "\<exists>a. make_allocation d requested amount codes = Inr a"
  using assms by (simp add: make_allocation_def Let_def allocation_error_def dec_le_val)

definition funds_ok :: "funds \<Rightarrow> bool" where
  "funds_ok s \<longleftrightarrow> dec_val (fu_remaining s) < 10 ^ 16 \<and> representable (dec_val (fu_remaining s)) \<and> positions_ok s"

lemma buy_amount_answers:
  assumes "funds_ok s" "0 \<le> dec_val requested"
  shows "\<exists>a. buy_amount t s g requested = Inr a"
  using assms unfolding buy_amount_def funds_ok_def by (intro quantize_down_answers) (auto simp: dec_max_val dec_min_val min_less_iff_disj)

lemma sell_amount_answers:
  assumes "funds_ok s" "0 \<le> dec_val requested"
  shows "\<exists>a. sell_amount s k requested = Inr a"
  using assms unfolding sell_amount_def funds_ok_def positions_ok_def by (intro quantize_down_answers) (auto simp: dec_min_val min_less_iff_disj)

lemma allocate_one_answers:
  assumes "funds_ok s" "proposal_ok d"
  shows "\<exists>s' a. allocate_one policy reasons t s d = Inr (s', a) \<and> funds_ok s'"
proof -
  obtain requested where r: "ad_proposed_notional d = Some requested" "0 \<le> dec_val (m_amount requested)"
    using assms(2) by (auto simp: proposal_ok_def)
  let ?codes = "refusal_codes policy reasons d requested"
  show ?thesis
  proof (cases "?codes = []")
    case False
    obtain a where "make_allocation d requested dec_zero ?codes = Inr a" using make_allocation_answers[of dec_zero requested] r(2) by auto
    then show ?thesis using False assms(1) by (simp add: allocate_one_def r Let_def)
  next
    case True
    then obtain g where g: "map_of (ry_allocation_groups policy) (i_value (ad_instrument_id d)) = Some g"
      by (auto simp: refusal_codes_def split: if_split_asm)
    show ?thesis
    proof (cases "ad_proposed_action d = ActBuy")
      case buy: True
      obtain amount where m: "buy_amount t s g (m_amount requested) = Inr amount" using buy_amount_answers[OF assms(1) r(2)] by blast
      note b = buy_amount_bounds[OF m]
      have "dec_val amount \<le> dec_val (m_amount requested)" using b(3) r(2) by simp
      then obtain a where "make_allocation d requested amount [size_code amount (m_amount requested)] = Inr a"
        using make_allocation_answers[OF b(2)] by blast
      moreover have "dec_val (ctx_sub (fu_remaining s) amount) < 10 ^ 16"
      proof -
        have "dec_val (ctx_sub (fu_remaining s) amount) \<le> dec_val (fu_remaining s)"
          using assms(1) b(2) by (intro ctx_sub_bounds(1)) (auto simp: funds_ok_def)
        then show ?thesis using assms(1) by (auto simp: funds_ok_def)
      qed
      then have "funds_ok (spend t s g amount)" using assms(1) by (simp add: funds_ok_def spend_def positions_ok_def)
      ultimately show ?thesis using True buy g m by (simp add: allocate_one_def r Let_def)
    next
      case sell: False
      let ?k = "i_value (ad_instrument_id d)"
      obtain amount where m: "sell_amount s ?k (m_amount requested) = Inr amount" using sell_amount_answers[OF assms(1) r(2)] by blast
      have "positions_ok s" using assms(1) by (simp add: funds_ok_def)
      note w = sale_within_position[OF m this r(2)]
      obtain a where "make_allocation d requested amount [size_code amount (m_amount requested)] = Inr a"
        using make_allocation_answers[OF w(2,3)] by blast
      moreover have "funds_ok (release_position s ?k amount)" using assms(1) w(5) by (simp add: funds_ok_def release_position_def)
      ultimately show ?thesis using True sell g m by (simp add: allocate_one_def r Let_def)
    qed
  qed
qed

lemma allocate_all_answers: "funds_ok s \<Longrightarrow> list_all proposal_ok ds \<Longrightarrow> \<exists>s' as. allocate_all policy reasons t s ds = Inr (s', as)"
proof (induction ds arbitrary: s)
  case (Cons d ds)
  obtain s1 a where s1: "allocate_one policy reasons t s d = Inr (s1, a)" "funds_ok s1"
    using allocate_one_answers[OF Cons.prems(1), of d policy reasons t] Cons.prems(2) by auto
  have "list_all proposal_ok ds" using Cons.prems(2) by simp
  then obtain s2 rest where "allocate_all policy reasons t s1 ds = Inr (s2, rest)" using Cons.IH[OF s1(2)] by blast
  then show ?case using s1(1) by simp
qed simp

section \<open>What the portfolio holds\<close>

definition held_value :: "position \<Rightarrow> rat" where
  "held_value p = (case pos_mark_price p of None \<Rightarrow> 0 | Some m \<Rightarrow> max 0 (dec_val (ctx_mul (p_value m) (q_value (pos_quantity p)))))"

definition held_where :: "(position \<Rightarrow> bool) \<Rightarrow> position list \<Rightarrow> rat" where
  "held_where P ps = sum_list (map (\<lambda>p. if P p then held_value p else 0) ps)"

lemma held_where_simps [simp]:
  "held_where P [] = 0" "held_where P (p # ps) = (if P p then held_value p else 0) + held_where P ps"
  by (simp_all add: held_where_def)

lemma held_value_nonneg [simp]: "0 \<le> held_value p"
  by (simp add: held_value_def split: option.splits)

lemma held_where_nonneg [simp]: "0 \<le> held_where P ps"
  by (induction ps) simp_all

lemma held_where_mono: "held_where P ps \<le> held_where (\<lambda>p. True) ps"
  by (induction ps) (auto simp: add_increasing)

definition position_in :: "runtime_policy \<Rightarrow> string \<Rightarrow> position \<Rightarrow> bool" where
  "position_in policy g p \<longleftrightarrow> map_of (ry_allocation_groups policy) (i_value (pos_instrument_id p)) = Some g"

definition position_at :: "string \<Rightarrow> position \<Rightarrow> bool" where
  "position_at k p \<longleftrightarrow> i_value (pos_instrument_id p) = k"

text \<open>A position is read into its group, or it is a reason to refuse everything.\<close>

lemma read_position_cases:
  assumes "read_position policy x p = Inr x'"
  obtains (unknown) "x' = x\<lparr>xo_reasons := xo_reasons x @ [''unknown_position_exposure'']\<rparr>"
  | (known) v g where "position_in policy g p" "dec_val v = held_value p" "representable (dec_val v)"
      "x' = x\<lparr>xo_positions := AList.update (i_value (pos_instrument_id p)) v (xo_positions x),
        xo_groups := AList.update g (ctx_add (amount_at g (xo_groups x)) v) (xo_groups x)\<rparr>"
proof -
  let ?key = "i_value (pos_instrument_id p)"
  obtain mv where mv: "market_value p = Inr mv" using assms by (auto simp: read_position_def Let_def bindE_Inr_iff)
  show thesis
  proof (cases "mv = None \<or> map_of (ry_allocation_groups policy) ?key = None")
    case True
    then show thesis using assms by (intro unknown) (auto simp: read_position_def Let_def mv split: option.splits)
  next
    case False
    then obtain v g where v: "mv = Some v" and g: "map_of (ry_allocation_groups policy) ?key = Some g" by auto
    obtain m where m: "pos_mark_price p = Some m" "m_amount v = ctx_mul (p_value m) (q_value (pos_quantity p))"
      using mv v by (auto simp: market_value_def split: option.splits if_split_asm)
    show thesis
    proof (cases "m_currency v \<noteq> ''USD'' \<or> m_amount v < dec_zero \<or> q_value (pos_quantity p) < dec_zero")
      case True
      then show thesis using assms by (intro unknown) (simp add: read_position_def Let_def mv v g)
    next
      case False
      then have "x' = x\<lparr>xo_positions := AList.update ?key (m_amount v) (xo_positions x),
          xo_groups := AList.update g (ctx_add (amount_at g (xo_groups x)) (m_amount v)) (xo_groups x)\<rparr>"
        using assms by (simp add: read_position_def Let_def mv v g)
      moreover have "dec_val (m_amount v) = held_value p" using False m by (simp add: held_value_def dec_less_val)
      moreover have "representable (dec_val (m_amount v))" by (simp add: m(2))
      ultimately show thesis using g by (intro known[of g "m_amount v"]) (auto simp: position_in_def)
    qed
  qed
qed

lemma read_positions_reasons: "read_positions policy x ps = Inr x' \<Longrightarrow> \<exists>rs. xo_reasons x' = xo_reasons x @ rs"
proof (induction ps arbitrary: x)
  case (Cons p ps)
  then obtain x1 where x1: "read_position policy x p = Inr x1" "read_positions policy x1 ps = Inr x'" by (auto simp: bindE_Inr_iff)
  have "\<exists>rs. xo_reasons x1 = xo_reasons x @ rs" using x1(1) by (cases rule: read_position_cases) auto
  then show ?case using Cons.IH[OF x1(2)] by auto
qed simp

lemma read_positions_groups:
  assumes "read_positions policy x ps = Inr x'" "xo_reasons x' = []" "list_all (\<lambda>p. on_grid (held_value p)) ps"
    and "\<forall>h. on_grid (dec_val (amount_at h (xo_groups x))) \<and> 0 \<le> dec_val (amount_at h (xo_groups x)) \<and>
      dec_val (amount_at h (xo_groups x)) + held_where (\<lambda>p. True) ps < 10 ^ 16"
  shows "dec_val (amount_at g (xo_groups x')) = dec_val (amount_at g (xo_groups x)) + held_where (position_in policy g) ps"
  using assms
proof (induction ps arbitrary: x)
  case (Cons p ps)
  then obtain x1 where x1: "read_position policy x p = Inr x1" "read_positions policy x1 ps = Inr x'" by (auto simp: bindE_Inr_iff)
  show ?case using x1(1)
  proof (cases rule: read_position_cases)
    case unknown
    then show ?thesis using read_positions_reasons[OF x1(2)] Cons.prems(2) by auto
  next
    case (known v h)
    have add: "dec_val (ctx_add (amount_at h (xo_groups x)) v) = dec_val (amount_at h (xo_groups x)) + held_value p"
      unfolding known(2)[symmetric]
    proof (rule ctx_add_grid)
      have "0 \<le> held_where (\<lambda>p. True) ps" by simp
      moreover have "dec_val (amount_at h (xo_groups x)) + held_where (\<lambda>p. True) (p # ps) < 10 ^ 16" using Cons.prems(4) by blast
      ultimately show "dec_val (amount_at h (xo_groups x)) + dec_val v < 10 ^ 16" unfolding known(2) held_where_simps if_True by linarith
    qed (use Cons.prems(3,4) known(2) in auto)
    have next_ok: "\<forall>h'. on_grid (dec_val (amount_at h' (xo_groups x1))) \<and> 0 \<le> dec_val (amount_at h' (xo_groups x1)) \<and>
      dec_val (amount_at h' (xo_groups x1)) + held_where (\<lambda>p. True) ps < 10 ^ 16"
    proof
      fix h'
      have "on_grid (dec_val (amount_at h' (xo_groups x)))" "0 \<le> dec_val (amount_at h' (xo_groups x))"
        "dec_val (amount_at h' (xo_groups x)) + (held_value p + held_where (\<lambda>p. True) ps) < 10 ^ 16"
        using Cons.prems(4) by auto
      moreover have "on_grid (held_value p)" using Cons.prems(3) by simp
      moreover from calculation(3) have "dec_val (amount_at h' (xo_groups x)) + held_where (\<lambda>p. True) ps < 10 ^ 16"
        using held_value_nonneg[of p] by linarith
      ultimately show "on_grid (dec_val (amount_at h' (xo_groups x1))) \<and> 0 \<le> dec_val (amount_at h' (xo_groups x1)) \<and>
        dec_val (amount_at h' (xo_groups x1)) + held_where (\<lambda>p. True) ps < 10 ^ 16"
        using add by (auto simp: known(4) on_grid_add)
    qed
    have "dec_val (amount_at g (xo_groups x1)) = dec_val (amount_at g (xo_groups x)) + (if position_in policy g p then held_value p else 0)"
      using add known(1) by (auto simp: known(4) position_in_def)
    then show ?thesis using Cons.IH[OF x1(2) Cons.prems(2) _ next_ok] Cons.prems(3) by simp
  qed
qed simp

lemma read_positions_positions:
  assumes "read_positions policy x ps = Inr x'" "xo_reasons x' = []" "distinct (map (\<lambda>p. i_value (pos_instrument_id p)) ps)"
    and "\<forall>p\<in>set ps. amount_at (i_value (pos_instrument_id p)) (xo_positions x) = dec_zero"
  shows "dec_val (amount_at k (xo_positions x')) = dec_val (amount_at k (xo_positions x)) + held_where (position_at k) ps"
  using assms
proof (induction ps arbitrary: x)
  case (Cons p ps)
  then obtain x1 where x1: "read_position policy x p = Inr x1" "read_positions policy x1 ps = Inr x'" by (auto simp: bindE_Inr_iff)
  show ?case using x1(1)
  proof (cases rule: read_position_cases)
    case unknown
    then show ?thesis using read_positions_reasons[OF x1(2)] Cons.prems(2) by auto
  next
    case (known v h)
    have "\<forall>q\<in>set ps. amount_at (i_value (pos_instrument_id q)) (xo_positions x1) = dec_zero"
    proof
      fix q assume q: "q \<in> set ps"
      have "i_value (pos_instrument_id p) \<notin> (\<lambda>p. i_value (pos_instrument_id p)) ` set ps" using Cons.prems(3) by simp
      moreover have "i_value (pos_instrument_id q) \<in> (\<lambda>p. i_value (pos_instrument_id p)) ` set ps" using q by (rule imageI)
      ultimately have "i_value (pos_instrument_id q) \<noteq> i_value (pos_instrument_id p)" by auto
      then show "amount_at (i_value (pos_instrument_id q)) (xo_positions x1) = dec_zero" using Cons.prems(4) q by (simp add: known(4))
    qed
    then have "dec_val (amount_at k (xo_positions x')) = dec_val (amount_at k (xo_positions x1)) + held_where (position_at k) ps"
      using Cons.IH[OF x1(2) Cons.prems(2)] Cons.prems(3) by simp
    moreover have "position_at k p \<longleftrightarrow> i_value (pos_instrument_id p) = k" by (simp add: position_at_def)
    ultimately show ?thesis using Cons.prems(4) by (auto simp: known(2,4))
  qed
qed simp

lemma read_positions_representable:
  assumes "read_positions policy x ps = Inr x'" "list_all (\<lambda>p. held_value p < 10 ^ 16) ps"
    and "\<forall>k. representable (dec_val (amount_at k (xo_positions x))) \<and> 0 \<le> dec_val (amount_at k (xo_positions x)) \<and>
      dec_val (amount_at k (xo_positions x)) < 10 ^ 16"
  shows "\<forall>k. representable (dec_val (amount_at k (xo_positions x'))) \<and> 0 \<le> dec_val (amount_at k (xo_positions x')) \<and>
      dec_val (amount_at k (xo_positions x')) < 10 ^ 16"
  using assms
proof (induction ps arbitrary: x)
  case (Cons p ps)
  then obtain x1 where x1: "read_position policy x p = Inr x1" "read_positions policy x1 ps = Inr x'" by (auto simp: bindE_Inr_iff)
  have "\<forall>k. representable (dec_val (amount_at k (xo_positions x1))) \<and> 0 \<le> dec_val (amount_at k (xo_positions x1)) \<and>
      dec_val (amount_at k (xo_positions x1)) < 10 ^ 16"
    using x1(1) by (cases rule: read_position_cases) (use Cons.prems(2,3) in \<open>auto simp: list_all_iff\<close>)
  then show ?case using Cons.IH[OF x1(2)] Cons.prems(2) by simp
qed simp

section \<open>Shares of the equity\<close>

lemma representable_ctx_div [simp]: "representable (dec_val (ctx_div a b))"
proof -
  have rep_if: "representable (dec_val (if c then u else v))" if "representable (dec_val u)" "representable (dec_val v)" for c u v
    using that by simp
  show ?thesis unfolding ctx_div_def Let_def case_prod_beta by (intro rep_if representable_ctx_round) simp
qed

lemma representable_max0 [simp]: "representable (dec_val d) \<Longrightarrow> representable (dec_val (dec_max dec_zero d))"
  by (simp add: dec_max_def)

lemma ten_representable: "representable (10 ^ k)"
proof -
  have "(10::rat) ^ k = of_int 1 * 10 powi int k" by (simp add: power_int_def)
  then show ?thesis using representableI[of 1 "int k"] by (simp add: PRECISION_def)
qed

lemma equity_share_bounds:
  assumes "percent_ok pct" "dec_val (m_amount (pf_equity p)) \<le> 10 ^ 15"
  shows "0 \<le> dec_val (equity_share p pct)" "dec_val (equity_share p pct) \<le> 10 ^ 15" "representable (dec_val (equity_share p pct))"
proof -
  let ?m = "ctx_mul (m_amount (pf_equity p)) pct"
  have pct: "0 \<le> dec_val pct" "dec_val pct \<le> 100"
    using assms(1) by (auto simp: percent_ok_def dec_le_val dec_int_def dec_val_def[of "Dec 100 0"])
  show "0 \<le> dec_val (equity_share p pct)" by (simp add: equity_share_def dec_max_val)
  show "representable (dec_val (equity_share p pct))" by (simp add: equity_share_def)
  have "dec_val (m_amount (pf_equity p)) * dec_val pct \<le> 10 ^ 17"
  proof -
    have "dec_val (m_amount (pf_equity p)) * dec_val pct \<le> 10 ^ 15 * dec_val pct" using assms(2) pct by (intro mult_right_mono) auto
    also have "\<dots> \<le> 10 ^ 15 * 100" using pct by (intro mult_left_mono) auto
    finally show ?thesis by simp
  qed
  then have m: "dec_val ?m \<le> 10 ^ 15 * dec_val (dec_int 100)"
    using ctx_mul_bounds(1)[OF ten_representable[of 17]] by (simp add: dec_int_def dec_val_def[of "Dec 100 0"])
  have "dec_val (ctx_div ?m (dec_int 100)) \<le> 10 ^ 15"
  proof (cases "0 \<le> coeff ?m")
    case True
    then show ?thesis using ctx_div_le[OF True _ ten_representable m] by (simp add: dec_int_def)
  next
    case False
    then have "dec_val (ctx_div ?m (dec_int 100)) \<le> 0" by (intro ctx_div_nonpos) (auto simp: dec_int_def)
    then show ?thesis by simp
  qed
  then show "dec_val (equity_share p pct) \<le> 10 ^ 15" by (simp add: equity_share_def dec_max_val)
qed

lemma terms_of_ok:
  assumes "runtime_policy_error policy = None" "dec_val (m_amount (pf_equity p)) \<le> 10 ^ 15"
  shows "terms_ok (terms_of p policy)"
proof -
  have pct: "percent_ok (ry_max_group_exposure_pct policy)" and fee: "dec_zero \<le> ry_fee_buffer_bps policy"
    using assms(1) by (auto simp: runtime_policy_error_def split: if_split_asm)
  note b = equity_share_bounds[OF pct assms(2)]
  have "0 \<le> dec_val (ctx_div (ry_fee_buffer_bps policy) (dec_int 10000))"
    using fee by (simp add: dec_val_coeff ctx_div_nonneg dec_le_val dec_int_def)
  then have "1 \<le> dec_val (tm_buffer_factor (terms_of p policy))"
    using ten_representable[of 0] unfolding terms_of_def by (simp add: ctx_add_bounds(2) dec_int_def dec_val_def[of "Dec 1 0"])
  then show ?thesis using b by (simp add: terms_ok_def terms_of_def)
qed

lemma opening_funds_ok:
  assumes "runtime_policy_error policy = None" "dec_val (m_amount (pf_equity p)) \<le> 10 ^ 15"
    and "\<forall>k. representable (dec_val (amount_at k (xo_positions x))) \<and> 0 \<le> dec_val (amount_at k (xo_positions x)) \<and>
      dec_val (amount_at k (xo_positions x)) < 10 ^ 16"
  shows "funds_ok (opening_funds p policy x)"
proof -
  have "percent_ok (ry_max_new_allocation_pct policy)"
    using assms(1) by (auto simp: runtime_policy_error_def split: if_split_asm)
  from equity_share_bounds[OF this assms(2)] show ?thesis
    using assms(3) by (simp add: funds_ok_def opening_funds_def positions_ok_def)
qed

lemma decision_proposal_ok: "decision_error d = None \<Longrightarrow> requires_order (ad_proposed_action d) \<Longrightarrow> proposal_ok d"
  by (auto simp: decision_error_def proposal_ok_def is_negative_def dec_less_val not_less split: if_split_asm option.splits
      simp del: requires_order.simps)

lemma proposals_ok: "\<forall>d\<in>set ds. decision_error d = None \<Longrightarrow> list_all proposal_ok (ranked (proposals_of ds))"
  by (auto simp: list_all_iff ranked_def proposals_of_def intro: decision_proposal_ok simp del: requires_order.simps)

lemma allocateE:
  assumes "allocate hash ds p policy = Inr po"
  obtains x s where "read_positions policy \<lparr>xo_reasons = portfolio_reasons p, xo_positions = [], xo_groups = []\<rparr> (pf_positions p) = Inr x"
    "allocate_all policy (xo_reasons x) (terms_of p policy) (opening_funds p policy x) (ranked (proposals_of ds)) = Inr (s, po_allocations po)"
    "po_reason_codes po = dedupe (xo_reasons x)" "po_portfolio_hash po = hash p"
  using assms by (auto simp: allocate_def bindE_Inr_iff)

end
