(* ===== verification/RuntimeProps.thy ===== *)
theory RuntimeProps
  imports RuntimeCycle RuntimeAllocation EventLog
begin

text \<open>
  Sequences of evaluations: the runtime with the cycles in flight, what each step did, and the invariant that ties the
  cache, the counters and the times of the last decisions to what was admitted and stored.
\<close>

section \<open>Candidates\<close>

lemma ctx_abs_val:
  "0 \<le> coeff (ctx_abs d)" "representable (dec_val (ctx_abs d))"
  by (simp_all add: ctx_abs_def ctx_round_nonneg)

lemma hit_score_bounds:
  assumes "dec_zero < threshold" "threshold \<le> ctx_abs v" "map_of (fv_values f) name = Some v"
    and "map_of (sy_absolute_thresholds policy) name = Some threshold"
  shows "0 \<le> dec_val (hit_score policy f name)" "dec_val (hit_score policy f name) \<le> 1"
proof -
  let ?v = "ctx_abs v"
  let ?sum = "ctx_add ?v threshold"
  have t: "0 < dec_val threshold" "dec_val threshold \<le> dec_val ?v" using assms(1,2) by (simp_all add: dec_less_val dec_le_val)
  have "dec_val ?v \<le> dec_val ?sum" by (rule ctx_add_bounds(2)) (use t in \<open>simp_all add: ctx_abs_val\<close>)
  moreover from this t have "0 < dec_val ?sum" by linarith
  then have sum: "0 < coeff ?sum" by (simp add: dec_val_coeff)
  ultimately have "dec_val (ctx_div ?v ?sum) \<le> 1"
    using ten_representable[of 0] by (intro ctx_div_le) (simp_all add: ctx_abs_val)
  moreover have "0 \<le> dec_val (ctx_div ?v ?sum)" using ctx_div_nonneg[OF ctx_abs_val(1) sum] by (simp add: dec_val_coeff)
  moreover have "hit_score policy f name = ctx_div ?v ?sum" using assms(3,4) by (simp add: hit_score_def amount_at_def Let_def)
  ultimately show "0 \<le> dec_val (hit_score policy f name)" "dec_val (hit_score policy f name) \<le> 1" by simp_all
qed

lemma feature_hitsE:
  assumes "name \<in> set (feature_hits policy f)" "distinct (map fst (sy_absolute_thresholds policy))"
  obtains threshold v where "map_of (sy_absolute_thresholds policy) name = Some threshold" "map_of (fv_values f) name = Some v"
    "threshold \<le> ctx_abs v"
  using assms by (auto simp: feature_hits_def split: option.splits)

lemma foldl_dec_max_bounds:
  "(\<forall>x\<in>set (y # xs). 0 \<le> dec_val x \<and> dec_val x \<le> 1) \<Longrightarrow> 0 \<le> dec_val (foldl dec_max y xs) \<and> dec_val (foldl dec_max y xs) \<le> 1"
  by (induction xs arbitrary: y) (auto simp: dec_max_val)

definition thresholds_ok :: "scanner_policy \<Rightarrow> bool" where
  "thresholds_ok policy \<longleftrightarrow> scanner_policy_error policy = None \<and> distinct (map fst (sy_absolute_thresholds policy))"

lemma threshold_pos:
  assumes "thresholds_ok policy" "map_of (sy_absolute_thresholds policy) name = Some threshold"
  shows "dec_zero < threshold" "gateway_name_ok name"
proof -
  have "(name, threshold) \<in> set (sy_absolute_thresholds policy)" using assms(2) by (rule map_of_SomeD)
  then show "dec_zero < threshold" "gateway_name_ok name"
    using assms(1) dec_linear[of threshold dec_zero]
    by (auto simp: thresholds_ok_def scanner_policy_error_def list_ex_iff split: if_split_asm)
qed

lemma interest_score_bounds:
  assumes "thresholds_ok policy"
  shows "0 \<le> dec_val (interest_score policy f (feature_hits policy f))" "dec_val (interest_score policy f (feature_hits policy f)) \<le> 1"
proof -
  have b: "0 \<le> dec_val x \<and> dec_val x \<le> 1" if "x \<in> set (map (hit_score policy f) (feature_hits policy f))" for x
  proof -
    obtain name where n: "name \<in> set (feature_hits policy f)" "x = hit_score policy f name" using \<open>x \<in> _\<close> by auto
    have "distinct (map fst (sy_absolute_thresholds policy))" using assms by (simp add: thresholds_ok_def)
    from feature_hitsE[OF n(1) this] obtain threshold v where t: "map_of (sy_absolute_thresholds policy) name = Some threshold"
        "map_of (fv_values f) name = Some v" "threshold \<le> ctx_abs v" by blast
    show ?thesis using hit_score_bounds[OF threshold_pos(1)[OF assms t(1)] t(3,2,1)] n(2) by simp
  qed
  have "0 \<le> dec_val (interest_score policy f (feature_hits policy f)) \<and> dec_val (interest_score policy f (feature_hits policy f)) \<le> 1"
  proof (cases "map (hit_score policy f) (feature_hits policy f)")
    case (Cons x xs)
    then show ?thesis using foldl_dec_max_bounds[of x xs] b by (simp add: interest_score_def)
  qed (simp add: interest_score_def)
  then show "0 \<le> dec_val (interest_score policy f (feature_hits policy f))" "dec_val (interest_score policy f (feature_hits policy f)) \<le> 1"
    by blast+
qed

definition candidate_ok :: "market_snapshot \<Rightarrow> agent_version \<Rightarrow> scanner_policy \<Rightarrow> candidate \<Rightarrow> bool" where
  "candidate_ok snapshot version policy c \<longleftrightarrow>
     candidate_error c = None \<and> ca_expires_at c = ms_as_of snapshot + ms (sy_candidate_ttl_ms policy) \<and>
     i_value (ca_instrument_id c) \<in> set (map i_value (un_instruments (sp_universe (av_spec version)))) \<and>
     (\<exists>f\<in>set (ms_features snapshot). fv_instrument_id f = ca_instrument_id c \<and>
        (an_market_scanner (sp_analysis (av_spec version)) \<longrightarrow> feature_hits policy f \<noteq> []) \<and>
        ca_interest_score c = interest_score policy f (feature_hits policy f))"

lemma candidate_of_answers:
  assumes "thresholds_ok policy" "f \<in> set (ms_features snapshot)"
  shows "\<exists>c. candidate_of snapshot version policy f = Inr c \<and> (\<forall>x. c = Some x \<longrightarrow> candidate_ok snapshot version policy x)"
proof -
  let ?hits = "feature_hits policy f"
  let ?c = "\<lparr>ca_instrument_id = fv_instrument_id f, ca_interest_score = interest_score policy f ?hits,
        ca_reasons = (if ?hits = [] then [''scanner_disabled''] else ?hits), ca_expires_at = ms_as_of snapshot + ms (sy_candidate_ttl_ms policy)\<rparr>"
  have "gateway_name_ok ''scanner_disabled''" by code_simp
  moreover have "gateway_name_ok name" if "name \<in> set ?hits" for name
    using feature_hitsE[OF that] threshold_pos(2)[OF assms(1)] assms(1) by (metis thresholds_ok_def)
  ultimately have "\<not> list_ex (\<lambda>r. \<not> gateway_name_ok r) (ca_reasons ?c)" by (auto simp: list_ex_iff)
  then have "candidate_error ?c = None"
    using interest_score_bounds[OF assms(1), of f] by (simp add: candidate_error_def dec_le_val dec_int_def dec_val_def[of "Dec 1 0"])
  then show ?thesis using assms(2) by (auto simp: candidate_of_def Let_def candidate_ok_def)
qed

lemma candidates_of_answers:
  assumes "thresholds_ok policy" "set fs \<subseteq> set (ms_features snapshot)"
  shows "\<exists>cs. candidates_of snapshot version policy fs = Inr cs \<and> list_all (candidate_ok snapshot version policy) cs"
  using assms(2)
proof (induction fs)
  case (Cons f fs)
  obtain cs where cs: "candidates_of snapshot version policy fs = Inr cs" "list_all (candidate_ok snapshot version policy) cs"
    using Cons by auto
  obtain c where c: "candidate_of snapshot version policy f = Inr c" "\<forall>x. c = Some x \<longrightarrow> candidate_ok snapshot version policy x"
    using candidate_of_answers[OF assms(1), of f snapshot version] Cons.prems by auto
  then show ?case using cs by (cases c) (auto simp: option_list_def)
qed simp

section \<open>Sequences of evaluations\<close>

declare split_paired_All [simp del] split_paired_Ex [simp del]

datatype runtime_call =
    Begin_call evaluation_request "datetime option"
  | End_call nat "network_context list option" "candidate \<Rightarrow> candidate_input"

datatype runtime_event = Cycle_admitted cycle | Cycle_stored cycle evaluation_result

text \<open>The runtime with its cycles in flight; the n-th of them ends.\<close>

type_synonym runtime_system = "runtime_state \<times> cycle list"

definition system_step ::
    "(runtime_artefact \<Rightarrow> string) \<Rightarrow> (analysis_input \<Rightarrow> string) \<Rightarrow> runtime_system \<Rightarrow> runtime_call \<Rightarrow> runtime_system \<times> runtime_event list" where
  "system_step H dump sys call =
     (case sys of (s, flight) \<Rightarrow>
      (case call of
         Begin_call r reading \<Rightarrow>
           (case begin_evaluation H s r reading of
              (s', Admitted_cycle c) \<Rightarrow> ((s', flight @ [c]), [Cycle_admitted c])
            | (s', _) \<Rightarrow> ((s', flight), []))
       | End_call n provided inputs \<Rightarrow>
           if n < length flight then
             ((fst (end_evaluation H dump s (flight ! n) provided inputs), take n flight @ drop (Suc n) flight),
              [Cycle_stored (flight ! n) (fst (run_cycle H dump (flight ! n) provided inputs))])
           else ((s, flight), [])))"

abbreviation system_run where
  "system_run H dump \<equiv> run_events (system_step H dump)"

definition admitted_of :: "runtime_event list \<Rightarrow> cycle list" where
  "admitted_of events = concat (map (\<lambda>e. case e of Cycle_admitted c \<Rightarrow> [c] | Cycle_stored c result \<Rightarrow> []) events)"

lemma admitted_of_simps [simp]:
  "admitted_of [] = []" "admitted_of (es @ fs) = admitted_of es @ admitted_of fs"
  "admitted_of (Cycle_admitted c # es) = c # admitted_of es" "admitted_of (Cycle_stored c result # es) = admitted_of es"
  by (simp_all add: admitted_of_def)

text \<open>What an evaluation that is admitted went through, and that any other leaves the state as it was.\<close>

lemma reserve_cycle_cases:
  assumes "reserve_cycle s r g request_digest now candidates = (s', out)"
  obtains (refused) status reason where "out = Inl (status, reason)" "s' = s"
  | (granted) selected where "out = Inr selected" "map_of (rs_cache s) (cache_key r) = None"
      "case map_of (rs_last s) (agent_of_request r (rg_agent_version g)) of None \<Rightarrow> True
       | Some t \<Rightarrow> \<not> below_int (total_seconds (now - t)) (sc_decision_interval_seconds (sp_schedule (av_spec (rg_agent_version g))))"
      "get0 (rs_counts s) (eq_workspace_id r, av_agent_id (rg_agent_version g), date_of now) + int (length selected)
        \<le> sc_max_decisions_per_day (sp_schedule (av_spec (rg_agent_version g)))"
      "length selected \<le> nat (ry_max_calls_per_cycle (rg_policy g))" "selected = take (length selected) candidates"
      "s' = s\<lparr>rs_counts := add_at (eq_workspace_id r, av_agent_id (rg_agent_version g), date_of now) (int (length selected)) (rs_counts s),
         rs_last := AList.update (agent_of_request r (rg_agent_version g)) now (rs_last s),
         rs_cache := AList.update (cache_key r) (request_digest, None) (rs_cache s)\<rparr>"
proof -
  let ?remaining = "sc_max_decisions_per_day (sp_schedule (av_spec (rg_agent_version g))) -
      get0 (rs_counts s) (eq_workspace_id r, av_agent_id (rg_agent_version g), date_of now)"
  let ?selected = "take (nat (min ?remaining (ry_max_calls_per_cycle (rg_policy g)))) candidates"
  show thesis
  proof (cases out)
    case (Inl e)
    then show thesis using assms refused[of "fst e" "snd e"]
      by (auto simp: reserve_cycle_def Let_def agent_of_request_def split: if_split_asm)
  next
    case (Inr selected)
    have sel: "selected = ?selected" "0 < ?remaining"
      using assms Inr by (auto simp: reserve_cycle_def Let_def agent_of_request_def split: if_split_asm)
    have key: "map_of (rs_cache s) (cache_key r) = None"
      and spaced: "case map_of (rs_last s) (agent_of_request r (rg_agent_version g)) of None \<Rightarrow> True
        | Some t \<Rightarrow> \<not> below_int (total_seconds (now - t)) (sc_decision_interval_seconds (sp_schedule (av_spec (rg_agent_version g))))"
      and s': "s' = s\<lparr>rs_counts := add_at (eq_workspace_id r, av_agent_id (rg_agent_version g), date_of now) (int (length ?selected)) (rs_counts s),
         rs_last := AList.update (agent_of_request r (rg_agent_version g)) now (rs_last s),
         rs_cache := AList.update (cache_key r) (request_digest, None) (rs_cache s)\<rparr>"
      using assms Inr by (auto simp: reserve_cycle_def Let_def agent_of_request_def split: if_split_asm option.splits)
    have len: "length selected \<le> nat (min ?remaining (ry_max_calls_per_cycle (rg_policy g)))" unfolding sel(1) by simp
    then have len': "int (length selected) \<le> ?remaining" "length selected \<le> nat (ry_max_calls_per_cycle (rg_policy g))" using sel(2) by linarith+
    have prefix: "selected = take (length selected) candidates" using sel(1) by (metis append_take_drop_id append_eq_conv_conj)
    show thesis
      by (rule granted[OF Inr key spaced _ len'(2) prefix s'[folded sel(1)]]) (use len'(1) in linarith)
  qed
qed

lemma begin_cases:
  assumes "begin_evaluation H s r reading = (s', out)"
  obtains (unchanged) "s' = s" "\<forall>c. out \<noteq> Admitted_cycle c"
  | (started) g now candidates selected where "map_of (rs_registrations s) (eq_agent_version_id r) = Some g"
      "av_workspace_id (rg_agent_version g) = eq_workspace_id r" "evaluation_request_error r = None" "reading = Some now"
      "input_reason H r (rg_agent_version g) (rg_policy g) (Some now) = None"
      "scan (eq_snapshot r) (rg_agent_version g) (ry_scanner (rg_policy g)) = Inr candidates"
      "reserve_cycle s r g (H (HashRequest r)) now candidates = (s', Inr selected)"
      "out = Admitted_cycle \<lparr>cl_request = r, cl_registration = g, cl_request_hash = H (HashRequest r), cl_now = now,
        cl_candidates = candidates, cl_selected = selected\<rparr>"
proof (cases "\<exists>c. out = Admitted_cycle c")
  case True
  then show thesis using assms started
    by (auto simp: begin_evaluation_def Let_def split: option.splits if_split_asm prod.splits sum.splits)
next
  case False
  have "s' = s"
  proof (cases "\<exists>g now candidates e. reserve_cycle s r g (H (HashRequest r)) now candidates = (s', Inl e)")
    case True
    then show ?thesis by (elim exE) (erule reserve_cycle_cases; simp)
  next
    case nores: False
    then show ?thesis using assms False
      by (auto simp: begin_evaluation_def Let_def split: option.splits if_split_asm prod.splits sum.splits)
  qed
  then show thesis using False unchanged by blast
qed

section \<open>The budgets of decisions\<close>

definition agent_of_cycle :: "cycle \<Rightarrow> string \<times> string" where
  "agent_of_cycle c = agent_of_request (cl_request c) (rg_agent_version (cl_registration c))"

definition decided_for :: "string \<times> string \<Rightarrow> int \<Rightarrow> runtime_event list \<Rightarrow> int" where
  "decided_for agent day events =
     int (sum_list (map (\<lambda>c. length (cl_selected c)) (filter (\<lambda>c. agent_of_cycle c = agent \<and> date_of (cl_now c) = day) (admitted_of events))))"

definition admission_times :: "string \<times> string \<Rightarrow> runtime_event list \<Rightarrow> datetime list" where
  "admission_times agent events = map cl_now (filter (\<lambda>c. agent_of_cycle c = agent) (admitted_of events))"

definition registered_for :: "(string \<times> runtime_registration) list \<Rightarrow> string \<times> string \<Rightarrow> schedule_config \<Rightarrow> bool" where
  "registered_for R agent schedule \<longleftrightarrow> (\<exists>k g. map_of R k = Some g \<and> av_workspace_id (rg_agent_version g) = fst agent \<and>
     av_agent_id (rg_agent_version g) = snd agent \<and> schedule = sp_schedule (av_spec (rg_agent_version g)))"

definition spaced :: "int \<Rightarrow> datetime list \<Rightarrow> bool" where
  "spaced n ts \<longleftrightarrow> sorted_wrt (\<lambda>a b. a + seconds n \<le> b) ts"

definition limits_hold :: "(string \<times> runtime_registration) list \<Rightarrow> string \<times> string \<Rightarrow> int \<Rightarrow> int \<Rightarrow> bool" where
  "limits_hold R agent n m \<longleftrightarrow> 0 < n \<and> 0 \<le> m \<and> (\<forall>schedule. registered_for R agent schedule \<longrightarrow>
     n \<le> sc_decision_interval_seconds schedule \<and> sc_decision_interval_seconds schedule \<le> 86400 \<and> sc_max_decisions_per_day schedule \<le> m)"

definition budgets :: "(string \<times> runtime_registration) list \<Rightarrow> string \<times> string \<Rightarrow> int \<Rightarrow> int \<Rightarrow> runtime_system \<Rightarrow> runtime_event list \<Rightarrow> bool" where
  "budgets R agent n m sys events \<longleftrightarrow> rs_registrations (fst sys) = R \<and>
     (\<forall>day. get0 (rs_counts (fst sys)) (fst agent, snd agent, day) = decided_for agent day events \<and> decided_for agent day events \<le> m) \<and>
     map_of (rs_last (fst sys)) agent = (case admission_times agent events of [] \<Rightarrow> None | ts \<Rightarrow> Some (List.last ts)) \<and>
     spaced n (admission_times agent events)"

lemma spaced_append:
  assumes "spaced n ts" "0 \<le> n" "ts = [] \<or> List.last ts + seconds n \<le> t"
  shows "spaced n (ts @ [t])"
proof (cases ts rule: rev_cases)
  case (snoc us l)
  have l: "l + seconds n \<le> t" using assms(3) snoc by simp
  have "x + seconds n \<le> l" if "x \<in> set us" for x using assms(1) snoc that by (simp add: spaced_def sorted_wrt_append)
  moreover have "0 \<le> seconds n" using assms(2) by (simp add: seconds_def)
  ultimately have "x + seconds n \<le> t" if "x \<in> set ts" for x using that snoc l by fastforce
  then show ?thesis using assms(1) by (simp add: spaced_def sorted_wrt_append)
qed (simp add: spaced_def)

lemma end_evaluation_state: "rs_registrations (fst (end_evaluation H dump s c provided inputs)) = rs_registrations s"
    "rs_counts (fst (end_evaluation H dump s c provided inputs)) = rs_counts s" "rs_last (fst (end_evaluation H dump s c provided inputs)) = rs_last s"
    "rs_cache (fst (end_evaluation H dump s c provided inputs)) =
      AList.update (cache_key (cl_request c)) (cl_request_hash c, Some (fst (run_cycle H dump c provided inputs))) (rs_cache s)"
  by (simp_all add: end_evaluation_def split: prod.splits)

lemma system_step_cases:
  assumes "system_step H dump sys call = (sys', es)"
  obtains (idle) "sys' = sys" "es = []"
  | (admitted) s flight r now s1 c g where "sys = (s, flight)" "call = Begin_call r (Some now)" "sys' = (s1, flight @ [c])" "es = [Cycle_admitted c]"
      "map_of (rs_registrations s) (eq_agent_version_id r) = Some g" "av_workspace_id (rg_agent_version g) = eq_workspace_id r"
      "evaluation_request_error r = None" "input_reason H r (rg_agent_version g) (rg_policy g) (Some now) = None"
      "scan (eq_snapshot r) (rg_agent_version g) (ry_scanner (rg_policy g)) = Inr (cl_candidates c)"
      "reserve_cycle s r g (H (HashRequest r)) now (cl_candidates c) = (s1, Inr (cl_selected c))"
      "cl_request c = r" "cl_registration c = g" "cl_request_hash c = H (HashRequest r)" "cl_now c = now"
  | (stored) s flight n provided inputs where "sys = (s, flight)" "n < length flight" "call = End_call n provided inputs"
      "sys' = (fst (end_evaluation H dump s (flight ! n) provided inputs), take n flight @ drop (Suc n) flight)"
      "es = [Cycle_stored (flight ! n) (fst (run_cycle H dump (flight ! n) provided inputs))]"
proof -
  obtain s flight where sys: "sys = (s, flight)" by (cases sys)
  show thesis
  proof (cases call)
    case (Begin_call r reading)
    obtain s1 out where b: "begin_evaluation H s r reading = (s1, out)" by fastforce
    show thesis using b
    proof (cases rule: begin_cases)
      case unchanged
      then show thesis using assms idle by (auto simp: system_step_def sys Begin_call b split: begun_evaluation.splits)
    next
      case (started g now candidates selected)
      let ?c = "\<lparr>cl_request = r, cl_registration = g, cl_request_hash = H (HashRequest r), cl_now = now,
        cl_candidates = candidates, cl_selected = selected\<rparr>"
      have "sys' = (s1, flight @ [?c])" "es = [Cycle_admitted ?c]"
        using assms b started(8) by (simp_all add: system_step_def sys Begin_call)
      then show thesis using started Begin_call by (intro admitted[OF sys, of r now s1 ?c g]) simp_all
    qed
  next
    case (End_call n provided inputs)
    show thesis
    proof (cases "n < length flight")
      case True
      then show thesis using assms by (intro stored[OF sys True End_call]) (auto simp: system_step_def sys End_call)
    next
      case False
      then show thesis using assms idle by (simp add: system_step_def sys End_call)
    qed
  qed
qed

lemma budgets_step:
  assumes b: "budgets R agent n m sys events" and lim: "limits_hold R agent n m" and step: "system_step H dump sys call = (sys', es)"
  shows "budgets R agent n m sys' (events @ es)"
  using step
proof (cases rule: system_step_cases)
  case idle
  then show ?thesis using b by simp
next
  case (stored s flight n provided inputs)
  then show ?thesis using b by (simp add: budgets_def end_evaluation_state decided_for_def admission_times_def)
next
  case (admitted s flight r now s1 c g)
  let ?a = "agent_of_request r (rg_agent_version g)"
  from admitted(10) show ?thesis
  proof (cases rule: reserve_cycle_cases)
    case (granted selected)
    note s1 = granted(7)
    have agent_c: "agent_of_cycle c = ?a" using admitted(11,12) by (simp add: agent_of_cycle_def)
    show ?thesis
    proof (cases "?a = agent")
      case False
      then have ne: "\<not> (eq_workspace_id r = fst agent \<and> av_agent_id (rg_agent_version g) = snd agent)"
        by (auto simp: agent_of_request_def prod_eq_iff)
      have times: "admission_times agent (events @ es) = admission_times agent events"
        using False agent_c admitted(4) by (simp add: admission_times_def)
      have dec: "decided_for agent day (events @ es) = decided_for agent day events" for day
        using False agent_c admitted(4) by (simp add: decided_for_def)
      have "get0 (rs_counts s1) (fst agent, snd agent, day) = get0 (rs_counts s) (fst agent, snd agent, day)" for day
        using ne by (auto simp: s1)
      moreover have "map_of (rs_last s1) agent = map_of (rs_last s) agent" using False by (simp add: s1 update_conv)
      moreover have "rs_registrations s1 = rs_registrations s" by (simp add: s1)
      ultimately show ?thesis using b by (simp add: budgets_def times dec admitted(1,3))
    next
      case True
      have a: "fst agent = eq_workspace_id r" "snd agent = av_agent_id (rg_agent_version g)" using True by (auto simp: agent_of_request_def)
      have "registered_for R agent (sp_schedule (av_spec (rg_agent_version g)))"
        using b admitted(1,5,6) a by (auto simp: registered_for_def budgets_def)
      then have sched: "n \<le> sc_decision_interval_seconds (sp_schedule (av_spec (rg_agent_version g)))"
          "sc_decision_interval_seconds (sp_schedule (av_spec (rg_agent_version g))) \<le> 86400"
          "sc_max_decisions_per_day (sp_schedule (av_spec (rg_agent_version g))) \<le> m" "0 < n"
        using lim by (auto simp: limits_hold_def)
      let ?ts = "admission_times agent events"
      have "?ts = [] \<or> List.last ?ts + seconds n \<le> now"
      proof (cases ?ts)
        case (Cons t ts)
        then have "map_of (rs_last s) agent = Some (List.last ?ts)" using b admitted(1) by (simp add: budgets_def)
        then have "\<not> below_int (total_seconds (now - List.last ?ts)) (sc_decision_interval_seconds (sp_schedule (av_spec (rg_agent_version g))))"
          using granted(3) True by simp
        from total_seconds_at_least[OF this] sched show ?thesis by (simp add: seconds_def)
      qed simp
      then have sp: "spaced n (?ts @ [now])" using b sched(4) by (intro spaced_append) (auto simp: budgets_def)
      have times: "admission_times agent (events @ es) = ?ts @ [now]"
        using True agent_c admitted(4,14) by (simp add: admission_times_def)
      have dec: "decided_for agent day (events @ es) = decided_for agent day events + (if date_of now = day then int (length (cl_selected c)) else 0)" for day
        using True agent_c admitted(4,14) by (auto simp: decided_for_def)
      have sel: "selected = cl_selected c" using granted(1) by simp
      have "decided_for agent day (events @ es) \<le> m" for day
      proof (cases "date_of now = day")
        case True
        have "get0 (rs_counts s) (eq_workspace_id r, av_agent_id (rg_agent_version g), day) = decided_for agent day events"
          using b admitted(1) a by (simp add: budgets_def)
        then show ?thesis using granted(4) sched(3) True by (simp add: dec sel)
      next
        case False
        then show ?thesis using b by (simp add: dec budgets_def)
      qed
      moreover have "get0 (rs_counts s1) (fst agent, snd agent, day) = decided_for agent day (events @ es)" for day
        using b admitted(1) a by (simp add: s1 dec sel budgets_def)
      moreover have "map_of (rs_last s1) agent = Some now" using True by (simp add: s1 update_conv)
      ultimately show ?thesis using b sp admitted(1,3) s1 by (simp add: budgets_def times split: list.splits)
    qed
  qed simp
qed

section \<open>The cache of evaluations\<close>

definition evaluation_key :: "cycle \<Rightarrow> string \<times> string" where
  "evaluation_key c = cache_key (cl_request c)"

text \<open>
  An entry without a result belongs to the cycle in flight; a stored result is the one that was returned; a key is admitted once.
\<close>

definition cache_ok :: "int \<Rightarrow> runtime_system \<Rightarrow> runtime_event list \<Rightarrow> bool" where
  "cache_ok capacity sys events \<longleftrightarrow> rs_capacity (fst sys) = capacity \<and> int (length (rs_cache (fst sys))) \<le> capacity \<and>
     distinct (map evaluation_key (snd sys)) \<and>
     (\<forall>c\<in>set (snd sys). map_of (rs_cache (fst sys)) (evaluation_key c) = Some (cl_request_hash c, None)) \<and>
     (\<forall>k h. map_of (rs_cache (fst sys)) k = Some (h, None) \<longrightarrow> k \<in> evaluation_key ` set (snd sys)) \<and>
     (\<forall>c result. Cycle_stored c result \<in> set events \<longrightarrow>
        map_of (rs_cache (fst sys)) (evaluation_key c) = Some (cl_request_hash c, Some result)) \<and>
     distinct (map evaluation_key (admitted_of events)) \<and>
     (\<forall>c\<in>set (admitted_of events). map_of (rs_cache (fst sys)) (evaluation_key c) \<noteq> None)"

lemma length_update: "length (AList.update k v d) = (if map_of d k = None then Suc (length d) else length d)"
  by (induction d) auto

lemma reserve_cycle_frame:
  assumes "reserve_cycle s r g request_digest now candidates = (s', Inr selected)"
  shows "rs_registrations s' = rs_registrations s" "rs_capacity s' = rs_capacity s" "int (length (rs_cache s)) < rs_capacity s"
    "map_of (rs_cache s) (cache_key r) = None" "rs_cache s' = AList.update (cache_key r) (request_digest, None) (rs_cache s)"
  using assms by (auto simp: reserve_cycle_def Let_def split: if_split_asm option.splits)

lemma cache_step:
  assumes ok: "cache_ok capacity sys events" and step: "system_step H dump sys call = (sys', es)"
  shows "cache_ok capacity sys' (events @ es)"
  using step
proof (cases rule: system_step_cases)
  case idle
  then show ?thesis using ok by simp
next
  case (admitted s flight r now s1 c g)
  note f = reserve_cycle_frame[OF admitted(10)]
  have key: "evaluation_key c = cache_key r" "cl_request_hash c = H (HashRequest r)" using admitted(11,13) by (simp_all add: evaluation_key_def)
  have fresh: "evaluation_key x \<noteq> cache_key r" if "x \<in> set flight \<or> Cycle_stored x result \<in> set events \<or> x \<in> set (admitted_of events)" for x result
  proof
    assume "evaluation_key x = cache_key r"
    then have none: "map_of (rs_cache s) (evaluation_key x) = None" using f(4) by simp
    have entry: "\<forall>y\<in>set flight. map_of (rs_cache s) (evaluation_key y) \<noteq> None" "\<forall>y res. Cycle_stored y res \<in> set events \<longrightarrow> map_of (rs_cache s) (evaluation_key y) \<noteq> None"
        "\<forall>y\<in>set (admitted_of events). map_of (rs_cache s) (evaluation_key y) \<noteq> None"
      using ok admitted(1) by (simp_all add: cache_ok_def)
    from that show False
    proof (elim disjE)
      assume "Cycle_stored x result \<in> set events"
      then show False using entry(2) none by blast
    qed (use entry none in blast)+
  qed
  show ?thesis
    using ok f fresh unfolding cache_ok_def admitted(1,3,4)
    by (auto simp: key update_conv' length_update image_iff split: if_split_asm)
next
  case (stored s flight n provided inputs)
  let ?c = "flight ! n"
  let ?result = "fst (run_cycle H dump ?c provided inputs)"
  have split: "flight = take n flight @ ?c # drop (Suc n) flight" using stored(2) by (simp add: id_take_nth_drop)
  have here: "?c \<in> set flight" using stored(2) by simp
  have own: "map_of (rs_cache s) (evaluation_key ?c) = Some (cl_request_hash ?c, None)" using ok here stored(1) by (auto simp: cache_ok_def)
  have others: "evaluation_key ?c \<notin> evaluation_key ` set (take n flight @ drop (Suc n) flight)" "distinct (map evaluation_key (take n flight @ drop (Suc n) flight))"
  proof -
    have "distinct (map evaluation_key (take n flight @ ?c # drop (Suc n) flight))" using ok stored(1) split by (simp add: cache_ok_def)
    then show "evaluation_key ?c \<notin> evaluation_key ` set (take n flight @ drop (Suc n) flight)" "distinct (map evaluation_key (take n flight @ drop (Suc n) flight))"
      by auto
  qed
  have rest: "x \<in> set flight" if "x \<in> set (take n flight @ drop (Suc n) flight)" for x
    using that by (auto dest: in_set_takeD in_set_dropD)
  have past: "evaluation_key x \<noteq> evaluation_key ?c" if "Cycle_stored x result \<in> set events" for x result
  proof -
    have "map_of (rs_cache s) (evaluation_key x) = Some (cl_request_hash x, Some result)" using ok that stored(1) by (simp add: cache_ok_def)
    then show ?thesis using own by auto
  qed
  have cover: "k \<in> evaluation_key ` set (take n flight @ drop (Suc n) flight)" if "k \<in> evaluation_key ` set flight" "k \<noteq> evaluation_key ?c" for k
  proof -
    have "set flight = insert ?c (set (take n flight @ drop (Suc n) flight))"
      by (subst split) auto
    then show ?thesis using that by auto
  qed
  let ?s1 = "fst (end_evaluation H dump s ?c provided inputs)"
  have cache: "rs_cache ?s1 = AList.update (evaluation_key ?c) (cl_request_hash ?c, Some ?result) (rs_cache s)" "rs_capacity ?s1 = rs_capacity s"
    by (simp_all add: end_evaluation_def evaluation_key_def split: prod.splits)
  have len: "length (rs_cache ?s1) = length (rs_cache s)" using own by (simp add: cache length_update)
  have "\<forall>x\<in>set (take n flight @ drop (Suc n) flight). map_of (rs_cache ?s1) (evaluation_key x) = Some (cl_request_hash x, None)"
  proof
    fix x assume x: "x \<in> set (take n flight @ drop (Suc n) flight)"
    then have "evaluation_key x \<in> evaluation_key ` set (take n flight @ drop (Suc n) flight)" by (rule imageI)
    then have "evaluation_key x \<noteq> evaluation_key ?c" using others(1) by metis
    then show "map_of (rs_cache ?s1) (evaluation_key x) = Some (cl_request_hash x, None)"
      using ok rest[OF x] stored(1) by (simp add: cache update_conv' cache_ok_def)
  qed
  moreover have "\<forall>k h. map_of (rs_cache ?s1) k = Some (h, None) \<longrightarrow> k \<in> evaluation_key ` set (take n flight @ drop (Suc n) flight)"
  proof (intro allI impI)
    fix k h assume k: "map_of (rs_cache ?s1) k = Some (h, None)"
    then have "k \<noteq> evaluation_key ?c" "map_of (rs_cache s) k = Some (h, None)" by (auto simp: cache update_conv' split: if_split_asm)
    then show "k \<in> evaluation_key ` set (take n flight @ drop (Suc n) flight)" using cover ok stored(1) by (auto simp: cache_ok_def)
  qed
  moreover have "\<forall>x result. Cycle_stored x result \<in> set (events @ es) \<longrightarrow>
      map_of (rs_cache ?s1) (evaluation_key x) = Some (cl_request_hash x, Some result)"
    using ok past stored(1) by (auto simp: stored(5) cache update_conv' cache_ok_def)
  moreover have "\<forall>x\<in>set (admitted_of (events @ es)). map_of (rs_cache ?s1) (evaluation_key x) \<noteq> None"
    using ok stored(1) by (auto simp: stored(5) cache update_conv' cache_ok_def)
  moreover have "distinct (map evaluation_key (admitted_of (events @ es)))" "int (length (rs_cache ?s1)) \<le> capacity" "rs_capacity ?s1 = capacity"
    using ok len cache(2) stored(1) by (auto simp: stored(5) cache_ok_def)
  ultimately show ?thesis using others(2) by (simp add: cache_ok_def stored(4))
qed

section \<open>Any sequence of evaluations\<close>

definition runtime_ok ::
    "(string \<times> runtime_registration) list \<Rightarrow> int \<Rightarrow> string \<times> string \<Rightarrow> int \<Rightarrow> int \<Rightarrow> runtime_system \<Rightarrow> runtime_event list \<Rightarrow> bool" where
  "runtime_ok regs capacity agent n m sys events \<longleftrightarrow> cache_ok capacity sys events \<and> rs_registrations (fst sys) = regs \<and>
     (limits_hold regs agent n m \<longrightarrow> budgets regs agent n m sys events)"

lemma system_step_registrations: "system_step H dump sys call = (sys', es) \<Longrightarrow> rs_registrations (fst sys') = rs_registrations (fst sys)"
  by (erule system_step_cases) (auto simp: end_evaluation_state dest: reserve_cycle_frame(1))

interpretation evaluations: event_sourced "system_step H dump" "\<lambda>events e. events @ [e]" "runtime_ok regs capacity agent n m"
  for H dump regs capacity agent n m
proof unfold_locales
  fix sys events call sys' es
  assume ok: "runtime_ok regs capacity agent n m sys events" and step: "system_step H dump sys call = (sys', es)"
  have fold: "foldl (\<lambda>events e. events @ [e]) b xs = b @ xs" for b xs :: "runtime_event list" by (induction xs arbitrary: b) simp_all
  show "runtime_ok regs capacity agent n m sys' (foldl (\<lambda>events e. events @ [e]) events es)"
    using ok cache_step[OF _ step] budgets_step[OF _ _ step] system_step_registrations[OF step] by (simp add: fold runtime_ok_def)
qed

lemma runtime_init_ok:
  assumes "runtime_init H prompt_hash environment registrations capacity = Inr s"
  shows "runtime_ok (rs_registrations s) capacity agent n m (s, []) []"
proof -
  have s: "rs_capacity s = capacity" "rs_cache s = []" "rs_counts s = []" "rs_last s = []" "1 \<le> capacity"
    using assms by (auto simp: runtime_init_def bindE_Inr_iff split: if_split_asm)
  then show ?thesis
    by (auto simp: runtime_ok_def cache_ok_def limits_hold_def budgets_def decided_for_def admission_times_def spaced_def)
qed

lemma runtime_run_ok:
  assumes "runtime_init H prompt_hash environment registrations capacity = Inr s" "system_run H dump (s, []) calls = (sys, events)"
  shows "runtime_ok (rs_registrations s) capacity agent n m sys events"
proof -
  have fold: "foldl (\<lambda>events e. events @ [e]) b xs = b @ xs" for b xs :: "runtime_event list" by (induction xs arbitrary: b) simp_all
  show ?thesis using evaluations.run_simulates[OF runtime_init_ok[OF assms(1)] assms(2)] by (simp add: fold)
qed

end
