(* ===== verification/RuntimeSamples.thy ===== *)
theory RuntimeSamples
  imports RuntimeProps RiskSamples
begin

text \<open>
  A runtime with one agent version, and one evaluation of its account. The hash function tells the requests of the
  sample cycle from those with another horizon and names decisions by their instrument.
\<close>

definition runtime_hash :: "runtime_artefact \<Rightarrow> string" where
  "runtime_hash a = (case a of HashRequest q \<Rightarrow> if eq_horizon_minutes q = 60 then ''first'' else ''other''
     | HashDecision request_digest instrument \<Rightarrow> ''sha256:btc'' | _ \<Rightarrow> ''h'')"

definition sample_features :: feature_vector where
  "sample_features = \<lparr>fv_instrument_id = btc, fv_feature_set_version = ''f1'', fv_values = [(''momentum'', Dec (-3) 0), (''volume'', Dec 5 (-1))],
     fv_content_hash = ''h''\<rparr>"

definition runtime_snapshot :: market_snapshot where
  "runtime_snapshot = sample_snapshot\<lparr>ms_features := [sample_features]\<rparr>"

definition sample_runtime_policy :: runtime_policy where
  "sample_runtime_policy = \<lparr>ry_scanner = \<lparr>sy_absolute_thresholds = [(''momentum'', Dec 1 0), (''volume'', Dec 2 0)],
       sy_candidate_ttl_ms = 60000, sy_max_candidates = 4\<rparr>,
     ry_max_snapshot_age_ms = 2007, ry_max_portfolio_age_ms = 5000, ry_max_calls_per_cycle = 2,
     ry_allocation_groups = [(i_value btc, ''majors''), (i_value eth, ''majors'')], ry_max_new_allocation_pct = Dec 10 0,
     ry_max_group_exposure_pct = Dec 15 0, ry_fee_buffer_bps = Dec 25 0\<rparr>"

definition runtime_sample_registration :: runtime_registration where
  "runtime_sample_registration = \<lparr>rg_agent_version = sample_version, rg_model_policy = \<lparr>mp_profile = ReasonBalanced, mp_timeout_seconds = 30\<rparr>,
     rg_policy = sample_runtime_policy, rg_pinned_model_identifier = None\<rparr>"

definition sample_evaluation :: "int \<Rightarrow> evaluation_request" where
  "sample_evaluation horizon = \<lparr>eq_workspace_id = ''ws'', eq_agent_version_id = ''av'', eq_idempotency_key = ''cycle-1'', eq_horizon_minutes = horizon,
     eq_snapshot = runtime_snapshot, eq_portfolio = sample_portfolio, eq_evidence = [sample_evidence]\<rparr>"

definition sample_runtime :: runtime_state where
  "sample_runtime = \<lparr>rs_registrations = [(''av'', runtime_sample_registration)], rs_capacity = 8, rs_cache = [], rs_counts = [], rs_last = []\<rparr>"

definition sample_proposal :: decision_proposal where
  "sample_proposal = \<lparr>dp_state = Bullish,
     dp_prediction = \<lparr>pr_expected_return_bps = 200, pr_confidence = Dec 6 (-1), pr_uncertainty = Dec 2 (-1), pr_horizon_minutes = 60\<rparr>,
     dp_proposed_action = ActBuy, dp_proposed_notional = Some (usd 80), dp_evidence_refs = [''e1''], dp_contradicting_evidence_refs = [],
     dp_reason_codes = [], dp_estimated_cost_bps = Some (Dec 10 0)\<rparr>"

definition sample_call :: model_call_record where
  "sample_call = \<lparr>mc_profile = ReasonBalanced, mc_resolved_model_identifier = ''m'', mc_prompt_hash = ''h'', mc_input_tokens = 10,
     mc_output_tokens = 10, mc_cost = usd 0, mc_latency_ms = 5, mc_tool_calls = 0, mc_schema_validation_failed = False, mc_scope = None,
     mc_request_hash = None, mc_output_hash = None, mc_schema_hash = None, mc_route_hash = None, mc_outcome = None,
     mc_usage_known = True, mc_cost_is_reservation = False\<rparr>"

definition sample_input :: "candidate \<Rightarrow> candidate_input" where
  "sample_input x = \<lparr>ci_started_at = Some 1000000, ci_answer = Replied_with sample_proposal sample_call, ci_decided_at = Some 1100000\<rparr>"

abbreviation sample_dump :: "analysis_input \<Rightarrow> string" where
  "sample_dump \<equiv> (\<lambda>facts. ''{}'')"

definition sample_calls :: "runtime_call list" where
  "sample_calls = [Begin_call (sample_evaluation 60) (Some 1000000), End_call 0 (Some []) sample_input]"

definition sample_run :: "runtime_system \<times> runtime_event list" where
  "sample_run = system_run runtime_hash sample_dump (sample_runtime, []) sample_calls"

lemma sample_init: "runtime_init runtime_hash (\<lambda>profile. ''h'') ''local'' [runtime_sample_registration] 8 = Inr sample_runtime"
  by code_simp

definition sample_cycle :: cycle where
  "sample_cycle =
     (let cs = [\<lparr>ca_instrument_id = btc, ca_interest_score = Dec 75 (-2), ca_reasons = [''momentum''], ca_expires_at = 60900000\<rparr>]
      in \<lparr>cl_request = sample_evaluation 60, cl_registration = runtime_sample_registration, cl_request_hash = ''first'', cl_now = 1000000,
           cl_candidates = cs, cl_selected = cs\<rparr>)"

definition sample_begun :: runtime_state where
  "sample_begun = sample_runtime\<lparr>rs_counts := [((''ws'', ''ag'', 0), 1)], rs_last := [((''ws'', ''ag''), 1000000)],
     rs_cache := [((''ws'', ''cycle-1''), (''first'', None))]\<rparr>"

lemma sample_begins: "begin_evaluation runtime_hash sample_runtime (sample_evaluation 60) (Some 1000000) = (sample_begun, Admitted_cycle sample_cycle)"
  by code_simp

definition sample_result :: evaluation_result where
  "sample_result = fst (run_cycle runtime_hash sample_dump sample_cycle (Some []) sample_input)"

definition sample_final :: runtime_state where
  "sample_final = sample_begun\<lparr>rs_cache := [((''ws'', ''cycle-1''), (''first'', Some sample_result))]\<rparr>"

lemma sample_ran: "sample_run = ((sample_final, []), [Cycle_admitted sample_cycle, Cycle_stored sample_cycle sample_result])"
proof -
  have "rs_cache sample_begun = [((''ws'', ''cycle-1''), (''first'', None))]" "cache_key (cl_request sample_cycle) = (''ws'', ''cycle-1'')"
    "cl_request_hash sample_cycle = ''first''" by code_simp+
  then have "fst (end_evaluation runtime_hash sample_dump sample_begun sample_cycle (Some []) sample_input) = sample_final"
    by (simp add: end_evaluation_def sample_final_def sample_result_def split: prod.splits)
  then show ?thesis
    by (simp add: sample_run_def sample_calls_def system_step_def sample_begins sample_result_def)
qed

definition completed_trades :: "evaluation_result \<Rightarrow> bool" where
  "completed_trades r \<longleftrightarrow> es_status r = Completed \<and> es_decisions r \<noteq> [] \<and> list_all (\<lambda>d. requires_order (ad_proposed_action d)) (es_decisions r)"

lemma sample_completed: "completed_trades sample_result"
  by code_simp

end
