(* ===== verification/RuntimeTheorems.thy ===== *)
theory RuntimeTheorems
  imports RuntimeSamples
begin

text \<open>The properties of the agent runtime, each with a witness at the sample cycle.\<close>

section \<open>The allocation\<close>

lemma allocated_nothing: "list_all (\<lambda>a. amount_of a = 0) as \<Longrightarrow> allocated_where P ds as = 0"
  by (induction ds as rule: list_induct2') (auto simp: allocated_where_def)

lemma held_value_le: "p \<in> set ps \<Longrightarrow> held_value p \<le> held_where (\<lambda>p. True) ps"
  by (induction ps) (auto simp: add_increasing add_increasing2)

lemma held_where_grid: "list_all (\<lambda>q. on_grid (held_value q)) ps \<Longrightarrow> on_grid (held_where P ps)"
  by (induction ps) (auto simp: on_grid_add)

text \<open>What a reader of the allocations relies on: where the code reads amounts in 28 digits, nothing is lost.\<close>

definition portfolio_in_range :: "portfolio_snapshot \<Rightarrow> bool" where
  "portfolio_in_range p \<longleftrightarrow> dec_val (m_amount (pf_equity p)) \<le> 10 ^ 15 \<and> dec_val (available_cash p) \<le> 10 ^ 15 \<and>
     list_all (\<lambda>q. on_grid (held_value q)) (pf_positions p) \<and> held_where (\<lambda>q. True) (pf_positions p) < 10 ^ 16"

lemma allocation_bounds:
  assumes "allocate hash ds p policy = Inr po" "runtime_policy_error policy = None" "portfolio_error p = None"
    and "\<forall>d\<in>set ds. decision_error d = None" "portfolio_in_range p"
  shows "allocated_where buys (ranked (proposals_of ds)) (po_allocations po) \<le> max 0 (dec_val (available_cash p))" (is ?cash)
    and "allocated_where buys (ranked (proposals_of ds)) (po_allocations po) \<le> dec_val (equity_share p (ry_max_new_allocation_pct policy))" (is ?new)
    and "held_where (position_in policy g) (pf_positions p) + allocated_where (buys_into policy g) (ranked (proposals_of ds)) (po_allocations po)
      \<le> max (held_where (position_in policy g) (pf_positions p)) (dec_val (equity_share p (ry_max_group_exposure_pct policy)))" (is ?group)
    and "allocated_where (sells_of k) (ranked (proposals_of ds)) (po_allocations po) \<le> held_where (position_at k) (pf_positions p)" (is ?sales)
proof -
  let ?rs = "ranked (proposals_of ds)"
  let ?ps = "pf_positions p"
  obtain x s where x: "read_positions policy \<lparr>xo_reasons = portfolio_reasons p, xo_positions = [], xo_groups = []\<rparr> ?ps = Inr x"
    and all: "allocate_all policy (xo_reasons x) (terms_of p policy) (opening_funds p policy x) ?rs = Inr (s, po_allocations po)"
    by (rule allocateE[OF assms(1)])
  have range: "dec_val (m_amount (pf_equity p)) \<le> 10 ^ 15" "dec_val (available_cash p) \<le> 10 ^ 15"
    "list_all (\<lambda>q. on_grid (held_value q)) ?ps" "held_where (\<lambda>q. True) ?ps < 10 ^ 16"
    using assms(5) by (simp_all add: portfolio_in_range_def)
  have pct: "percent_ok (ry_max_new_allocation_pct policy)" "percent_ok (ry_max_group_exposure_pct policy)"
    using assms(2) by (auto simp: runtime_policy_error_def split: if_split_asm)
  note new = equity_share_bounds[OF pct(1) range(1)] and cap = equity_share_bounds[OF pct(2) range(1)]
  note terms = terms_of_ok[OF assms(2) range(1)]
  have empty: "amount_at k [] = dec_zero" for k by (simp add: amount_at_def)
  have "?cash \<and> ?new \<and> ?group \<and> ?sales"
  proof (cases "xo_reasons x = []")
    case False
    then have "list_all (\<lambda>a. amount_of a = 0) (po_allocations po)" using allocate_all_for[OF all] by simp
    then show "?cash \<and> ?new \<and> ?group \<and> ?sales" using new(1) by (simp add: allocated_nothing)
  next
    case True
    let ?f = "opening_funds p policy x"
    have groups: "dec_val (amount_at h (xo_groups x)) = held_where (position_in policy h) ?ps" for h
      using read_positions_groups[OF x True range(3), of h] range(4) by (simp add: empty)
    have "distinct (map (\<lambda>q. i_value (pos_instrument_id q)) ?ps)"
      using assms(3) by (auto simp: portfolio_error_def split: if_split_asm)
    then have held: "dec_val (amount_at k (xo_positions x)) = held_where (position_at k) ?ps" for k
      using read_positions_positions[OF x True, of k] by (simp add: empty)
    have small: "list_all (\<lambda>q. held_value q < 10 ^ 16) ?ps" using held_value_le range(4) by (fastforce simp: list_all_iff intro: le_less_trans)
    have "funds_ok ?f"
      using read_positions_representable[OF x small] by (intro opening_funds_ok[OF assms(2) range(1)]) (simp add: empty)
    then have pos: "positions_ok ?f" by (simp add: funds_ok_def)
    have grid: "on_grid (held_where P ?ps)" for P using range(3) by (rule held_where_grid)
    have gr: "groups_ok ?f"
      using grid range(4) held_where_mono[of _ ?ps] by (auto simp: groups_ok_def opening_funds_def groups intro: le_less_trans)
    have cash: "dec_val (fu_cash ?f) = max 0 (dec_val (available_cash p))" by (simp add: opening_funds_def dec_max_val)
    have ?cash
      using cash_covers_buys[OF all terms, of "max 0 (dec_val (available_cash p))"] range(2) cash
        representable_max0[of "available_cash p"]
      by (simp add: dec_max_val available_cash_def)
    moreover have ?new
      using budget_covers_buys[OF all, of "dec_val (equity_share p (ry_max_new_allocation_pct policy))"] new
      by (simp add: opening_funds_def)
    moreover have ?group using cap_covers_buys[OF all terms gr, of g] by (simp add: opening_funds_def terms_of_def groups)
    moreover have ?sales
      using positions_cover_sales[OF all pos proposals_ok[OF assms(4)], of k] by (simp add: opening_funds_def held)
    ultimately show "?cash \<and> ?new \<and> ?group \<and> ?sales" by blast
  qed
  then show ?cash ?new ?group ?sales by simp_all
qed

lemma ranked_mset:
  assumes "mset ds = mset ds'" "distinct (map ad_decision_id ds)"
  shows "ranked (proposals_of ds) = ranked (proposals_of ds')"
proof -
  have eq: "mset (proposals_of ds) = mset (proposals_of ds')" using assms(1) by (simp add: proposals_of_def)
  have "inj_on ad_decision_id (set ds)" using assms(2) by (simp add: distinct_map)
  then have "inj_on rank_key (set (proposals_of ds))" by (auto simp: inj_on_def rank_key_def proposals_of_def)
  moreover have "mset (proposals_of ds) = mset (ranked (proposals_of ds'))" using eq by (simp add: ranked_def)
  ultimately show ?thesis unfolding ranked_def[of "proposals_of ds"]
    by (intro sort_key_inj_key_eq) (simp_all add: ranked_def)
qed

lemma read_positions_answers:
  "\<forall>q\<in>set ps. \<forall>m. pos_mark_price q = Some m \<longrightarrow> q_asset (pos_quantity q) = p_base m \<Longrightarrow> \<exists>x'. read_positions policy x ps = Inr x'"
proof (induction ps arbitrary: x)
  case (Cons q ps)
  have "\<exists>x1. read_position policy x q = Inr x1"
    using Cons.prems by (auto simp: read_position_def Let_def market_value_def split: option.splits)
  then show ?case using Cons by (auto simp: bindE_Inr_iff)
qed simp

lemma allocation_returned:
  assumes "runtime_policy_error policy = None" "\<forall>d\<in>set ds. decision_error d = None" "portfolio_in_range p"
    and "\<forall>q\<in>set (pf_positions p). \<forall>m. pos_mark_price q = Some m \<longrightarrow> q_asset (pos_quantity q) = p_base m"
  shows "\<exists>po. allocate hash ds p policy = Inr po \<and> list_all2 allocation_for (ranked (proposals_of ds)) (po_allocations po) \<and>
    (po_reason_codes po \<noteq> [] \<longrightarrow> list_all (\<lambda>a. amount_of a = 0) (po_allocations po))"
proof -
  obtain x where x: "read_positions policy \<lparr>xo_reasons = portfolio_reasons p, xo_positions = [], xo_groups = []\<rparr> (pf_positions p) = Inr x"
    using read_positions_answers[OF assms(4)] by blast
  have range: "dec_val (m_amount (pf_equity p)) \<le> 10 ^ 15" "held_where (\<lambda>q. True) (pf_positions p) < 10 ^ 16"
    using assms(3) by (simp_all add: portfolio_in_range_def)
  have "list_all (\<lambda>q. held_value q < 10 ^ 16) (pf_positions p)"
    using held_value_le range(2) by (fastforce simp: list_all_iff intro: le_less_trans)
  then have "funds_ok (opening_funds p policy x)"
    using read_positions_representable[OF x] by (intro opening_funds_ok[OF assms(1) range(1)]) (simp add: amount_at_def)
  then obtain s as where all: "allocate_all policy (xo_reasons x) (terms_of p policy) (opening_funds p policy x) (ranked (proposals_of ds)) = Inr (s, as)"
    using allocate_all_answers[OF _ proposals_ok[OF assms(2)]] by blast
  let ?po = "\<lparr>po_portfolio_hash = hash p, po_allocations = as, po_reason_codes = dedupe (xo_reasons x)\<rparr>"
  have "allocate hash ds p policy = Inr ?po" by (simp add: allocate_def x all)
  moreover have "dedupe (xo_reasons x) \<noteq> [] \<Longrightarrow> xo_reasons x \<noteq> []" by auto
  ultimately show ?thesis using allocate_all_for[OF all] by (intro exI[of _ ?po]) auto
qed

text \<open>
  C12. For decisions, a policy and a portfolio that validate, and values in range, the buys of an allocation stay within the
  available cash and the share of the equity for new positions, a group with what it already holds stays within its cap or
  takes nothing, and sales of an instrument stay within the position.
\<close>

theorem allocation_fits_portfolio:
  assumes "allocate hash ds p policy = Inr po" "runtime_policy_error policy = None" "portfolio_error p = None"
    and "\<forall>d\<in>set ds. decision_error d = None" "portfolio_in_range p"
  shows "let rs = ranked (proposals_of ds); as = po_allocations po; ps = pf_positions p in
    allocated_where buys rs as \<le> max 0 (dec_val (available_cash p)) \<and>
    allocated_where buys rs as \<le> dec_val (equity_share p (ry_max_new_allocation_pct policy)) \<and>
    (\<forall>g. held_where (position_in policy g) ps + allocated_where (buys_into policy g) rs as
      \<le> max (held_where (position_in policy g) ps) (dec_val (equity_share p (ry_max_group_exposure_pct policy)))) \<and>
    (\<forall>k. allocated_where (sells_of k) rs as \<le> held_where (position_at k) ps)"
  using allocation_bounds[OF assms] by (simp add: Let_def)

definition sample_decision :: "string \<Rightarrow> proposed_action \<Rightarrow> instrument_id \<Rightarrow> agent_decision" where
  "sample_decision did action i = \<lparr>ad_decision_id = did, ad_workspace_id = ''ws'', ad_agent_version_id = ''av'', ad_snapshot_id = ''s1'',
     ad_instrument_id = i, ad_decided_at = 0, ad_state = Bullish, ad_prediction = dp_prediction sample_proposal,
     ad_proposed_action = action, ad_proposed_notional = Some (usd 80), ad_evidence_refs = [], ad_contradicting_evidence_refs = [],
     ad_estimated_cost_bps = Some (Dec 10 0)\<rparr>"

definition sample_decisions :: "agent_decision list" where
  "sample_decisions = [sample_decision ''d2'' ActBuy eth, sample_decision ''d1'' ActBuy btc, sample_decision ''d3'' ActSell eth]"

lemma sample_in_range: "portfolio_in_range sample_portfolio"
proof -
  have "dec_val (Dec 100 0) = of_int (100 * 10 ^ 12) * 10 powi -12" by (simp add: dec_val_def power_int_def power_one_over)
  moreover have "held_value sample_position = dec_val (Dec 100 0)" "m_amount (pf_equity sample_portfolio) = Dec 1000 0"
      "available_cash sample_portfolio = Dec 900 0" "pf_positions sample_portfolio = [sample_position]"
    by code_simp+
  moreover have "dec_val (Dec 100 0) = 100" "dec_val (Dec 1000 0) = 1000" "dec_val (Dec 900 0) = 900" by (simp_all add: dec_val_def)
  ultimately show ?thesis unfolding portfolio_in_range_def on_grid_def by (auto simp del: of_int_mult)
qed

lemma sample_decisions_ok: "\<forall>d\<in>set sample_decisions. decision_error d = None"
  "runtime_policy_error sample_runtime_policy = None" "portfolio_error sample_portfolio = None"
  by code_simp+

lemma sample_marks: "\<forall>q\<in>set (pf_positions sample_portfolio). \<forall>m. pos_mark_price q = Some m \<longrightarrow> q_asset (pos_quantity q) = p_base m"
proof -
  have "pf_positions sample_portfolio = [sample_position]" "q_asset (pos_quantity sample_position) = ''ETH''"
    "map_option p_base (pos_mark_price sample_position) = Some ''ETH''" by code_simp+
  then show ?thesis by auto
qed

theorem allocation_fits_portfolio_witness:
  "\<exists>po. allocate (\<lambda>p. ''h'') sample_decisions sample_portfolio sample_runtime_policy = Inr po \<and>
     allocated_where buys (ranked (proposals_of sample_decisions)) (po_allocations po) \<le> max 0 (dec_val (available_cash sample_portfolio))"
proof -
  obtain po where po: "allocate (\<lambda>p. ''h'') sample_decisions sample_portfolio sample_runtime_policy = Inr po"
    using allocation_returned[OF sample_decisions_ok(2,1) sample_in_range sample_marks] by blast
  show ?thesis using allocation_fits_portfolio[OF po sample_decisions_ok(2,3,1) sample_in_range] po by (simp add: Let_def)
qed



text \<open>
  C19. The order in which the decisions of a cycle arrive does not matter: decisions with distinct ids are allocated in the
  same way in any order.
\<close>

theorem allocation_ignores_order:
  assumes "mset ds = mset ds'" "distinct (map ad_decision_id ds)"
  shows "allocate hash ds p policy = allocate hash ds' p policy"
  by (simp add: allocate_def ranked_mset[OF assms])

theorem allocation_ignores_order_witness:
  "allocate (\<lambda>p. ''h'') sample_decisions sample_portfolio sample_runtime_policy =
     allocate (\<lambda>p. ''h'') (rev sample_decisions) sample_portfolio sample_runtime_policy \<and> rev sample_decisions \<noteq> sample_decisions"
proof -
  have "distinct (map ad_decision_id sample_decisions)" "map ad_decision_id (rev sample_decisions) \<noteq> map ad_decision_id sample_decisions"
    by code_simp+
  then show ?thesis using allocation_ignores_order[of sample_decisions "rev sample_decisions"] by auto
qed

end
