(* ===== verification/RuntimeEvaluations.thy ===== *)
theory RuntimeEvaluations
  imports RuntimeSamples
begin

text \<open>The properties of the scan, of the checks of a request, of a cycle and of sequences of evaluations.\<close>

section \<open>The scan\<close>

lemma candidates_scanned:
  assumes "thresholds_ok policy"
  shows "\<exists>cs. scan snapshot version policy = Inr cs \<and> int (length cs) \<le> sy_max_candidates policy \<and>
    list_all (candidate_ok snapshot version policy) cs \<and> sorted (map scan_key cs)"
proof -
  obtain cs where cs: "candidates_of snapshot version policy (ms_features snapshot) = Inr cs" "list_all (candidate_ok snapshot version policy) cs"
    using candidates_of_answers[OF assms, of "ms_features snapshot" snapshot version] by auto
  let ?top = "take (nat (sy_max_candidates policy)) (sort_key scan_key cs)"
  have "scan snapshot version policy = Inr ?top" by (simp add: scan_def cs(1))
  moreover have "int (length ?top) \<le> sy_max_candidates policy"
    using assms by (auto simp: thresholds_ok_def scanner_policy_error_def split: if_split_asm)
  moreover have "list_all (candidate_ok snapshot version policy) ?top" using cs(2) by (auto simp: list_all_iff dest: in_set_takeD)
  moreover have "sorted (map scan_key ?top)" unfolding take_map[symmetric] by (rule sorted_wrt_take) simp
  ultimately show ?thesis by blast
qed

text \<open>
  C20. With a valid policy a scan returns at most the configured number of candidates, best score first. Each is a valid
  candidate of an instrument of the universe whose features reach a threshold, or all are when scanning is off.
\<close>

theorem scan_answers:
  assumes "thresholds_ok policy"
  shows "\<exists>cs. scan snapshot version policy = Inr cs \<and> int (length cs) \<le> sy_max_candidates policy \<and>
    list_all (candidate_ok snapshot version policy) cs \<and> sorted (map scan_key cs)"
  by (rule candidates_scanned[OF assms])

theorem scan_answers_witness:
  "\<exists>cs. scan runtime_snapshot sample_version (ry_scanner sample_runtime_policy) = Inr cs \<and> int (length cs) \<le> 4 \<and> cs \<noteq> []"
proof -
  have "thresholds_ok (ry_scanner sample_runtime_policy)" by code_simp
  moreover have "case scan runtime_snapshot sample_version (ry_scanner sample_runtime_policy) of Inr cs \<Rightarrow> cs \<noteq> [] | Inl e \<Rightarrow> False" by code_simp
  moreover have "sy_max_candidates (ry_scanner sample_runtime_policy) = 4" by code_simp
  ultimately show ?thesis
    using scan_answers[of "ry_scanner sample_runtime_policy" runtime_snapshot sample_version] by (auto split: sum.splits)
qed

section \<open>The checks of a request\<close>

lemma not_older_than:
  assumes "\<not> older_than later earlier n" "1 \<le> n" "n \<le> 3600000"
  shows "later - earlier \<le> 1000 * n"
proof (rule ccontr)
  assume "\<not> later - earlier \<le> 1000 * n"
  then have "above_int (elapsed_ms (later - earlier)) n" using assms(2,3) by (intro elapsed_ms_above) simp_all
  then show False using assms(1) by (simp add: older_than_def)
qed

lemma passed_checks: "first_error xs = None \<Longrightarrow> \<forall>c\<in>set xs. \<not> fst c"
  by (auto simp: first_error_None_iff)

lemma input_reason_None:
  assumes "input_reason H r version policy (Some now) = None"
  shows "ms_as_of (eq_snapshot r) \<le> now" "eq_workspace_id r = av_workspace_id version" "pf_workspace_id (eq_portfolio r) = av_workspace_id version"
    "pf_mode (eq_portfolio r) = sp_mode (av_spec version)" "pf_base_currency (eq_portfolio r) = ''USD''"
    "\<forall>q\<in>set (pf_positions (eq_portfolio r)). \<forall>c\<in>set (position_checks r q). \<not> fst c" "\<forall>c\<in>set (portfolio_checks r). \<not> fst c"
    "eq_horizon_minutes r \<in> set (an_horizons_minutes (sp_analysis (av_spec version)))"
    "\<forall>c\<in>set (age_checks r policy now). \<not> fst c" "\<forall>c\<in>set (snapshot_checks H r version). \<not> fst c" "\<forall>c\<in>set (evidence_checks r). \<not> fst c"
  using passed_checks[OF assms[unfolded input_reason_def Let_def option.case]] by (auto simp: not_less)

lemma accepted_ages:
  assumes "input_reason H r version policy (Some now) = None" "runtime_policy_error policy = None"
  shows "let s = eq_snapshot r; p = eq_portfolio r in
    ms_as_of s \<le> now \<and> now - ms_as_of s \<le> 1000 * ry_max_snapshot_age_ms policy \<and>
    pf_as_of p \<le> ms_as_of s \<and> ms_as_of s - pf_as_of p \<le> 1000 * ry_max_portfolio_age_ms policy \<and>
    pf_is_reconciled p \<and> (\<exists>t. pf_reconciled_at p = Some t \<and> t \<le> ms_as_of s \<and> now - t \<le> 1000 * ry_max_portfolio_age_ms policy) \<and>
    (\<forall>e\<in>set (eq_evidence r). ev_ingested_at e \<le> ms_as_of s \<and> ev_observed_at e \<le> ms_as_of s) \<and>
    ms_content_hash s = runtime_snapshot_hash H s"
proof -
  note c = input_reason_None[OF assms(1)]
  have b: "1 \<le> ry_max_snapshot_age_ms policy" "ry_max_snapshot_age_ms policy \<le> 3600000"
      "1 \<le> ry_max_portfolio_age_ms policy" "ry_max_portfolio_age_ms policy \<le> 3600000"
    using assms(2) by (auto simp: runtime_policy_error_def split: if_split_asm)
  have ages: "\<not> older_than now (ms_as_of (eq_snapshot r)) (ry_max_snapshot_age_ms policy)" "pf_as_of (eq_portfolio r) \<le> ms_as_of (eq_snapshot r)"
      "\<not> older_than (ms_as_of (eq_snapshot r)) (pf_as_of (eq_portfolio r)) (ry_max_portfolio_age_ms policy)"
      "pf_is_reconciled (eq_portfolio r)"
      "\<exists>t. pf_reconciled_at (eq_portfolio r) = Some t \<and> t \<le> ms_as_of (eq_snapshot r) \<and> \<not> older_than now t (ry_max_portfolio_age_ms policy)"
    using c(9) by (auto simp: age_checks_def Let_def not_less split: option.splits)
  then show ?thesis
    using c(1,10,11) not_older_than b by (auto simp: Let_def snapshot_checks_def evidence_checks_def list_ex_iff not_less)
qed

text \<open>
  C15. Data that passes the checks of a request is as fresh as the policy demands, to the microsecond, although ages are
  compared as floats: neither the snapshot, nor the portfolio, nor its reconciliation is older than the limit or from the
  future, no evidence is newer than the snapshot, and the snapshot has the hash it claims.
\<close>

theorem accepted_data_is_fresh:
  assumes "input_reason H r version policy (Some now) = None" "runtime_policy_error policy = None"
  shows "let s = eq_snapshot r; p = eq_portfolio r in
    ms_as_of s \<le> now \<and> now - ms_as_of s \<le> 1000 * ry_max_snapshot_age_ms policy \<and>
    pf_as_of p \<le> ms_as_of s \<and> ms_as_of s - pf_as_of p \<le> 1000 * ry_max_portfolio_age_ms policy \<and>
    pf_is_reconciled p \<and> (\<exists>t. pf_reconciled_at p = Some t \<and> t \<le> ms_as_of s \<and> now - t \<le> 1000 * ry_max_portfolio_age_ms policy) \<and>
    (\<forall>e\<in>set (eq_evidence r). ev_ingested_at e \<le> ms_as_of s \<and> ev_observed_at e \<le> ms_as_of s) \<and>
    ms_content_hash s = runtime_snapshot_hash H s"
  by (rule accepted_ages[OF assms])

theorem accepted_data_is_fresh_witness:
  "input_reason runtime_hash (sample_evaluation 60) sample_version sample_runtime_policy (Some 2906999) = None \<and>
   2906999 - ms_as_of (eq_snapshot (sample_evaluation 60)) \<le> 1000 * ry_max_snapshot_age_ms sample_runtime_policy"
proof -
  have "input_reason runtime_hash (sample_evaluation 60) sample_version sample_runtime_policy (Some 2906999) = None"
    "runtime_policy_error sample_runtime_policy = None" by code_simp+
  from accepted_data_is_fresh[OF this] this(1) show ?thesis by (simp add: Let_def)
qed


section \<open>The decisions of a cycle\<close>

text \<open>A decision that trades, as the answer of the model, the facts it was given and the window of the cycle allow it.\<close>

definition supported_decision :: "cycle \<Rightarrow> candidate \<Rightarrow> candidate_input \<Rightarrow> agent_decision \<Rightarrow> bool" where
  "supported_decision c x input d \<longleftrightarrow>
     (let version = rg_agent_version (cl_registration c); needs = sp_evidence (av_spec version);
          refs = ad_evidence_refs d @ ad_contradicting_evidence_refs d; i = ca_instrument_id x in
      (\<exists>p call. ci_answer input = Replied_with p call \<and> ad_proposed_action d = dp_proposed_action p \<and>
         ad_proposed_notional d = dp_proposed_notional p \<and> ad_prediction d = dp_prediction p) \<and>
      ci_decided_at input = Some (ad_decided_at d) \<and> cl_now c \<le> ad_decided_at d \<and> ad_decided_at d < ca_expires_at x \<and>
      \<not> older_than (ad_decided_at d) (ms_as_of (eq_snapshot (cl_request c))) (ry_max_snapshot_age_ms (rg_policy (cl_registration c))) \<and>
      ad_instrument_id d = i \<and> ad_workspace_id d = av_workspace_id version \<and>
      (\<exists>m. ad_proposed_notional d = Some m \<and> m_currency m = i_quote i) \<and>
      (\<exists>cost. ad_estimated_cost_bps d = Some cost \<and> dec_zero \<le> cost) \<and>
      pr_horizon_minutes (ad_prediction d) = eq_horizon_minutes (cl_request c) \<and>
      distinct refs \<and> set refs \<subseteq> ev_evidence_id ` set (eligible_evidence (eq_evidence (cl_request c)) version) \<and>
      er_min_evidence_items needs \<le> int (length refs) \<and> ad_evidence_refs d \<noteq> [] \<and>
      (er_require_contradicting_evidence needs \<longrightarrow> ad_contradicting_evidence_refs d \<noteq> []) \<and> decision_error d = None)"

lemma facts_for_fields:
  assumes "facts_for c eligible contexts x = Some facts"
  shows "ai_instrument facts = ca_instrument_id x" "ai_horizon_minutes facts = eq_horizon_minutes (cl_request c)"
    "set (ai_evidence facts) \<subseteq> set eligible"
proof -
  show "ai_instrument facts = ca_instrument_id x" "ai_horizon_minutes facts = eq_horizon_minutes (cl_request c)"
    using assms by (auto simp: facts_for_def Let_def)
  have "ai_evidence facts = take 64 (relevant_evidence eligible (i_value (ca_instrument_id x)) (i_base (ca_instrument_id x)))"
    using assms by (auto simp: facts_for_def Let_def)
  then show "set (ai_evidence facts) \<subseteq> set eligible" using set_take_subset[of 64] by (fastforce simp: relevant_evidence_def)
qed

lemma judge_answer_trades:
  assumes "judge_answer c facts request answer = Proposal p calls" "requires_order (dp_proposed_action p)"
  obtains call where "answer = Replied_with p call" "calls = [call]" "proposal_reason p facts (rg_agent_version (cl_registration c)) = None"
proof -
  have abstains: "\<not> requires_order (dp_proposed_action (abstain horizon reason))" for horizon reason by (simp add: abstain_def)
  show thesis using assms abstains that
    by (auto simp: judge_answer_def Let_def simp del: requires_order.simps split: option.splits if_split_asm gateway_answer.splits)
qed

lemma bind_decision_fields:
  assumes "bind_decision p version sid facts did decided_at = Inr d"
  shows "ad_proposed_action d = dp_proposed_action p" "ad_proposed_notional d = dp_proposed_notional p" "ad_prediction d = dp_prediction p"
    "ad_evidence_refs d = dp_evidence_refs p" "ad_contradicting_evidence_refs d = dp_contradicting_evidence_refs p"
    "ad_estimated_cost_bps d = dp_estimated_cost_bps p" "ad_instrument_id d = ai_instrument facts" "ad_decided_at d = decided_at"
    "ad_workspace_id d = av_workspace_id version" "decision_error d = None"
  using assms by (auto simp: bind_decision_def Let_def split: option.splits)

lemma proposal_reason_None:
  assumes "proposal_reason p facts version = None" "requires_order (dp_proposed_action p)"
  shows "set (dp_evidence_refs p @ dp_contradicting_evidence_refs p) \<subseteq> ev_evidence_id ` set (ai_evidence facts)"
    "distinct (dp_evidence_refs p @ dp_contradicting_evidence_refs p)"
    "pr_horizon_minutes (dp_prediction p) = ai_horizon_minutes facts"
    "er_min_evidence_items (sp_evidence (av_spec version)) \<le> int (card (set (dp_evidence_refs p @ dp_contradicting_evidence_refs p)))"
    "dp_evidence_refs p \<noteq> []"
    "er_require_contradicting_evidence (sp_evidence (av_spec version)) \<longrightarrow> dp_contradicting_evidence_refs p \<noteq> []"
    "\<exists>m. dp_proposed_notional p = Some m \<and> m_currency m = i_quote (ai_instrument facts)"
    "\<exists>cost. dp_estimated_cost_bps p = Some cost \<and> dec_zero \<le> cost"
  using passed_checks[OF assms(1)[unfolded proposal_reason_def Let_def]] assms(2)
  by (auto simp: not_less list_ex_iff dec_less_val dec_le_val simp del: requires_order.simps split: option.splits)

lemma analyse_trades:
  assumes "analyse H dump c (eligible_evidence (eq_evidence (cl_request c)) (rg_agent_version (cl_registration c))) contexts x input = Decided d calls"
    and order: "requires_order (ad_proposed_action d)"
  shows "supported_decision c x input d"
proof -
  let ?version = "rg_agent_version (cl_registration c)"
  let ?eligible = "eligible_evidence (eq_evidence (cl_request c)) ?version"
  have abstains: "\<not> requires_order (dp_proposed_action (abstain horizon reason))" for horizon reason by (simp add: abstain_def)
  obtain facts started where f: "facts_for c ?eligible contexts x = Some facts" "ci_started_at input = Some started"
    using assms(1) by (auto simp: analyse_def split: option.splits)
  let ?judged = "judge_answer c facts (analysis_request H dump c facts x) (ci_answer input)"
  let ?out = "case skip_reason c (relevant_evidence ?eligible (i_value (ca_instrument_id x)) (i_base (ca_instrument_id x))) facts x started of
      Some reason \<Rightarrow> Proposal (abstain (eq_horizon_minutes (cl_request c)) reason) [] | None \<Rightarrow> ?judged"
  let ?late = "expired_decision c facts x (ci_decided_at input)"
  let ?decided_at = "case ci_decided_at input of None \<Rightarrow> cl_now c | Some t \<Rightarrow> if ?late then max (cl_now c) t else t"
  obtain p calls' where o: "?out = Proposal p calls'"
    and b: "bind_decision (if ?late then abstain (eq_horizon_minutes (cl_request c)) ''decision_expired'' else p) ?version
        (ms_snapshot_id (eq_snapshot (cl_request c))) facts (decision_id_of H c x) ?decided_at = Inr d"
    using assms(1) unfolding analyse_def f prod.case option.case Let_def
    by (cases ?out) (auto split: bool.splits sum.splits)
  note fields = bind_decision_fields[OF b]
  have intime: "\<not> ?late" using fields(1) order abstains by (cases ?late) simp_all
  then have p: "requires_order (dp_proposed_action p)" using fields(1) order by simp
  then have "?judged = Proposal p calls'" using o abstains by (auto split: option.splits simp del: requires_order.simps)
  then obtain call where call: "ci_answer input = Replied_with p call" "proposal_reason p facts ?version = None"
    by (rule judge_answer_trades[OF _ p])
  note r = proposal_reason_None[OF call(2) p] and ff = facts_for_fields[OF f(1)]
  obtain t where t: "ci_decided_at input = Some t" "cl_now c \<le> t" "t < ca_expires_at x"
      "\<not> older_than t (ms_as_of (eq_snapshot (cl_request c))) (ry_max_snapshot_age_ms (rg_policy (cl_registration c)))"
    using intime by (auto simp: expired_decision_def not_less not_le split: option.splits)
  have d: "ad_decided_at d = t" using fields(8) intime t(1) by simp
  have refs: "set (dp_evidence_refs p @ dp_contradicting_evidence_refs p) \<subseteq> ev_evidence_id ` set ?eligible" using r(1) ff(3) by blast
  have n: "er_min_evidence_items (sp_evidence (av_spec ?version)) \<le> int (length (dp_evidence_refs p @ dp_contradicting_evidence_refs p))"
    using r(4) card_length[of "dp_evidence_refs p @ dp_contradicting_evidence_refs p"] by linarith
  show ?thesis
    unfolding supported_decision_def Let_def
    using intime fields call(1) t d refs n r(2,3,5-8) ff(1,2) by simp
qed

lemma analyse_all_decided:
  "analyse_all H dump c eligible contexts inputs xs = (ds, calls, stop) \<Longrightarrow> d \<in> set ds \<Longrightarrow>
    \<exists>x\<in>set xs. \<exists>calls. analyse H dump c eligible contexts x (inputs x) = Decided d calls"
  by (induction xs arbitrary: ds calls) (fastforce split: candidate_outcome.splits prod.splits)+

text \<open>What the result of a cycle is made of.\<close>

lemma run_cycle_completed:
  assumes "run_cycle H dump c provided inputs = (result, returned)" "es_status result = Completed"
  obtains contexts calls po where
    "analyse_all H dump c (eligible_evidence (eq_evidence (cl_request c)) (rg_agent_version (cl_registration c))) contexts inputs (cl_selected c)
      = (es_decisions result, calls, Loop_done)"
    "allocate (\<lambda>p. H (HashPortfolio p)) (es_decisions result) (eq_portfolio (cl_request c)) (rg_policy (cl_registration c)) = Inr po"
    "es_portfolio_decision result = Some po" "returned"
  using assms by (auto simp: run_cycle_def plain_result_def Let_def split: option.splits prod.splits loop_end.splits sum.splits)

text \<open>
  C14. Every decision of a completed cycle that trades comes from an answer of the model about a selected candidate: it was
  made in the window of the cycle and of the candidate, on a snapshot that is still fresh, cites only evidence that the
  version may use, enough of it, for the horizon asked, with a cost, and it validates.
\<close>

theorem traded_decisions_are_supported:
  assumes "run_cycle H dump c provided inputs = (result, returned)" "es_status result = Completed"
    and "d \<in> set (es_decisions result)" "requires_order (ad_proposed_action d)"
  shows "\<exists>x\<in>set (cl_selected c). supported_decision c x (inputs x) d"
proof -
  obtain contexts calls where
    "analyse_all H dump c (eligible_evidence (eq_evidence (cl_request c)) (rg_agent_version (cl_registration c))) contexts inputs (cl_selected c)
      = (es_decisions result, calls, Loop_done)"
    by (rule run_cycle_completed[OF assms(1,2)])
  from analyse_all_decided[OF this assms(3)] show ?thesis using analyse_trades[OF _ assms(4)] by blast
qed

theorem traded_decisions_are_supported_witness:
  "\<exists>d x. d \<in> set (es_decisions sample_result) \<and> x \<in> set (cl_selected sample_cycle) \<and> supported_decision sample_cycle x (sample_input x) d"
proof -
  obtain returned where run: "run_cycle runtime_hash sample_dump sample_cycle (Some []) sample_input = (sample_result, returned)"
    unfolding sample_result_def by (metis prod.collapse)
  obtain d where d: "d \<in> set (es_decisions sample_result)" using sample_completed by (cases "es_decisions sample_result") (auto simp: completed_trades_def)
  then have "requires_order (ad_proposed_action d)" "es_status sample_result = Completed"
    using sample_completed by (simp_all add: completed_trades_def list_all_iff)
  from traded_decisions_are_supported[OF run this(2) d this(1)] d show ?thesis by blast
qed

section \<open>Sequences of evaluations\<close>

text \<open>
  C13. Whatever evaluations begin and end in whatever order, the candidates that are selected for an agent on a day are at
  most the decisions its versions may take, and two cycles of the agent are the interval of its schedule apart.
\<close>

theorem decision_budget_is_kept:
  assumes "runtime_init H prompt_hash environment registrations capacity = Inr s" "system_run H dump (s, []) calls = (sys, events)"
    and "limits_hold (rs_registrations s) agent n m"
  shows "decided_for agent day events \<le> m \<and> spaced n (admission_times agent events)"
  using runtime_run_ok[OF assms(1,2), of agent n m] assms(3) by (simp add: runtime_ok_def budgets_def)

lemma sample_limits_hold: "limits_hold (rs_registrations sample_runtime) (''ws'', ''ag'') 60 10"
proof -
  have "rs_registrations sample_runtime = [(''av'', runtime_sample_registration)]"
    "sp_schedule (av_spec (rg_agent_version runtime_sample_registration)) = \<lparr>sc_decision_interval_seconds = 60, sc_max_decisions_per_day = 10\<rparr>"
    by code_simp+
  then show ?thesis by (auto simp: limits_hold_def registered_for_def split: if_split_asm)
qed

theorem decision_budget_is_kept_witness:
  "case sample_run of (sys, events) \<Rightarrow> decided_for (''ws'', ''ag'') 0 events \<le> 10 \<and> spaced 60 (admission_times (''ws'', ''ag'') events)"
  using decision_budget_is_kept[OF sample_init sample_ran[unfolded sample_run_def] sample_limits_hold, of 0] by (simp add: sample_ran)

text \<open>
  C17. Whatever evaluations begin and end in whatever order, a key is analysed once: no two cycles of the runtime have the
  same key, an entry without a result is that of the one cycle in flight, and the cache keeps within its capacity.
\<close>

theorem key_is_analysed_once:
  assumes "runtime_init H prompt_hash environment registrations capacity = Inr s" "system_run H dump (s, []) calls = ((s', flight), events)"
  shows "distinct (map evaluation_key (admitted_of events)) \<and> distinct (map evaluation_key flight) \<and>
    (\<forall>k. (\<exists>h. map_of (rs_cache s') k = Some (h, None)) \<longleftrightarrow> k \<in> evaluation_key ` set flight) \<and> int (length (rs_cache s')) \<le> capacity"
  using runtime_run_ok[OF assms, of undefined undefined undefined] by (auto simp: runtime_ok_def cache_ok_def)

theorem key_is_analysed_once_witness:
  "distinct (map evaluation_key (admitted_of (snd sample_run))) \<and> int (length (rs_cache sample_final)) \<le> 8"
  using key_is_analysed_once[OF sample_init sample_ran[unfolded sample_run_def]] by (simp add: sample_ran)

lemma stored_answer:
  assumes "map_of (rs_cache s) (cache_key r) = Some (h, Some result)" "evaluation_request_error r = None"
    and "map_of (rs_registrations s) (eq_agent_version_id r) = Some g" "av_workspace_id (rg_agent_version g) = eq_workspace_id r"
  shows "begin_evaluation H s r reading =
    (s, if H (HashRequest r) = h then Answered result True
        else Answered (plain_result (H (HashRequest r)) (H (HashPolicy (rg_policy g))) Refused [''idempotency_conflict''] []) False)"
  using assms by (simp add: begin_evaluation_def Let_def)

text \<open>
  C16. Once a result is stored it is final: at any later point, whatever the clock and however stale the data, the same
  request gets this result as a replay, another request under the key gets a conflict, and neither changes the runtime.
\<close>

theorem stored_result_is_final:
  assumes "runtime_init H prompt_hash environment registrations capacity = Inr s" "system_run H dump (s, []) calls = (sys, events)"
    and "Cycle_stored c result \<in> set events" "cache_key r = cache_key (cl_request c)" "evaluation_request_error r = None"
    and "map_of (rs_registrations s) (eq_agent_version_id r) = Some g" "av_workspace_id (rg_agent_version g) = eq_workspace_id r"
  shows "begin_evaluation H (fst sys) r reading =
    (fst sys, if H (HashRequest r) = cl_request_hash c then Answered result True
       else Answered (plain_result (H (HashRequest r)) (H (HashPolicy (rg_policy g))) Refused [''idempotency_conflict''] []) False)"
proof -
  have ok: "cache_ok capacity sys events" "rs_registrations (fst sys) = rs_registrations s"
    using runtime_run_ok[OF assms(1,2), of undefined undefined undefined] by (simp_all add: runtime_ok_def)
  then have "map_of (rs_cache (fst sys)) (cache_key r) = Some (cl_request_hash c, Some result)"
    using assms(3,4) by (simp add: cache_ok_def evaluation_key_def)
  then show ?thesis using assms(5-7) ok(2) by (intro stored_answer) simp_all
qed

theorem stored_result_is_final_witness:
  "begin_evaluation runtime_hash sample_final (sample_evaluation 60) None = (sample_final, Answered sample_result True) \<and>
   begin_evaluation runtime_hash sample_final (sample_evaluation 61) None =
     (sample_final, Answered (plain_result ''other'' ''h'' Refused [''idempotency_conflict''] []) False)"
proof -
  have stored: "Cycle_stored sample_cycle sample_result \<in> set [Cycle_admitted sample_cycle, Cycle_stored sample_cycle sample_result]" by simp
  have fields: "cl_request_hash sample_cycle = ''first''" "cache_key (cl_request sample_cycle) = (''ws'', ''cycle-1'')" by code_simp+
  have first: "cache_key (sample_evaluation 60) = (''ws'', ''cycle-1'')" "evaluation_request_error (sample_evaluation 60) = None"
    "map_of (rs_registrations sample_runtime) (eq_agent_version_id (sample_evaluation 60)) = Some runtime_sample_registration"
    "av_workspace_id (rg_agent_version runtime_sample_registration) = eq_workspace_id (sample_evaluation 60)"
    "runtime_hash (HashRequest (sample_evaluation 60)) = ''first''" by code_simp+
  have second: "cache_key (sample_evaluation 61) = (''ws'', ''cycle-1'')" "evaluation_request_error (sample_evaluation 61) = None"
    "map_of (rs_registrations sample_runtime) (eq_agent_version_id (sample_evaluation 61)) = Some runtime_sample_registration"
    "av_workspace_id (rg_agent_version runtime_sample_registration) = eq_workspace_id (sample_evaluation 61)"
    "runtime_hash (HashRequest (sample_evaluation 61)) = ''other''" "runtime_hash (HashPolicy p) = ''h''" for p
    by code_simp+
  note final = stored_result_is_final[OF sample_init sample_ran[unfolded sample_run_def] stored]
  show ?thesis
    using final[OF _ first(2-4), of None] final[OF _ second(2-4), of None] by (simp add: fields first second)
qed

end
