(* ===== verification/Spec2Isabelle.thy ===== *)
theory Spec2Isabelle
  imports DomainProperties RiskSessionTheorems PaperProperties PaperVenueTheorems WorkflowTheorems ModelTheorems RuntimeTheorems RuntimeEvaluations
begin

text \<open>
  A verification library for the execution core of kavrigo: from the evaluation of an agent through the model gateway and
  the allocation of its proposals, and from an order intent through the risk gate to the paper broker and the
  durable account, with the domain values they exchange.

  \<^bold>\<open>The program.\<close> The agent runtime (\<open>kavrigo_runtime\<close>) checks a frozen snapshot, scans it for candidates, reserves a
  cycle, asks the model gateway (\<open>kavrigo_model_gateway\<close>) for one proposal per candidate, and allocates what is proposed
  over the portfolio. The gateway makes a call only for registered agents and prompts and inside a budget of reservations.
  The risk service of the account (\<open>kavrigo_risk\<close>) evaluates an order intent against the frozen portfolio, the
  supervisor's controls, the market observation and every registered policy, reserves what it approves, and hands an
  approved intent to the broker at most once, as a permit with a quantity and a cash ceiling. The paper broker
  (\<open>kavrigo_paper\<close>) accepts only such permits, executes them against synthetic order books in a deterministic ledger,
  journals every command with hash-chained entries, and gives its clients views that are reconciled from the journal.
  The account machine of the workflows (\<open>kavrigo_workflows\<close>) owns a ledger and a risk session and is replayed from the
  commands that its repository stores in transactions under fenced leases.

  \<^bold>\<open>Theories and code.\<close> Paths are below \<open>src/kavrigo-engine/\<close>.

  \<^item> \<open>Prelude\<close>: results (\<open>bindE\<close>, \<open>guardE\<close>, \<open>runE\<close>), association-list dictionaries in insertion order, times,
    and the locales \<open>invariant_step\<close> (an operation that keeps an invariant keeps it over runs) and
    \<open>conserved_step\<close> (a measure every step keeps). \<open>EventLog\<close>: runs with events and the locale \<open>event_sourced\<close> (a relation
    of the state to a view of the events).
  \<^item> \<open>Fixed\<close>: \<open>decimal.Decimal\<close> as coefficient and exponent, and \<open>kavrigo_risk/fixed.py\<close>. \<open>DomainNumeric\<close>:
    \<open>kavrigo_domain/numeric.py\<close>, the 28-digit context; \<open>NumericOrder\<close>: how its operations bound exact values, and where they
    are exact. \<open>Binary64\<close>: the binary floats of \<open>timedelta.total_seconds()\<close> and of sums of scores, with their rounding error.
  \<^item> \<open>DomainTypes\<close>, \<open>DomainOrders\<close>, \<open>DomainAgent\<close>, \<open>DomainRisk\<close>: \<open>libs/domain/src/kavrigo_domain/\<close>, the
    records with their validators as \<open>..._error\<close> functions (the value None is acceptance), and the parts of
    \<open>kavrigo_runtime\<close> the risk gate reads. \<open>DomainProperties\<close>: the round trips.
  \<^item> \<open>RuntimeContracts\<close>, \<open>RuntimeScanner\<close>, \<open>RuntimeInputs\<close>, \<open>RuntimePortfolio\<close>, \<open>RuntimeCycle\<close>:
    \<open>services/agent-runtime/src/kavrigo_runtime/\<close> \<open>contracts.py\<close>, \<open>scanner.py\<close>, \<open>validation.py\<close>, \<open>portfolio.py\<close>, \<open>analyzer.py\<close> and
    \<open>runtime.py\<close>. \<open>RuntimeAllocation\<close>: the bounds of an allocation through its rounding; \<open>RuntimeProps\<close>: sequences of
    evaluations, with the invariants of the budgets of decisions and of the cache; \<open>RuntimeSamples\<close>, \<open>RuntimeTheorems\<close> (the
    allocation), \<open>RuntimeEvaluations\<close> (the scan, the checks, the cycle, sequences).
  \<^item> \<open>ModelContracts\<close>, \<open>ModelBudget\<close>, \<open>ModelGateway\<close>: \<open>libs/model-gateway/src/kavrigo_model_gateway/\<close> \<open>contracts.py\<close>,
    \<open>budget.py\<close>, \<open>validation.py\<close> and \<open>gateway.py\<close>; \<open>ModelBudgetProps\<close>: the budget refines a flat book of charges, as an
    instance of \<open>event_sourced\<close>; \<open>ModelTheorems\<close>.
  \<^item> \<open>RiskContracts\<close>, \<open>RiskEvaluator\<close>, \<open>RiskSizing\<close>: \<open>kavrigo_risk/contracts.py\<close> and \<open>evaluator.py\<close>;
    \<open>RiskApproval\<close> and \<open>RiskGuarantees\<close>: what an approval implies, by inversion of the evaluator, and the
    search by bisection (locale interpreted on the size test); \<open>RiskSamples\<close>: a concrete account;
    \<open>RiskProperties\<close>: the properties of the evaluator.
  \<^item> \<open>RiskSession\<close>: \<open>kavrigo_risk/session.py\<close>; \<open>RiskSessionSteps\<close>: the inductive relation \<open>change\<close>, of which
    every operation, raising or not, is a sequence; \<open>RiskSessionProps\<close>: its invariant \<open>session_ok\<close>;
    \<open>RiskSessionTheorems\<close>: the properties.
  \<^item> \<open>PaperContracts\<close>, \<open>PaperLedger\<close>: \<open>kavrigo_paper/contracts.py\<close> and \<open>ledger.py\<close>; \<open>PaperSteps\<close>: inversion
    lemmas, the inductive \<open>fill_step\<close> and the locale \<open>ledger_steps\<close> (a relation kept by a fill, a status change and a
    stored book is kept by every command); \<open>PaperInvariant\<close>, \<open>PaperSafety\<close>, \<open>PaperAccounts\<close>, \<open>PaperMatching\<close>: the
    instances of that locale (the accounting invariant \<open>ledger_ok\<close>, the unreachable errors, the conserved books,
    the reconciliation of holdings with fills, the displayed depth); \<open>PaperSamples\<close>, \<open>PaperProperties\<close>.
  \<^item> \<open>PaperVenue\<close>: \<open>kavrigo_paper/account.py\<close>, whose state holds the risk session it shares; \<open>PaperJournal\<close>: the
    inductive relation \<open>venue_change\<close> and the invariant \<open>venue_inv\<close> (the journal replays to the ledger, each order
    carries a recorded permit); \<open>PaperBroker\<close>: replay, reconciliation and the locale \<open>versioned_source\<close> for cached
    views; \<open>PaperVenueProps\<close>, \<open>PaperVenueSamples\<close>, \<open>PaperVenueTheorems\<close>.
  \<^item> \<open>WorkflowMachine\<close>, \<open>WorkflowAccounts\<close>: \<open>services/workflows/src/kavrigo_workflows/machine.py\<close> and \<open>accounts.py\<close>;
    \<open>WorkflowSteps\<close>: the locale \<open>machine_steps\<close> (a relation kept by each part of a command is kept by all) and what it
    gives; \<open>WorkflowRuns\<close>: the invariant of a machine over a journal; \<open>WorkflowRepo\<close>: the locale \<open>transactional\<close> (an
    invariant of transactions holds of every database they reach) and the rows of a reachable database; \<open>WorkflowProps\<close>,
    \<open>WorkflowSamples\<close>, \<open>WorkflowTheorems\<close>.

  \<^bold>\<open>State and operations.\<close> A Python object is a record, a dictionary an association list in insertion
  order, a mutable object under a dictionary key is read and written back under its key. A function that raises
  returns \<open>Inl\<close> of an error value; an operation of a stateful service that raises keeps what it had already
  changed, so it returns the new state with an error or a value. A clock reading is an argument, None being a
  naive datetime; times are integers of microseconds, so aware datetimes of any zone are compared as instants. An
  operation that waits for another service is two operations, before and after, since others run while it waits: a call of
  the gateway (\<open>begin_call\<close>, \<open>end_call\<close>) and an evaluation (\<open>begin_evaluation\<close>, \<open>end_evaluation\<close>); what the other service
  did is an argument of the second. The database of the workflows is a value and a transaction a function on it.

  \<^bold>\<open>Parameters.\<close> \<open>H\<close> stands for \<open>content_hash\<close>, SHA-256 of canonical JSON, over a datatype that says what is
  hashed, and \<open>digest\<close> for the hash of a text; nothing is assumed of them except, in the theorem on tampering and in the
  ones on reused keys, that the artefacts at hand do not collide. \<open>bytes\<close> is the length of a JSON encoding and \<open>fits\<close> the
  size bound on an incoming request. Of the JSON boundary of the gateway, \<open>loads\<close>, the two credential patterns and the
  schemas of the registered types are parameters; of the runtime, \<open>dump\<close> (the serialised facts) and \<open>prompt_hash\<close>.

  \<^bold>\<open>Bounds and termination.\<close> Amounts of the risk gate and the broker are integers of \<open>SCALE\<close> per unit; \<open>units\<close> and \<open>product\<close>
  refuse what does not fit or is not exact, and each refusal is a branch. The allocation computes in 28 digits: its bounds
  are proved through the rounding for equity and cash up to \<open>10 ^ 15\<close> and position values of twelve decimals up to \<open>10 ^ 16\<close>.
  Ages in float milliseconds are proved exact to the microsecond for limits up to \<open>10 ^ 8\<close>, except at the limit itself. All
  recursions are structural but \<open>bisect\<close>, \<open>ndigits\<close>, \<open>digits_of\<close>, \<open>drop_zeros\<close> and \<open>nbits\<close>, which have termination proofs;
  there is no fuel. The bisections are proved to find the largest size.

  \<^bold>\<open>Not modelled.\<close> Locks (operations run one after another, in any order), telemetry, and Pydantic's checks of
  identifier patterns and text lengths, except where a service relies on them. \<open>Order\<close> and \<open>Fill\<close> carry the
  fields the ledger sets. SQL, row locks and connections of the workflows' database, and the Temporal workflows and
  activities that drive the machines (\<open>runs.py\<close>, \<open>activities.py\<close>, \<open>rehearsal.py\<close>): their effects are outside the program.
  \<open>stdev\<close> of \<open>numeric.py\<close> and the features of \<open>signals\<close> need correctly rounded square roots and logarithms.
  \<open>market-data\<close> parses exchange payloads, \<open>market-ingestion\<close> and \<open>news-intelligence\<close> are pipelines over network I/O,
  \<open>backtest\<close> and \<open>nautilus-adapter\<close> drive a third-party engine, \<open>observability\<close> sets up exporters, the platform API is FastAPI
  routes over SQLAlchemy, and \<open>kavrigo-research\<close> and \<open>kavrigo-infra\<close> hold offline evaluations and deployment manifests.
\<close>

end
